theory Spec2Isabelle
  imports Main "HOL-Library.Word"
begin

unbundle bit_operations_syntax

section \<open>Bytes, Python exceptions and the helpers of the standard library\<close>

text \<open>
  A Python \<open>bytes\<close> object is a list of 8-bit words. A file is the list of its bytes.
  Exceptions are values: every function of the model that can raise returns a sum whose
  left injection carries the exception.
\<close>

type_synonym byte = "8 word"
type_synonym bytes = "byte list"

datatype exc = ValueError | StructError | IndexError | UnicodeDecodeError
  | OSError | OverflowError

text \<open>What a call of an engine function ends with: a returned boolean or a raised exception.\<close>

datatype outcome = Return bool | Raise exc

text \<open>\<open>b[i : j]\<close> for \<open>0 \<le> i\<close>: Python clamps both ends to the length.\<close>

definition slice :: "'a list \<Rightarrow> nat \<Rightarrow> nat \<Rightarrow> 'a list" where
  "slice xs i j = take (j - i) (drop i xs)"

text \<open>\<open>int.from_bytes(b, 'little')\<close> and \<open>int.from_bytes(b, 'big')\<close>.\<close>

primrec le_nat :: "bytes \<Rightarrow> nat" where
  "le_nat [] = 0"
| "le_nat (b # bs) = unat b + 256 * le_nat bs"

definition be_nat :: "bytes \<Rightarrow> nat" where
  "be_nat bs = le_nat (rev bs)"

text \<open>
  \<open>struct.unpack_from('<L', buf, pos)\<close> and \<open>struct.unpack_from('<Q', buf, pos)\<close>:
  \<open>struct.error\<close> when the buffer has fewer than \<open>pos + 4\<close> (\<open>pos + 8\<close>) bytes.
\<close>

definition unpack_L :: "bytes \<Rightarrow> nat \<Rightarrow> exc + nat" where
  "unpack_L buf pos =
     (if length buf < pos + 4 then Inl StructError else Inr (le_nat (slice buf pos (pos + 4))))"

definition unpack_Q :: "bytes \<Rightarrow> nat \<Rightarrow> exc + nat" where
  "unpack_Q buf pos =
     (if length buf < pos + 8 then Inl StructError else Inr (le_nat (slice buf pos (pos + 8))))"

text \<open>\<open>'<2L'\<close> and \<open>'<3L'\<close>: two and three consecutive 32-bit fields.\<close>

definition unpack_2L :: "bytes \<Rightarrow> nat \<Rightarrow> exc + nat \<times> nat" where
  "unpack_2L buf pos =
     (if length buf < pos + 8 then Inl StructError
      else Inr (le_nat (slice buf pos (pos + 4)), le_nat (slice buf (pos + 4) (pos + 8))))"

definition unpack_3L :: "bytes \<Rightarrow> nat \<Rightarrow> exc + nat \<times> nat \<times> nat" where
  "unpack_3L buf pos =
     (if length buf < pos + 12 then Inl StructError
      else Inr (le_nat (slice buf pos (pos + 4)), le_nat (slice buf (pos + 4) (pos + 8)),
                le_nat (slice buf (pos + 8) (pos + 12))))"

text \<open>
  \<open>b[:j]\<close> and \<open>b[j:]\<close> for a Python integer \<open>j\<close>: a negative index counts from the
  end, and \<open>-0\<close> is \<open>0\<close>.
\<close>

definition slice_to :: "'a list \<Rightarrow> int \<Rightarrow> 'a list" where
  "slice_to xs j = (if j < 0 then take (nat (int (length xs) + j)) xs else take (nat j) xs)"

definition slice_from :: "'a list \<Rightarrow> int \<Rightarrow> 'a list" where
  "slice_from xs j = (if j < 0 then drop (nat (int (length xs) + j)) xs else drop (nat j) xs)"

text \<open>
  \<open>f.seek(pos); f.write(data)\<close> on a file opened for update, \<open>0 \<le> pos\<close>: bytes are
  overwritten in place, the file grows when the write passes its end, and a gap between the
  old end and \<open>pos\<close> reads as zeros. Writing nothing changes nothing. Storage is unbounded
  in the model.
\<close>

definition write_at :: "bytes \<Rightarrow> nat \<Rightarrow> bytes \<Rightarrow> bytes" where
  "write_at f pos data =
     (if data = [] then f
      else take pos f @ replicate (pos - length f) 0 @ data @ drop (pos + length data) f)"

subsection \<open>\<open>binascii.crc32\<close>\<close>

text \<open>
  The CRC-32 of zlib and \<open>binascii\<close>: reflected polynomial \<open>0xEDB88320\<close>, initial value
  and final complement \<open>0xFFFFFFFF\<close>, one byte at a time, least significant bit first.
\<close>

definition crc_bit :: "32 word \<Rightarrow> 32 word" where
  "crc_bit c = (if bit c 0 then drop_bit 1 c XOR 0xEDB88320 else drop_bit 1 c)"

definition crc_byte :: "32 word \<Rightarrow> byte \<Rightarrow> 32 word" where
  "crc_byte c b = (crc_bit ^^ 8) (c XOR ucast b)"

definition crc32 :: "bytes \<Rightarrow> nat" where
  "crc32 bs = unat (foldl crc_byte 0xFFFFFFFF bs XOR 0xFFFFFFFF)"

section \<open>Phobos: \<open>phobos_decrypt_file2.py\<close>\<close>

subsection \<open>Constants\<close>

definition METADATA_SIZE :: nat where "METADATA_SIZE = 0xB2"
definition AES_IV_POS :: nat where "AES_IV_POS = 0x14"
definition AES_IV_SIZE :: nat where "AES_IV_SIZE = 16"
definition PADDING_SIZE_POS :: nat where "PADDING_SIZE_POS = 0x24"
definition ENC_KEY_DATA_POS :: nat where "ENC_KEY_DATA_POS = 0x28"
definition RSA_KEY_SIZE :: nat where "RSA_KEY_SIZE = 128"
definition FOOTER_SIZE_POS :: nat where "FOOTER_SIZE_POS = 0xA8"
definition AES_KEY_SIZE :: nat where "AES_KEY_SIZE = 32"
definition KEY_ENTRY_SIZE :: nat where "KEY_ENTRY_SIZE = RSA_KEY_SIZE + AES_KEY_SIZE"
definition KEY_DATA_XOR :: nat where "KEY_DATA_XOR = 0x17F31AAB"
definition ENC_MODE_POS :: nat where "ENC_MODE_POS = 4"
definition ORIG_FILENAME_POS_POS :: nat where "ORIG_FILENAME_POS_POS = 0x18"
definition ENC_MODE1_MAGIC :: nat where "ENC_MODE1_MAGIC = 0xAF77BC0F"
definition ENC_MODE2_MAGIC :: nat where "ENC_MODE2_MAGIC = 0xF0A75E12"
definition PHOBOS_ENC_BLOCK_SIZE :: nat where "PHOBOS_ENC_BLOCK_SIZE = 0xD0000"

subsection \<open>Key lookup (lines 88--96)\<close>

text \<open>
  The \<open>for i in range(0, len(key_data), KEY_ENTRY_SIZE)\<close> loop with its \<open>else\<close> branch:
  \<open>None\<close> is the \<open>return False\<close> of the \<open>else\<close>, \<open>Some\<close> carries \<open>aes_key\<close> at the \<open>break\<close>.
\<close>

function find_key :: "bytes \<Rightarrow> bytes \<Rightarrow> nat \<Rightarrow> bytes option" where
  "find_key enc_key_data key_data i =
     (if length key_data \<le> i then None
      else if enc_key_data = slice key_data i (i + RSA_KEY_SIZE)
      then Some (slice key_data (i + RSA_KEY_SIZE) (i + RSA_KEY_SIZE + AES_KEY_SIZE))
      else find_key enc_key_data key_data (i + KEY_ENTRY_SIZE))"
  by pat_completeness auto
termination
  by (relation "measure (\<lambda>(e, k, i). length k - i)") (auto simp: KEY_ENTRY_SIZE_def RSA_KEY_SIZE_def AES_KEY_SIZE_def)

subsection \<open>AES in CBC mode (PyCryptodome)\<close>

text \<open>
  The AES block decryption is a parameter of the model: a function from a key and a
  16-byte block to a block. CBC is written out over it: plaintext block \<open>i\<close> is the
  decryption of ciphertext block \<open>i\<close> xor-ed with ciphertext block \<open>i - 1\<close> (the IV for the
  first). A cipher object carries its key and the chaining value, so that successive
  \<open>decrypt\<close> calls continue the stream.
\<close>

type_synonym block_dec = "bytes \<Rightarrow> bytes \<Rightarrow> bytes"

definition xor_bytes :: "bytes \<Rightarrow> bytes \<Rightarrow> bytes" where
  "xor_bytes xs ys = map2 (XOR) xs ys"

function cbc_blocks :: "block_dec \<Rightarrow> bytes \<Rightarrow> bytes \<Rightarrow> bytes \<Rightarrow> bytes" where
  "cbc_blocks D key prev data =
     (if data = [] then []
      else xor_bytes (D key (take 16 data)) prev @ cbc_blocks D key (take 16 data) (drop 16 data))"
  by pat_completeness auto
termination
  by (relation "measure (\<lambda>(D, key, prev, data). length data)") auto

record cbc_cipher =
  cbc_key :: bytes
  cbc_iv :: bytes

text \<open>
  \<open>AES.new(key, AES.MODE_CBC, iv)\<close>: \<open>ValueError\<close> for a key that is not 16, 24 or 32 bytes
  long and for an IV that is not 16 bytes long.
\<close>

definition aes_new_cbc :: "bytes \<Rightarrow> bytes \<Rightarrow> exc + cbc_cipher" where
  "aes_new_cbc key iv =
     (if length key \<noteq> 16 \<and> length key \<noteq> 24 \<and> length key \<noteq> 32 then Inl ValueError
      else if length iv \<noteq> 16 then Inl ValueError
      else Inr \<lparr>cbc_key = key, cbc_iv = iv\<rparr>)"

text \<open>\<open>cipher.decrypt(data)\<close>: \<open>ValueError\<close> unless the data is a whole number of blocks.\<close>

definition cbc_decrypt :: "block_dec \<Rightarrow> cbc_cipher \<Rightarrow> bytes \<Rightarrow> exc + bytes \<times> cbc_cipher" where
  "cbc_decrypt D c data =
     (if length data mod 16 \<noteq> 0 then Inl ValueError
      else Inr (cbc_blocks D (cbc_key c) (cbc_iv c) data,
                if data = [] then c else c\<lparr>cbc_iv := drop (length data - 16) data\<rparr>))"

subsection \<open>Original file name (lines 137--147)\<close>

text \<open>
  The terminator scan \<open>for i in range(orig_filename_pos, len(endblock_data), 2)\<close>: the
  second operand of \<open>and\<close> is read only when the first byte is zero, and reading it at
  \<open>len(endblock_data)\<close> raises \<open>IndexError\<close>. Running off the end is the \<open>else\<close>
  branch, \<open>return False\<close>.
\<close>

function find_terminator :: "bytes \<Rightarrow> nat \<Rightarrow> outcome + nat" where
  "find_terminator endblock_data i =
     (if length endblock_data \<le> i then Inl (Return False)
      else if endblock_data ! i = 0
      then (if length endblock_data \<le> i + 1 then Inl (Raise IndexError)
            else if endblock_data ! (i + 1) = 0 then Inr i
            else find_terminator endblock_data (i + 2))
      else find_terminator endblock_data (i + 2))"
  by pat_completeness auto
termination
  by (relation "measure (\<lambda>(b, i). length b - i)") auto

text \<open>
  \<open>bytes.decode('UTF-16')\<close> on a little-endian host: a leading byte order mark selects the
  byte order and is dropped; a lone or misplaced surrogate raises \<open>UnicodeDecodeError\<close>,
  as does a trailing odd byte. The result is the list of code points.
\<close>

fun utf16_units :: "bool \<Rightarrow> bytes \<Rightarrow> exc + nat list" where
  "utf16_units be [] = Inr []"
| "utf16_units be [b] = Inl UnicodeDecodeError"
| "utf16_units be (a # b # bs) =
     (case utf16_units be bs of
        Inl e \<Rightarrow> Inl e
      | Inr us \<Rightarrow> Inr ((if be then 256 * unat a + unat b else unat a + 256 * unat b) # us))"

fun utf16_chars :: "nat list \<Rightarrow> exc + nat list" where
  "utf16_chars [] = Inr []"
| "utf16_chars (u # us) =
     (if 0xD800 \<le> u \<and> u \<le> 0xDBFF
      then (case us of
              [] \<Rightarrow> Inl UnicodeDecodeError
            | v # vs \<Rightarrow>
                if 0xDC00 \<le> v \<and> v \<le> 0xDFFF
                then (case utf16_chars vs of
                        Inl e \<Rightarrow> Inl e
                      | Inr cs \<Rightarrow> Inr ((0x10000 + (u - 0xD800) * 1024 + (v - 0xDC00)) # cs))
                else Inl UnicodeDecodeError)
      else if 0xDC00 \<le> u \<and> u \<le> 0xDFFF then Inl UnicodeDecodeError
      else (case utf16_chars us of Inl e \<Rightarrow> Inl e | Inr cs \<Rightarrow> Inr (u # cs)))"

definition decode_utf16 :: "bytes \<Rightarrow> exc + nat list" where
  "decode_utf16 b =
     (let (be, rest) =
            (if take 2 b = [0xFF, 0xFE] then (False, drop 2 b)
             else if take 2 b = [0xFE, 0xFF] then (True, drop 2 b)
             else (False, b))
      in case utf16_units be rest of Inl e \<Rightarrow> Inl e | Inr us \<Rightarrow> utf16_chars us)"

text \<open>\<open>i = s.rfind('\\'); if i >= 0: s = s[i + 1:]\<close>, on code points (\<open>0x5C\<close> is the backslash).\<close>

definition after_last_backslash :: "nat list \<Rightarrow> nat list" where
  "after_last_backslash s = rev (takeWhile (\<lambda>c. c \<noteq> 0x5C) (rev s))"

subsection \<open>Scattered chunks: the write loop (lines 174--178)\<close>

text \<open>
  \<open>for i in range(num_chunks)\<close>, as a recursion over the list of indices. The first
  argument is the largest file offset of the file system, at most \<open>2^63 - 1\<close>. The result
  is the file as the loop leaves it, with the exception that stopped the loop, if any:
  \<open>struct.error\<close> when the table entry lies beyond the end block; \<open>ValueError\<close> when the
  offset does not fit the signed 64-bit file offset of \<open>seek\<close>; \<open>OSError\<close> when \<open>seek\<close>
  is asked for an offset beyond the largest one, and when the write of a chunk would pass
  the largest offset: the bytes that fit are stored and the rest is refused. The exception
  of a refused write is raised by the write or by the next call that flushes the buffer of
  the file object: no later chunk is written.
\<close>

fun write_chunks ::
  "nat \<Rightarrow> bytes \<Rightarrow> bytes \<Rightarrow> nat \<Rightarrow> nat list \<Rightarrow> bytes \<Rightarrow> exc option \<times> bytes" where
  "write_chunks max_size endblock_data chunk_data chunk_size [] f = (None, f)"
| "write_chunks max_size endblock_data chunk_data chunk_size (i # is) f =
     (case unpack_Q endblock_data (0x20 + i * 8) of
        Inl e \<Rightarrow> (Some e, f)
      | Inr chunk_pos \<Rightarrow>
          if 2 ^ 63 \<le> chunk_pos then (Some ValueError, f)
          else if max_size < chunk_pos then (Some OSError, f)
          else
            let data = slice chunk_data (i * chunk_size) ((i + 1) * chunk_size) in
            if max_size < chunk_pos + length data
            then (Some OSError, write_at f chunk_pos (take (max_size - chunk_pos) data))
            else write_chunks max_size endblock_data chunk_data chunk_size is
                   (write_at f chunk_pos data))"

subsection \<open>Single stream: the read loop (lines 191--204)\<close>

text \<open>
  \<open>fin\<close> is what is left to read of the input, \<open>fout\<close> what has been written. A read of
  fewer than \<open>ENC_BLOCK_SIZE\<close> bytes is the last one.
\<close>

function decrypt_stream :: "block_dec \<Rightarrow> cbc_cipher \<Rightarrow> bytes \<Rightarrow> bytes \<Rightarrow> exc + bytes" where
  "decrypt_stream D cipher fin fout =
     (let enc_data = take PHOBOS_ENC_BLOCK_SIZE fin in
      if length enc_data \<noteq> PHOBOS_ENC_BLOCK_SIZE then
        (let excess_size = length enc_data mod 16 in
         case cbc_decrypt D cipher (slice_to enc_data (- int excess_size)) of
           Inl e \<Rightarrow> Inl e
         | Inr (dec_data, cipher') \<Rightarrow>
             Inr (fout @ dec_data @ slice_from enc_data (- int excess_size)))
      else
        (case cbc_decrypt D cipher enc_data of
           Inl e \<Rightarrow> Inl e
         | Inr (dec_data, cipher') \<Rightarrow>
             decrypt_stream D cipher' (drop PHOBOS_ENC_BLOCK_SIZE fin) (fout @ dec_data)))"
  by pat_completeness auto
termination
  by (relation "measure (\<lambda>(D, c, fin, fout). length fin)")
     (auto simp: PHOBOS_ENC_BLOCK_SIZE_def)

subsection \<open>\<open>decrypt_file2\<close>\<close>

text \<open>
  The function reads the encrypted file and writes a new file, in the directory of the
  input, named after the original file name stored in the end block. What it needs of the
  file system is a parameter of the model: the base name of the input, whether
  \<open>io.open(path, 'wb')\<close> succeeds for a given name in that directory (the process can
  create a regular file there, or overwrite the one that is there), and the largest file
  offset. Two names that differ are taken to denote different files. \<open>OSError\<close> stands for
  the class with its subclasses
  \<open>FileNotFoundError\<close>, \<open>IsADirectoryError\<close>, \<open>PermissionError\<close> and
  \<open>shutil.SameFileError\<close>. The model returns how the call ended and the new file, if it
  was opened: its name (code points) and its content. When the stored name is the name of
  the input, the new file is the input itself.
\<close>

record file_system =
  fs_own_name :: "nat list"
  fs_creatable :: "nat list \<Rightarrow> bool"
  fs_max_size :: nat

type_synonym new_file = "(nat list \<times> bytes) option"

text \<open>
  \<open>shutil.copy(filepath, new_filepath)\<close> followed by \<open>io.open(new_filepath, 'rb+')\<close>
  succeeds when the name is not empty, is not the name of the input, and the file can be
  created. For the empty name the new path is the directory (into which the input would be
  copied onto itself) or the empty path, and for the name of the input it is the input:
  \<open>shutil.copy\<close> raises.
\<close>

definition can_copy_to :: "file_system \<Rightarrow> nat list \<Rightarrow> bool" where
  "can_copy_to FS name = (name \<noteq> [] \<and> name \<noteq> fs_own_name FS \<and> fs_creatable FS name)"

text \<open>
  \<open>io.open(new_filepath, 'wb')\<close> succeeds when the name is not empty and the file can be
  created or overwritten; the file is empty afterwards, also when it is the input.
\<close>

definition can_open_new :: "file_system \<Rightarrow> nat list \<Rightarrow> bool" where
  "can_open_new FS name = (name \<noteq> [] \<and> fs_creatable FS name)"

text \<open>Lines 69--113: metadata, key lookup, footer size, the encrypted end block.\<close>

record footer =
  ft_metadata :: bytes
  ft_aes_key :: bytes
  ft_footer_size :: nat
  ft_enc_endblock_data :: bytes

definition read_footer :: "bytes \<Rightarrow> bytes \<Rightarrow> outcome + footer" where
  "read_footer file key_data =
     (if length file < METADATA_SIZE then Inl (Return False)
      else
        let metadata = drop (length file - METADATA_SIZE) file;
            enc_key_data = slice metadata ENC_KEY_DATA_POS (ENC_KEY_DATA_POS + RSA_KEY_SIZE)
        in case find_key enc_key_data key_data 0 of
             None \<Rightarrow> Inl (Return False)
           | Some aes_key \<Rightarrow>
               (case unpack_L metadata FOOTER_SIZE_POS of
                  Inl e \<Rightarrow> Inl (Raise e)
                | Inr footer_size \<Rightarrow>
                    if footer_size \<le> METADATA_SIZE then Inl (Return False)
                    else
                      let endblock_size = footer_size - METADATA_SIZE in
                      if endblock_size mod 16 \<noteq> 0 then Inl (Return False)
                      else if length file < footer_size then Inl (Return False)
                      else Inr \<lparr>ft_metadata = metadata, ft_aes_key = aes_key,
                                 ft_footer_size = footer_size,
                                 ft_enc_endblock_data =
                                   slice file (length file - footer_size)
                                     (length file - footer_size + endblock_size)\<rparr>))"

text \<open>Lines 115--147: IV, padding size, the decrypted end block, mode and file name.\<close>

record header =
  hd_aes_iv :: bytes
  hd_padding_size :: nat
  hd_endblock_data :: bytes
  hd_enc_mode :: nat
  hd_orig_filename :: "nat list"

definition read_header :: "block_dec \<Rightarrow> footer \<Rightarrow> outcome + header" where
  "read_header D ft =
     (let aes_iv = slice (ft_metadata ft) AES_IV_POS (AES_IV_POS + AES_IV_SIZE) in
      case unpack_L (ft_metadata ft) PADDING_SIZE_POS of
        Inl e \<Rightarrow> Inl (Raise e)
      | Inr padding_size \<Rightarrow>
      (case aes_new_cbc (ft_aes_key ft) aes_iv of
        Inl e \<Rightarrow> Inl (Raise e)
      | Inr cipher \<Rightarrow>
      (case cbc_decrypt D cipher (ft_enc_endblock_data ft) of
        Inl e \<Rightarrow> Inl (Raise e)
      | Inr (endblock_data, cipher') \<Rightarrow>
      (case unpack_2L endblock_data ENC_MODE_POS of
        Inl e \<Rightarrow> Inl (Raise e)
      | Inr (enc_mode, enc_mode_magic) \<Rightarrow>
          if enc_mode = 1 \<and> enc_mode_magic \<noteq> ENC_MODE1_MAGIC then Inl (Return False)
          else if enc_mode = 2 \<and> enc_mode_magic \<noteq> ENC_MODE2_MAGIC then Inl (Return False)
          else if enc_mode \<noteq> 1 \<and> enc_mode \<noteq> 2 then Inl (Return False)
          else
      (case unpack_L endblock_data ORIG_FILENAME_POS_POS of
        Inl e \<Rightarrow> Inl (Raise e)
      | Inr orig_filename_pos \<Rightarrow>
      (case find_terminator endblock_data orig_filename_pos of
        Inl r \<Rightarrow> Inl r
      | Inr i \<Rightarrow>
      (case decode_utf16 (slice endblock_data orig_filename_pos i) of
        Inl e \<Rightarrow> Inl (Raise e)
      | Inr name \<Rightarrow>
          Inr \<lparr>hd_aes_iv = aes_iv, hd_padding_size = padding_size,
               hd_endblock_data = endblock_data, hd_enc_mode = enc_mode,
               hd_orig_filename = after_last_backslash name\<rparr>)))))))"

text \<open>
  Lines 154--182: multiple chunks, on a copy of the input. When the copy cannot be made the
  exception of \<open>shutil.copy\<close> or of \<open>io.open\<close> ends the call before anything else is
  done.
\<close>

definition decrypt_chunks :: "file_system \<Rightarrow> bytes \<Rightarrow> footer \<Rightarrow> header \<Rightarrow> outcome \<times> new_file" where
  "decrypt_chunks FS file ft h =
     (if can_copy_to FS (hd_orig_filename h) then
        (let f = file in
         case unpack_3L (hd_endblock_data h) 0x0C of
           Inl e \<Rightarrow> (Raise e, Some (hd_orig_filename h, f))
         | Inr (num_chunks, chunk_size, chunk_data_crc32) \<Rightarrow>
             let chunk_data_pos = 0x20 + num_chunks * 8;
                 chunk_data = slice (hd_endblock_data h) chunk_data_pos
                                (chunk_data_pos + num_chunks * chunk_size)
             in if chunk_data_crc32 \<noteq> crc32 chunk_data
                then (Return False, Some (hd_orig_filename h, f))
                else (case write_chunks (fs_max_size FS) (hd_endblock_data h) chunk_data
                             chunk_size [0..<num_chunks] f of
                        (Some e, f') \<Rightarrow> (Raise e, Some (hd_orig_filename h, f'))
                      | (None, f') \<Rightarrow>
                          (Return True,
                           Some (hd_orig_filename h, take (length f' - ft_footer_size ft) f'))))
      else (Raise OSError, None))"

text \<open>
  Lines 186--208: single chunk. When the output cannot be opened the exception of
  \<open>io.open\<close> ends the call. When the stored name is the name of the input, opening the
  output empties the input, and the reads find nothing. \<open>fout.seek(-(footer_size +
  padding_size), 2)\<close> raises \<open>OSError\<close> when the output is shorter than that.
\<close>

definition decrypt_single ::
  "block_dec \<Rightarrow> file_system \<Rightarrow> bytes \<Rightarrow> footer \<Rightarrow> header \<Rightarrow> outcome \<times> new_file" where
  "decrypt_single D FS file ft h =
     (if can_open_new FS (hd_orig_filename h) then
        (let fin = (if hd_orig_filename h = fs_own_name FS then [] else file) in
         case aes_new_cbc (ft_aes_key ft) (hd_aes_iv h) of
           Inl e \<Rightarrow> (Raise e, Some (hd_orig_filename h, []))
         | Inr cipher \<Rightarrow>
             (case decrypt_stream D cipher fin [] of
                Inl e \<Rightarrow> (Raise e, Some (hd_orig_filename h, []))
              | Inr fout \<Rightarrow>
                  if length fout < ft_footer_size ft + hd_padding_size h
                  then (Raise OSError, Some (hd_orig_filename h, fout))
                  else (Return True,
                        Some (hd_orig_filename h,
                              take (length fout - (ft_footer_size ft + hd_padding_size h)) fout))))
      else (Raise OSError, None))"

definition decrypt_file2 ::
  "block_dec \<Rightarrow> file_system \<Rightarrow> bytes \<Rightarrow> bytes \<Rightarrow> outcome \<times> new_file" where
  "decrypt_file2 D FS file key_data =
     (case read_footer file key_data of
        Inl r \<Rightarrow> (r, None)
      | Inr ft \<Rightarrow>
          (case read_header D ft of
             Inl r \<Rightarrow> (r, None)
           | Inr h \<Rightarrow>
               if hd_enc_mode h = 1 then decrypt_chunks FS file ft h
               else decrypt_single D FS file ft h))"

subsection \<open>The script's main part (lines 222--241)\<close>

text \<open>
  \<open>keys\<close> is the content of \<open>keys.txt\<close> after base64 decoding. The process ends with an
  exit status, or with the traceback of an exception nobody caught (status 1 as well).
\<close>

datatype proc_end = Exit nat | Traceback exc

definition load_keys :: "bytes \<Rightarrow> proc_end + bytes" where
  "load_keys keys =
     (case unpack_2L keys 0 of
        Inl e \<Rightarrow> Inl (Traceback e)
      | Inr (num_keys0, crc0) \<Rightarrow>
          let num_keys = num_keys0 XOR KEY_DATA_XOR;
              crc = crc0 XOR KEY_DATA_XOR;
              key_data = slice keys 8 (8 + num_keys * KEY_ENTRY_SIZE)
          in if crc \<noteq> crc32 key_data then Inl (Exit 1) else Inr key_data)"

definition exit_status :: "proc_end \<Rightarrow> nat" where
  "exit_status p = (case p of Exit n \<Rightarrow> n | Traceback e \<Rightarrow> 1)"

definition main ::
  "block_dec \<Rightarrow> file_system \<Rightarrow> bytes \<Rightarrow> bytes \<Rightarrow> proc_end \<times> new_file" where
  "main D FS keys file =
     (case load_keys keys of
        Inl p \<Rightarrow> (p, None)
      | Inr key_data \<Rightarrow>
          (case decrypt_file2 D FS file key_data of
             (Return True, out) \<Rightarrow> (Exit 0, out)
           | (Return False, out) \<Rightarrow> (Exit 1, out)
           | (Raise e, out) \<Rightarrow> (Traceback e, out)))"

section \<open>RCRU64: \<open>rcru64_decrypt_file.py\<close>\<close>

subsection \<open>Constants\<close>

text \<open>A \<open>bytes\<close> literal of printable ASCII characters.\<close>

definition ascii :: "string \<Rightarrow> bytes" where
  "ascii s = map (\<lambda>c. of_nat (of_char c)) s"

definition METADATA_MARKER :: bytes where "METADATA_MARKER = ascii ''wenf=''"
definition METADATA_MARKER2 :: bytes where "METADATA_MARKER2 = ascii ''&4r*3d''"
definition CHUNK_INFO_MARKER1 :: bytes where "CHUNK_INFO_MARKER1 = ascii ''P7A1s''"
definition CHUNK_INFO_MARKER2 :: bytes where "CHUNK_INFO_MARKER2 = ascii '':''"
definition CHUNK_INFO_MARKER3 :: bytes where "CHUNK_INFO_MARKER3 = ascii ''$f1;''"
definition ENC_SIZE_MARKER :: bytes where "ENC_SIZE_MARKER = ascii ''Fs1z3''"
definition KEYDATA_MARKER1 :: bytes where "KEYDATA_MARKER1 = ascii ''d7j3''"
definition KEYDATA_MARKER2 :: bytes where "KEYDATA_MARKER2 = ascii ''y9a0''"
definition KEYDATA_MARKER3 :: bytes where "KEYDATA_MARKER3 = ascii ''m5ha''"
definition SMALL_FILE_END_MARKER1 :: bytes where
  "SMALL_FILE_END_MARKER1 = ascii ''nqpso5938fh71jfu''"
definition SMALL_FILE_END_MARKER2 :: bytes where
  "SMALL_FILE_END_MARKER2 = ascii ''qpso5938fh71jf''"

definition RCRU_RSA_KEY_SIZE :: int where "RCRU_RSA_KEY_SIZE = 256"
definition AES_BLOCK_SIZE :: int where "AES_BLOCK_SIZE = 16"
definition CHUNK_ENC_NONCE_SIZE :: nat where "CHUNK_ENC_NONCE_SIZE = 12"
definition FULL_ENC_NONCE_SIZE1 :: nat where "FULL_ENC_NONCE_SIZE1 = 12"
definition FULL_ENC_NONCE_SIZE2 :: nat where "FULL_ENC_NONCE_SIZE2 = 32"
definition FAST_ENC_NONCE_SIZE :: nat where "FAST_ENC_NONCE_SIZE = 32"
definition MAX_METADATA_SIZE :: int where "MAX_METADATA_SIZE = 0x12C"
definition MIN_METADATA_SIZE :: int where
  "MIN_METADATA_SIZE = RCRU_RSA_KEY_SIZE + int (length METADATA_MARKER)"
definition ADDITIONAL_DATA_SIZE :: int where "ADDITIONAL_DATA_SIZE = 1"
definition MIN_BIG_FILE_SIZE :: int where "MIN_BIG_FILE_SIZE = 0x1F4000"
definition ENC_BLOCK_SIZE :: int where "ENC_BLOCK_SIZE = 0x7D000"
definition FIRST_ENC_BLOCK_SIZE :: int where "FIRST_ENC_BLOCK_SIZE = 0x2D2A8"
definition RND64_INIT_STATE_DATA :: bytes where "RND64_INIT_STATE_DATA = ascii ''sxuojgdg''"
definition RND64_A1 :: "64 word" where "RND64_A1 = 4815"
definition RND64_A2 :: "64 word" where "RND64_A2 = 4815"

subsection \<open>The 64-bit pseudo random number generator (lines 91--127)\<close>

text \<open>
  Every intermediate value of \<open>rnd64_seed\<close> is masked with \<open>MASK64\<close>, so the values are
  64-bit words: addition wraps, and the two rotations are written as the source writes
  them, from the two shifts.
\<close>

definition rol64 :: "64 word \<Rightarrow> nat \<Rightarrow> 64 word" where
  "rol64 v s = push_bit s v OR drop_bit (64 - s) v"

definition ror64 :: "64 word \<Rightarrow> nat \<Rightarrow> 64 word" where
  "ror64 v s = drop_bit s v OR push_bit (64 - s) v"

definition rnd64_seed :: "64 word \<Rightarrow> 64 word \<Rightarrow> 64 word \<Rightarrow> 64 word \<times> 64 word" where
  "rnd64_seed state64 a1 a2 =
     (let x1 = state64 + 0xDEADBEEFDEADBEEF;
          y1 = rol64 x1 15;
          x2 = (x1 XOR 0xE6ADBEEFDEADBEEF) + y1;
          y2 = ror64 x2 12;
          x3 = (a1 XOR x2) + y2;
          y3 = rol64 x3 26;
          x4 = (a2 XOR x3) + y3;
          y4 = ror64 x4 13;
          x5 = (y1 XOR x4) + y4;
          y5 = rol64 x5 28;
          x6 = (y2 XOR x5) + y5;
          y6 = rol64 x6 9;
          x7 = (y3 XOR x6) + y6;
          y7 = ror64 x7 17;
          x8 = (y4 XOR x7) + y7;
          y8 = ror64 x8 10;
          x9 = (y5 XOR x8) + y8;
          x10 = (y6 XOR x9) + ror64 x9 32;
          x11 = (y7 XOR x10) + rol64 x10 25;
          y12 = ror64 x11 1;
          x12 = (y8 XOR x11) + y12
      in (y12, x12))"

text \<open>\<open>v.to_bytes(8, byteorder='big')\<close> for a 64-bit value.\<close>

definition to_bytes8_big :: "64 word \<Rightarrow> bytes" where
  "to_bytes8_big v = map (\<lambda>i. ucast (drop_bit (8 * i) v)) [7, 6, 5, 4, 3, 2, 1, 0]"

definition rnd64data :: "bytes \<Rightarrow> bytes" where
  "rnd64data state64_data =
     (let state64 = of_nat (le_nat (take 8 state64_data));
          (rnd64, dummy) = rnd64_seed state64 RND64_A1 RND64_A2
      in to_bytes8_big rnd64)"

subsection \<open>What the function gets from outside\<close>

text \<open>
  \<open>rsa_decrypt\<close> is \<open>rcru64_crypt.rsa_decrypt\<close>, whose module is not among the sources:
  it returns the key data or \<open>None\<close>. \<open>gcm_keystream key nonce i\<close> is byte \<open>i\<close> of the
  key stream of AES-GCM, whose decryption without tag verification xors the data with it.
  \<open>float_blocks b\<close> stands for \<open>int(float(b) * BLOCK_SIZE)\<close>, where floating-point
  arithmetic is left to Python: the integer, \<open>ValueError\<close> for text that is no number, or
  \<open>OverflowError\<close>. \<open>FAST_ENC_NONCE\<close> is the content of \<open>fast_nonce.bin\<close>.
\<close>

record env =
  rsa_decrypt :: "bytes \<Rightarrow> bytes \<Rightarrow> bytes option"
  gcm_keystream :: "bytes \<Rightarrow> bytes \<Rightarrow> nat \<Rightarrow> byte"
  float_blocks :: "bytes \<Rightarrow> exc + int"
  FAST_ENC_NONCE :: bytes

text \<open>
  \<open>AES.new(key, AES.MODE_GCM, nonce)\<close> followed by \<open>cipher.decrypt(data)\<close>: \<open>ValueError\<close>
  for a key that is not 16, 24 or 32 bytes long and for an empty nonce.
\<close>

definition gcm_xor :: "env \<Rightarrow> bytes \<Rightarrow> bytes \<Rightarrow> bytes \<Rightarrow> bytes" where
  "gcm_xor E key nonce data = map2 (XOR) data (map (gcm_keystream E key nonce) [0..<length data])"

definition gcm_decrypt :: "env \<Rightarrow> bytes \<Rightarrow> bytes \<Rightarrow> bytes \<Rightarrow> exc + bytes" where
  "gcm_decrypt E key nonce data =
     (if length key \<noteq> 16 \<and> length key \<noteq> 24 \<and> length key \<noteq> 32 then Inl ValueError
      else if nonce = [] then Inl ValueError
      else Inr (gcm_xor E key nonce data))"

subsection \<open>Python builtins on the file and on \<open>bytes\<close>\<close>

text \<open>
  \<open>f.seek(pos); f.read(n)\<close>: \<open>OSError\<close> for a negative position, \<open>ValueError\<close> for a
  length below \<open>-1\<close>; \<open>-1\<close> reads to the end of the file.
\<close>

definition read_at :: "bytes \<Rightarrow> int \<Rightarrow> int \<Rightarrow> exc + bytes" where
  "read_at f pos n =
     (if pos < 0 then Inl OSError
      else if n < - 1 then Inl ValueError
      else if n = - 1 then Inr (drop (nat pos) f)
      else Inr (take (nat n) (drop (nat pos) f)))"

text \<open>\<open>f.truncate(size)\<close>: \<open>OSError\<close> for a negative size; a larger size pads with zeros.\<close>

definition truncate_to :: "bytes \<Rightarrow> int \<Rightarrow> exc + bytes" where
  "truncate_to f n =
     (if n < 0 then Inl OSError
      else Inr (take (nat n) f @ replicate (nat n - length f) 0))"

text \<open>\<open>b.find(sub, start)\<close> for \<open>0 \<le> start\<close>: the lowest index, \<open>None\<close> for \<open>-1\<close>.\<close>

function find_from :: "bytes \<Rightarrow> bytes \<Rightarrow> nat \<Rightarrow> nat option" where
  "find_from b sub i =
     (if length b < i + length sub then None
      else if take (length sub) (drop i b) = sub then Some i
      else find_from b sub (i + 1))"
  by pat_completeness auto
termination
  by (relation "measure (\<lambda>(b, sub, i). Suc (length b) - i)") auto

text \<open>
  \<open>int(b)\<close> for \<open>bytes\<close>: ASCII white space around, an optional sign, decimal digits with
  single underscores between them; \<open>ValueError\<close> otherwise.
\<close>

definition is_space :: "byte \<Rightarrow> bool" where
  "is_space c = (c = 0x20 \<or> c = 0x09 \<or> c = 0x0A \<or> c = 0x0B \<or> c = 0x0C \<or> c = 0x0D)"

definition is_digit :: "byte \<Rightarrow> bool" where
  "is_digit c = (0x30 \<le> c \<and> c \<le> 0x39)"

fun digits :: "nat \<Rightarrow> bool \<Rightarrow> bytes \<Rightarrow> nat option" where
  "digits acc after_digit [] = (if after_digit then Some acc else None)"
| "digits acc after_digit (c # cs) =
     (if is_digit c then digits (acc * 10 + (unat c - 0x30)) True cs
      else if c = 0x5F \<and> after_digit then digits acc False cs
      else None)"

definition py_int :: "bytes \<Rightarrow> exc + int" where
  "py_int b =
     (let s = rev (dropWhile is_space (rev (dropWhile is_space b))) in
      case s of
        [] \<Rightarrow> Inl ValueError
      | c # cs \<Rightarrow>
          if c = 0x2D then (case digits 0 False cs of None \<Rightarrow> Inl ValueError | Some n \<Rightarrow> Inr (- int n))
          else if c = 0x2B then (case digits 0 False cs of None \<Rightarrow> Inl ValueError | Some n \<Rightarrow> Inr (int n))
          else (case digits 0 False s of None \<Rightarrow> Inl ValueError | Some n \<Rightarrow> Inr (int n)))"

subsection \<open>\<open>decrypt_file\<close>\<close>

text \<open>
  The function works in place on the file it is given: the model takes the file's bytes
  and returns, with the way the call ended, the bytes it leaves.
\<close>

text \<open>Lines 135--165: the end marker, the metadata and the position of its marker.\<close>

definition locate_metadata :: "bytes \<Rightarrow> outcome \<times> bytes + bytes \<times> int \<times> bytes" where
  "locate_metadata f0 =
     (let file_size = int (length f0) in
      if file_size < int (length METADATA_MARKER2) then Inl (Return False, f0)
      else
        let marker = drop (length f0 - length METADATA_MARKER2) f0;
            file_size = (if marker = METADATA_MARKER2
                         then file_size - int (length METADATA_MARKER2) else file_size);
            f = (if marker = METADATA_MARKER2 then take (nat file_size) f0 else f0)
        in if file_size < MIN_METADATA_SIZE then Inl (Return False, f)
           else
             let sz = min file_size MAX_METADATA_SIZE;
                 metadata = drop (length f - nat sz) f
             in case find_from metadata METADATA_MARKER 0 of
                  None \<Rightarrow> Inl (Return False, f)
                | Some pos \<Rightarrow>
                    Inr (f, file_size - (sz - int pos),
                         drop (pos + length METADATA_MARKER) metadata))"

text \<open>
  Lines 167--214: chunk encryption is announced by \<open>CHUNK_INFO_MARKER1\<close>; then chunk
  size, chunk step and encryption size follow. \<open>None\<close> stands for full/fast encryption.
\<close>

definition chunk_info :: "env \<Rightarrow> bytes \<Rightarrow> outcome + (int \<times> int \<times> int) option \<times> bytes" where
  "chunk_info E metadata =
     (case find_from metadata CHUNK_INFO_MARKER1 0 of
        None \<Rightarrow> Inr (None, metadata)
      | Some pos0 \<Rightarrow>
          let enc_keydata = take pos0 metadata;
              pos = pos0 + length CHUNK_INFO_MARKER1
          in case find_from metadata CHUNK_INFO_MARKER2 pos of
               None \<Rightarrow> Inl (Return False)
             | Some pos2 \<Rightarrow>
          (case float_blocks E (slice metadata pos pos2) of
               Inl e \<Rightarrow> Inl (Raise e)
             | Inr chunk_size \<Rightarrow>
          let pos = pos2 + length CHUNK_INFO_MARKER2 in
          (case find_from metadata CHUNK_INFO_MARKER3 pos of
               None \<Rightarrow> Inl (Return False)
             | Some pos2 \<Rightarrow>
          (case float_blocks E (slice metadata pos pos2) of
               Inl e \<Rightarrow> Inl (Raise e)
             | Inr chunk_space \<Rightarrow>
          let chunk_step = chunk_size + chunk_space;
              pos = pos2 + length CHUNK_INFO_MARKER3
          in
          (case find_from metadata ENC_SIZE_MARKER pos of
               None \<Rightarrow> Inl (Return False)
             | Some pos \<Rightarrow>
          (case py_int (drop (pos + length ENC_SIZE_MARKER) metadata) of
               Inl e \<Rightarrow> Inl (Raise e)
             | Inr enc_size \<Rightarrow>
                 Inr (Some (chunk_size, chunk_step, enc_size), enc_keydata)))))))"

text \<open>Lines 216--243: the key data, and the key and the nonce between its markers.\<close>

definition parse_keydata :: "env \<Rightarrow> bytes \<Rightarrow> bytes \<Rightarrow> outcome + bytes \<times> bytes" where
  "parse_keydata E enc_keydata priv_key_data =
     (case rsa_decrypt E enc_keydata priv_key_data of
        None \<Rightarrow> Inl (Return False)
      | Some keydata \<Rightarrow>
          (case find_from keydata KEYDATA_MARKER1 0 of
             None \<Rightarrow> Inl (Return False)
           | Some pos0 \<Rightarrow>
               let pos = pos0 + length KEYDATA_MARKER1 in
               (case find_from keydata KEYDATA_MARKER2 pos of
                  None \<Rightarrow> Inl (Return False)
                | Some pos2 \<Rightarrow>
                    let key = slice keydata pos pos2;
                        pos = pos2 + length KEYDATA_MARKER2
                    in (case find_from keydata KEYDATA_MARKER3 pos of
                          None \<Rightarrow> Inl (Return False)
                        | Some pos2 \<Rightarrow> Inr (key, slice keydata pos pos2)))))"

text \<open>
  The loop of lines 276--293 (small file, some blocks). The result is the file as the
  loop leaves it and the exception that ended it, if any.
\<close>

function decrypt_next_blocks ::
  "env \<Rightarrow> bytes \<Rightarrow> int \<Rightarrow> int \<Rightarrow> bytes \<Rightarrow> bytes \<Rightarrow> exc option \<times> bytes" where
  "decrypt_next_blocks E key enc_size pos rnd64_state_data f =
     (if pos < enc_size then
        (case read_at f pos (min (enc_size - pos) ENC_BLOCK_SIZE) of
           Inl e \<Rightarrow> (Some e, f)
         | Inr enc_data \<Rightarrow>
             if enc_data = [] then (None, f)
             else
               let rnd64_state_data = rnd64data rnd64_state_data;
                   nonce = rnd64_state_data @ drop 4 rnd64_state_data
               in (case gcm_decrypt E key nonce enc_data of
                     Inl e \<Rightarrow> (Some e, f)
                   | Inr data \<Rightarrow>
                       decrypt_next_blocks E key enc_size (pos + ENC_BLOCK_SIZE)
                         rnd64_state_data (write_at f (nat pos) data)))
      else (None, f))"
  by pat_completeness auto
termination
  by (relation "measure (\<lambda>(E, key, enc_size, pos, st, f). nat (enc_size - pos))")
     (auto simp: ENC_BLOCK_SIZE_def)

text \<open>
  The loop of lines 372--388 (chunk encryption). The chunk step comes from the metadata and
  need not be positive, so the loop need not end: the first argument bounds the number of
  iterations, and \<open>None\<close> says that the bound was reached.
\<close>

fun decrypt_next_chunks ::
  "nat \<Rightarrow> env \<Rightarrow> bytes \<Rightarrow> int \<Rightarrow> int \<Rightarrow> int \<Rightarrow> int \<Rightarrow> bytes \<Rightarrow> bytes
     \<Rightarrow> (exc option \<times> bytes) option" where
  "decrypt_next_chunks 0 E key enc_size chunk_size chunk_step pos rnd64_state_data f = None"
| "decrypt_next_chunks (Suc n) E key enc_size chunk_size chunk_step pos rnd64_state_data f =
     (if pos < enc_size then
        (case read_at f pos (min (enc_size - pos) chunk_size) of
           Inl e \<Rightarrow> Some (Some e, f)
         | Inr enc_data \<Rightarrow>
             if enc_data = [] then Some (None, f)
             else
               let rnd64_state_data = rnd64data rnd64_state_data;
                   nonce = rnd64_state_data @ drop 4 rnd64_state_data
               in (case gcm_decrypt E key nonce enc_data of
                     Inl e \<Rightarrow> Some (Some e, f)
                   | Inr data \<Rightarrow>
                       decrypt_next_chunks n E key enc_size chunk_size chunk_step
                         (pos + chunk_step) rnd64_state_data (write_at f (nat pos) data)))
      else Some (None, f))"

text \<open>Lines 256--293: full encryption, small file, some blocks.\<close>

definition full_small_blocks :: "env \<Rightarrow> bytes \<Rightarrow> bytes \<Rightarrow> bytes \<Rightarrow> int \<Rightarrow> exc option \<times> bytes" where
  "full_small_blocks E key nonce f file_size =
     (let enc_size = file_size - (ADDITIONAL_DATA_SIZE + 1) in
      case read_at f 0 (min enc_size ENC_BLOCK_SIZE) of
        Inl e \<Rightarrow> (Some e, f)
      | Inr enc_data \<Rightarrow>
          (case gcm_decrypt E key (take FULL_ENC_NONCE_SIZE1 nonce) enc_data of
             Inl e \<Rightarrow> (Some e, f)
           | Inr data \<Rightarrow>
               decrypt_next_blocks E key enc_size ENC_BLOCK_SIZE RND64_INIT_STATE_DATA
                 (write_at f 0 data)))"

text \<open>Lines 296--312: full encryption, small file, single block.\<close>

definition full_small_single :: "env \<Rightarrow> bytes \<Rightarrow> bytes \<Rightarrow> bytes \<Rightarrow> int \<Rightarrow> exc option \<times> bytes" where
  "full_small_single E key nonce f file_size =
     (let enc_size = file_size - AES_BLOCK_SIZE in
      case read_at f 0 enc_size of
        Inl e \<Rightarrow> (Some e, f)
      | Inr enc_data \<Rightarrow>
          (case gcm_decrypt E key (take FULL_ENC_NONCE_SIZE2 nonce) enc_data of
             Inl e \<Rightarrow> (Some e, f)
           | Inr data \<Rightarrow> (None, write_at f 0 data)))"

text \<open>
  Lines 314--322: the end marker of a small file. \<open>max(end_markers, key=len)\<close> is the
  first marker of greatest length; the first marker found in the tail sets the size.
\<close>

fun longest :: "bytes list \<Rightarrow> bytes" where
  "longest [] = []"
| "longest [m] = m"
| "longest (m # ms) = (if length (longest ms) > length m then longest ms else m)"

fun strip_end_marker :: "bytes \<Rightarrow> int \<Rightarrow> bytes list \<Rightarrow> int \<Rightarrow> int" where
  "strip_end_marker data sz [] file_size = file_size"
| "strip_end_marker data sz (end_marker # ms) file_size =
     (case find_from data end_marker 0 of
        Some pos \<Rightarrow> file_size - (sz - int pos)
      | None \<Rightarrow> strip_end_marker data sz ms file_size)"

definition remove_end_marker :: "bytes \<Rightarrow> int \<Rightarrow> bytes list \<Rightarrow> exc + int" where
  "remove_end_marker f file_size end_markers =
     (let sz = int (length (longest end_markers)) in
      case read_at f (file_size - sz) sz of
        Inl e \<Rightarrow> Inl e
      | Inr data \<Rightarrow> Inr (strip_end_marker data sz end_markers file_size))"

text \<open>Lines 325--351: fast encryption, big file.\<close>

definition fast_big_file :: "env \<Rightarrow> bytes \<Rightarrow> bytes \<Rightarrow> bytes \<Rightarrow> int \<Rightarrow> exc option \<times> bytes" where
  "fast_big_file E key nonce f enc_size =
     (case read_at f 0 (min enc_size (FIRST_ENC_BLOCK_SIZE - AES_BLOCK_SIZE)) of
        Inl e \<Rightarrow> (Some e, f)
      | Inr enc_data \<Rightarrow>
          (case gcm_decrypt E key (take FAST_ENC_NONCE_SIZE nonce) enc_data of
             Inl e \<Rightarrow> (Some e, f)
           | Inr data \<Rightarrow>
               let f1 = write_at f 0 data;
                   pos = enc_size - ENC_BLOCK_SIZE
               in (case read_at f1 pos (min enc_size (ENC_BLOCK_SIZE - AES_BLOCK_SIZE)) of
                     Inl e \<Rightarrow> (Some e, f1)
                   | Inr enc_data \<Rightarrow>
                       (case gcm_decrypt E key (FAST_ENC_NONCE E) enc_data of
                          Inl e \<Rightarrow> (Some e, f1)
                        | Inr data \<Rightarrow> (None, write_at f1 (nat pos) data)))))"

text \<open>
  Lines 245--351: full/fast encryption, by the size of the plaintext region: the three
  branches, each with what follows it inside the branch, and the choice between them. The
  result is the file and the new \<open>file_size\<close>.
\<close>

definition small_blocks_path :: "env \<Rightarrow> bytes \<Rightarrow> bytes \<Rightarrow> bytes \<Rightarrow> int \<Rightarrow> exc \<times> bytes + bytes \<times> int" where
  "small_blocks_path E key nonce f file_size =
     (case full_small_blocks E key nonce f file_size of
        (Some e, f') \<Rightarrow> Inl (e, f')
      | (None, f') \<Rightarrow>
          (case remove_end_marker f' file_size [SMALL_FILE_END_MARKER1] of
             Inl e \<Rightarrow> Inl (e, f')
           | Inr file_size' \<Rightarrow> Inr (f', file_size')))"

definition single_block_path :: "env \<Rightarrow> bytes \<Rightarrow> bytes \<Rightarrow> bytes \<Rightarrow> int \<Rightarrow> exc \<times> bytes + bytes \<times> int" where
  "single_block_path E key nonce f file_size =
     (case full_small_single E key nonce f file_size of
        (Some e, f') \<Rightarrow> Inl (e, f')
      | (None, f') \<Rightarrow>
          (case remove_end_marker f' file_size
                  [SMALL_FILE_END_MARKER1, SMALL_FILE_END_MARKER2] of
             Inl e \<Rightarrow> Inl (e, f')
           | Inr file_size' \<Rightarrow> Inr (f', file_size')))"

definition fast_path :: "env \<Rightarrow> bytes \<Rightarrow> bytes \<Rightarrow> bytes \<Rightarrow> int \<Rightarrow> exc \<times> bytes + bytes \<times> int" where
  "fast_path E key nonce f file_size =
     (case fast_big_file E key nonce f file_size of
        (Some e, f') \<Rightarrow> Inl (e, f')
      | (None, f') \<Rightarrow> Inr (f', file_size))"

definition full_fast :: "env \<Rightarrow> bytes \<Rightarrow> bytes \<Rightarrow> bytes \<Rightarrow> int \<Rightarrow> exc \<times> bytes + bytes \<times> int" where
  "full_fast E key nonce f file_size =
     (if file_size < MIN_BIG_FILE_SIZE then
        (if file_size > ENC_BLOCK_SIZE then small_blocks_path E key nonce f file_size
         else single_block_path E key nonce f file_size)
      else fast_path E key nonce f file_size)"

text \<open>Lines 354--388: chunk encryption. \<open>None\<close>: the iteration bound was reached.\<close>

definition chunk_encryption ::
  "nat \<Rightarrow> env \<Rightarrow> bytes \<Rightarrow> bytes \<Rightarrow> bytes \<Rightarrow> int \<Rightarrow> int \<Rightarrow> int \<Rightarrow> (exc option \<times> bytes) option" where
  "chunk_encryption fuel E key nonce f enc_size chunk_size chunk_step =
     (case read_at f 0 (min enc_size chunk_size) of
        Inl e \<Rightarrow> Some (Some e, f)
      | Inr enc_data \<Rightarrow>
          (case gcm_decrypt E key (take CHUNK_ENC_NONCE_SIZE nonce) enc_data of
             Inl e \<Rightarrow> Some (Some e, f)
           | Inr data \<Rightarrow>
               decrypt_next_chunks fuel E key enc_size chunk_size chunk_step chunk_step
                 RND64_INIT_STATE_DATA (write_at f 0 data)))"

text \<open>Lines 390--395: the footer is cut off.\<close>

definition remove_footer :: "bytes \<Rightarrow> int \<Rightarrow> outcome \<times> bytes" where
  "remove_footer f file_size =
     (case truncate_to f (file_size - ADDITIONAL_DATA_SIZE) of
        Inl e \<Rightarrow> (Raise e, f)
      | Inr f' \<Rightarrow> (Return True, f'))"

definition decrypt_file :: "nat \<Rightarrow> env \<Rightarrow> bytes \<Rightarrow> bytes \<Rightarrow> (outcome \<times> bytes) option" where
  "decrypt_file fuel E f0 priv_key_data =
     (case locate_metadata f0 of
        Inl r \<Rightarrow> Some r
      | Inr (f, file_size, metadata) \<Rightarrow>
          (case chunk_info E metadata of
             Inl r \<Rightarrow> Some (r, f)
           | Inr (chunk, enc_keydata) \<Rightarrow>
               (case parse_keydata E enc_keydata priv_key_data of
                  Inl r \<Rightarrow> Some (r, f)
                | Inr (key, nonce) \<Rightarrow>
                    (case chunk of
                       None \<Rightarrow>
                         (case full_fast E key nonce f file_size of
                            Inl (e, f') \<Rightarrow> Some (Raise e, f')
                          | Inr (f', file_size') \<Rightarrow> Some (remove_footer f' file_size'))
                     | Some (chunk_size, chunk_step, enc_size) \<Rightarrow>
                         (case chunk_encryption fuel E key nonce f enc_size chunk_size chunk_step of
                            None \<Rightarrow> None
                          | Some (Some e, f') \<Rightarrow> Some (Raise e, f')
                          | Some (None, f') \<Rightarrow> Some (remove_footer f' file_size))))))"

section \<open>The specification's vocabulary\<close>

text \<open>
  The keystore as the specification describes it: a sequence of entries of
  \<open>KEY_ENTRY_SIZE\<close> bytes, each a wrapped key followed by a symmetric key; and the header of
  the keystore file, two little-endian 32-bit integers xor-ed with \<open>KEY_DATA_XOR\<close>.
\<close>

definition entry_wrapped_key :: "bytes \<Rightarrow> nat \<Rightarrow> bytes" where
  "entry_wrapped_key key_data j =
     slice key_data (j * KEY_ENTRY_SIZE) (j * KEY_ENTRY_SIZE + RSA_KEY_SIZE)"

definition entry_symmetric_key :: "bytes \<Rightarrow> nat \<Rightarrow> bytes" where
  "entry_symmetric_key key_data j =
     slice key_data (j * KEY_ENTRY_SIZE + RSA_KEY_SIZE)
       (j * KEY_ENTRY_SIZE + RSA_KEY_SIZE + AES_KEY_SIZE)"

definition container_wrapped_key :: "bytes \<Rightarrow> bytes" where
  "container_wrapped_key file =
     slice (drop (length file - METADATA_SIZE) file) ENC_KEY_DATA_POS
       (ENC_KEY_DATA_POS + RSA_KEY_SIZE)"

definition keys_count :: "bytes \<Rightarrow> nat" where
  "keys_count keys = le_nat (slice keys 0 4) XOR KEY_DATA_XOR"

definition keys_crc :: "bytes \<Rightarrow> nat" where
  "keys_crc keys = le_nat (slice keys 4 8) XOR KEY_DATA_XOR"

definition keys_payload :: "bytes \<Rightarrow> bytes" where
  "keys_payload keys = slice keys 8 (8 + keys_count keys * KEY_ENTRY_SIZE)"

text \<open>A well-formed keystore file with one entry of 160 zero bytes.\<close>

definition keystore_one_entry :: bytes where
  "keystore_one_entry = [0xAA, 0x1A, 0xF3, 0x17, 0xC8, 0x49, 0xF4, 0xBD] @ replicate 160 0"

text \<open>The same file with the count 2 in its header: the second entry is missing.\<close>

definition truncated_keystore :: bytes where
  "truncated_keystore = [0xA9, 0x1A, 0xF3, 0x17, 0xC8, 0x49, 0xF4, 0xBD] @ replicate 160 0"

text \<open>
  Scattered chunks, in the specification's words: the destination offset of chunk \<open>i\<close> in
  the placement table, the \<open>i\<close>-th \<open>chunk_size\<close>-slice of the decrypted payload, and two
  byte ranges (start, length) that do not overlap.
\<close>

definition chunk_pos :: "bytes \<Rightarrow> nat \<Rightarrow> nat" where
  "chunk_pos endblock_data i = le_nat (slice endblock_data (0x20 + i * 8) (0x20 + i * 8 + 8))"

definition chunk_slice :: "bytes \<Rightarrow> nat \<Rightarrow> nat \<Rightarrow> bytes" where
  "chunk_slice chunk_data chunk_size i = slice chunk_data (i * chunk_size) ((i + 1) * chunk_size)"

definition disjoint_ranges :: "nat \<Rightarrow> nat \<Rightarrow> nat \<Rightarrow> nat \<Rightarrow> bool" where
  "disjoint_ranges a m b n = (a + m \<le> b \<or> b + n \<le> a)"

text \<open>
  An end block whose table lists the offsets in descending order: chunk 0 goes to offset 4,
  chunk 1 to offset 0.
\<close>

definition reversed_table_endblock :: bytes where
  "reversed_table_endblock =
     replicate 32 0 @ [4, 0, 0, 0, 0, 0, 0, 0] @ [0, 0, 0, 0, 0, 0, 0, 0] @ [0xA, 0xB, 0xC, 0xD]"

text \<open>The chunk payload that follows the placement table in the decrypted end block.\<close>

definition chunk_payload :: "bytes \<Rightarrow> nat \<Rightarrow> nat \<Rightarrow> bytes" where
  "chunk_payload endblock_data num_chunks chunk_size =
     slice endblock_data (0x20 + num_chunks * 8) (0x20 + num_chunks * 8 + num_chunks * chunk_size)"

text \<open>
  The output file after the write loop of \<open>decrypt_file2\<close>, before the footer is cut off:
  the copy of the input with the chunks of the payload written over it.
\<close>

definition after_write_loop :: "file_system \<Rightarrow> bytes \<Rightarrow> nat \<Rightarrow> nat \<Rightarrow> bytes \<Rightarrow> bytes" where
  "after_write_loop FS endblock_data num_chunks chunk_size file =
     snd (write_chunks (fs_max_size FS) endblock_data
            (chunk_payload endblock_data num_chunks chunk_size) chunk_size [0..<num_chunks] file)"

text \<open>
  Examples need a block function. \<open>toy_block\<close> returns the block unchanged; with it, CBC
  decryption xors each block with the one before it.
\<close>

definition toy_block :: block_dec where
  "toy_block key block = block"

text \<open>
  A file system for examples: the input is called \<open>x\<close>, every name can be created, and the
  largest offset is \<open>2^63 - 1\<close>.
\<close>

definition plain_fs :: file_system where
  "plain_fs = \<lparr>fs_own_name = [0x78], fs_creatable = (\<lambda>name. True),
     fs_max_size = 9223372036854775807\<rparr>"

text \<open>
  A container in scattered-chunk mode: six bytes of data, an end block of 64 bytes and the
  metadata. The end block holds mode 1 with its magic, two chunks of two bytes, the
  checksum of the payload, a table that sends chunk 0 to offset 4 and chunk 1 to offset 0,
  the payload \<open>0a 0b 0c 0d\<close> and the file name \<open>a\<close> at offset \<open>0x34\<close>.
  \<open>placed_enc_endblock\<close> is the end block as stored, \<open>placed_endblock\<close> as decrypted; the
  metadata holds a zero IV, a zero wrapped key and the footer size 242.
\<close>

definition placed_endblock :: bytes where
  "placed_endblock =
     [0, 0, 0, 0, 0x01, 0, 0, 0, 0x0F, 0xBC, 0x77, 0xAF, 0x02, 0, 0, 0,
      0x02, 0, 0, 0, 0x28, 0xE3, 0xA8, 0x90, 0x34, 0, 0, 0, 0, 0, 0, 0,
      0x04, 0, 0, 0, 0, 0, 0, 0, 0, 0, 0, 0, 0, 0, 0, 0,
      0x0A, 0x0B, 0x0C, 0x0D, 0x61, 0, 0, 0, 0, 0, 0, 0, 0, 0, 0, 0]"

definition placed_enc_endblock :: bytes where
  "placed_enc_endblock =
     [0, 0, 0, 0, 0x01, 0, 0, 0, 0x0F, 0xBC, 0x77, 0xAF, 0x02, 0, 0, 0,
      0x02, 0, 0, 0, 0x29, 0xE3, 0xA8, 0x90, 0x3B, 0xBC, 0x77, 0xAF, 0x02, 0, 0, 0,
      0x06, 0, 0, 0, 0x29, 0xE3, 0xA8, 0x90, 0x3B, 0xBC, 0x77, 0xAF, 0x02, 0, 0, 0,
      0x0C, 0x0B, 0x0C, 0x0D, 0x48, 0xE3, 0xA8, 0x90, 0x3B, 0xBC, 0x77, 0xAF, 0x02, 0, 0, 0]"

definition placed_metadata :: bytes where
  "placed_metadata = replicate 168 0 @ [0xF2, 0, 0, 0] @ replicate 6 0"

definition placed_file :: bytes where
  "placed_file = [1, 2, 3, 4, 5, 6] @ placed_enc_endblock @ placed_metadata"

definition placed_footer :: footer where
  "placed_footer = \<lparr>ft_metadata = placed_metadata, ft_aes_key = replicate 32 0,
     ft_footer_size = 242, ft_enc_endblock_data = placed_enc_endblock\<rparr>"

definition placed_header :: header where
  "placed_header = \<lparr>hd_aes_iv = replicate 16 0, hd_padding_size = 0,
     hd_endblock_data = placed_endblock, hd_enc_mode = 1, hd_orig_filename = [0x61]\<rparr>"






text \<open>
  A container in single-stream mode whose length, 240, is a multiple of the cipher block
  size: 14 bytes of data, an end block of 48 bytes (mode 2 with its magic, the file name
  \<open>a\<close>) stored encrypted under the IV \<open>ff \<dots> ff\<close>, and the metadata.
\<close>

definition aligned_endblock :: bytes where
  "aligned_endblock =
     [0, 0, 0, 0, 0x02, 0, 0, 0, 0x12, 0x5E, 0xA7, 0xF0, 0, 0, 0, 0,
      0, 0, 0, 0, 0, 0, 0, 0, 0x20, 0, 0, 0, 0, 0, 0, 0,
      0x61, 0, 0, 0, 0, 0, 0, 0, 0, 0, 0, 0, 0, 0, 0, 0]"

definition aligned_enc_endblock :: bytes where
  "aligned_enc_endblock =
     [0xFF, 0xFF, 0xFF, 0xFF, 0xFD, 0xFF, 0xFF, 0xFF, 0xED, 0xA1, 0x58, 0x0F, 0xFF, 0xFF, 0xFF, 0xFF,
      0xFF, 0xFF, 0xFF, 0xFF, 0xFD, 0xFF, 0xFF, 0xFF, 0xCD, 0xA1, 0x58, 0x0F, 0xFF, 0xFF, 0xFF, 0xFF,
      0x9E, 0xFF, 0xFF, 0xFF, 0xFD, 0xFF, 0xFF, 0xFF, 0xCD, 0xA1, 0x58, 0x0F, 0xFF, 0xFF, 0xFF, 0xFF]"

definition aligned_metadata :: bytes where
  "aligned_metadata =
     replicate 20 0 @ replicate 16 0xFF @ replicate 132 0 @ [0xE2, 0, 0, 0] @ replicate 6 0"

definition aligned_data :: bytes where
  "aligned_data = [1, 2, 3, 4, 5, 6, 7, 8, 9, 10, 11, 12, 13, 14]"

definition aligned_file :: bytes where
  "aligned_file = aligned_data @ aligned_enc_endblock @ aligned_metadata"

definition aligned_footer :: footer where
  "aligned_footer = \<lparr>ft_metadata = aligned_metadata, ft_aes_key = replicate 32 0,
     ft_footer_size = 226, ft_enc_endblock_data = aligned_enc_endblock\<rparr>"

definition aligned_header :: header where
  "aligned_header = \<lparr>hd_aes_iv = replicate 16 0xFF, hd_padding_size = 0,
     hd_endblock_data = aligned_endblock, hd_enc_mode = 2, hd_orig_filename = [0x61]\<rparr>"

text \<open>
  The marker-search strategy, in the specification's words: the file ends with the
  optional tag; the file without the tag; the trailing window in which the metadata marker
  is searched.
\<close>

definition ends_with_marker2 :: "bytes \<Rightarrow> bool" where
  "ends_with_marker2 f0 =
     (length METADATA_MARKER2 \<le> length f0 \<and>
      drop (length f0 - length METADATA_MARKER2) f0 = METADATA_MARKER2)"

definition stripped :: "bytes \<Rightarrow> bytes" where
  "stripped f0 = take (length f0 - length METADATA_MARKER2) f0"

definition metadata_window :: "bytes \<Rightarrow> bytes" where
  "metadata_window f = drop (length f - nat (min (int (length f)) MAX_METADATA_SIZE)) f"

text \<open>
  An environment for examples: the RSA stand-in returns the blob as it is, the key stream
  is constant, every float field reads as 0.
\<close>

definition toy_env :: env where
  "toy_env = \<lparr>rsa_decrypt = (\<lambda>c k. Some c), gcm_keystream = (\<lambda>k n i. 0x5A),
     float_blocks = (\<lambda>b. Inr 0), FAST_ENC_NONCE = [1]\<rparr>"

text \<open>A file of 261 zero bytes followed by the tag: it holds no metadata marker.\<close>

definition zeros_then_marker2 :: bytes where
  "zeros_then_marker2 = replicate 261 0 @ METADATA_MARKER2"

text \<open>
  A file that ends with the tag and whose key blob, \<open>01 02 03\<close>, holds no marker: the
  metadata marker is found, and the failure comes later, from the key blob.
\<close>

definition bad_blob_file :: bytes where
  "bad_blob_file = replicate 256 0 @ METADATA_MARKER @ [1, 2, 3] @ METADATA_MARKER2"

text \<open>
  A file in full-encryption mode with a plaintext region of 250 bytes: 250 zero bytes, the
  metadata marker, and a key blob with a 32-byte key and a 12-byte nonce between its
  markers (the RSA stand-in of \<open>toy_env\<close> returns the blob as it is).
  \<open>single_block_metadata\<close> is what follows the marker.
\<close>

definition single_block_file :: bytes where
  "single_block_file =
     replicate 250 0 @ METADATA_MARKER @ KEYDATA_MARKER1 @ replicate 32 7 @ KEYDATA_MARKER2 @
     replicate 12 9 @ KEYDATA_MARKER3"

definition single_block_metadata :: bytes where
  "single_block_metadata =
     KEYDATA_MARKER1 @ replicate 32 7 @ KEYDATA_MARKER2 @ replicate 12 9 @ KEYDATA_MARKER3"

text \<open>
  Fast encryption of a big file, in the specification's words: the size of the head
  region, the size and the start of the tail region, and the file with exactly these two
  regions decrypted, the head under the nonce of the key blob and the tail under
  \<open>FAST_ENC_NONCE\<close>.
\<close>

definition head_size :: "int \<Rightarrow> nat" where
  "head_size enc_size = nat (min enc_size (FIRST_ENC_BLOCK_SIZE - AES_BLOCK_SIZE))"

definition tail_size :: nat where
  "tail_size = nat (ENC_BLOCK_SIZE - AES_BLOCK_SIZE)"

definition tail_pos :: "int \<Rightarrow> nat" where
  "tail_pos enc_size = nat (enc_size - ENC_BLOCK_SIZE)"

definition fast_result :: "env \<Rightarrow> bytes \<Rightarrow> bytes \<Rightarrow> bytes \<Rightarrow> int \<Rightarrow> bytes" where
  "fast_result E key nonce f enc_size =
     gcm_xor E key (take FAST_ENC_NONCE_SIZE nonce) (take (head_size enc_size) f) @
     slice f (head_size enc_size) (tail_pos enc_size) @
     gcm_xor E key (FAST_ENC_NONCE E)
       (slice f (tail_pos enc_size) (tail_pos enc_size + tail_size)) @
     drop (tail_pos enc_size + tail_size) f"

text \<open>
  A file with a plaintext region of exactly \<open>MIN_BIG_FILE_SIZE\<close> zero bytes, followed by the
  metadata marker and the key blob of the earlier example.
\<close>

definition big_file :: bytes where
  "big_file = replicate 2048000 0 @ METADATA_MARKER @ single_block_metadata"

text \<open>The nonce sequence in the words of the specification: the sequencer output of step
  \<open>k\<close> is \<open>k\<close> applications of \<open>rnd64data\<close> to the fixed constant.\<close>

definition sequencer_output :: "nat \<Rightarrow> bytes" where
  "sequencer_output k = (rnd64data ^^ k) RND64_INIT_STATE_DATA"

text \<open>The nonce of chunk \<open>k\<close> (\<open>k \<ge> 1\<close>): the sequencer output followed by its last four
  bytes.\<close>

definition chunk_nonce :: "nat \<Rightarrow> bytes" where
  "chunk_nonce k =
     sequencer_output k @ drop (length (sequencer_output k) - 4) (sequencer_output k)"

text \<open>The loop over the chunks after the first, written with the chunk number: chunk \<open>k\<close>
  lies at \<open>k * chunk_step\<close> and is decrypted under \<open>chunk_nonce k\<close>. The first argument bounds
  the number of iterations as in \<open>decrypt_next_chunks\<close>.\<close>

fun spec_next_chunks ::
  "nat \<Rightarrow> env \<Rightarrow> bytes \<Rightarrow> int \<Rightarrow> int \<Rightarrow> int \<Rightarrow> nat \<Rightarrow> bytes \<Rightarrow> (exc option \<times> bytes) option" where
  "spec_next_chunks 0 E key enc_size chunk_size chunk_step k f = None"
| "spec_next_chunks (Suc n) E key enc_size chunk_size chunk_step k f =
     (let pos = int k * chunk_step in
      if pos < enc_size then
        (case read_at f pos (min (enc_size - pos) chunk_size) of
           Inl e \<Rightarrow> Some (Some e, f)
         | Inr enc_data \<Rightarrow>
             if enc_data = [] then Some (None, f)
             else (case gcm_decrypt E key (chunk_nonce k) enc_data of
                     Inl e \<Rightarrow> Some (Some e, f)
                   | Inr data \<Rightarrow>
                       spec_next_chunks n E key enc_size chunk_size chunk_step (Suc k)
                         (write_at f (nat pos) data)))
      else Some (None, f))"

text \<open>Two environments that make the nonce visible in the output: the key stream repeats the
  nonce, or repeats its first byte. In the first every float field reads as 10 bytes
  (\<open>0.00001\<close> times \<open>BLOCK_SIZE\<close>, cut to an integer), in the second as 0.\<close>

definition echo_env :: env where
  "echo_env = \<lparr>rsa_decrypt = (\<lambda>c k. Some c),
     gcm_keystream = (\<lambda>k n i. n ! (i mod length n)),
     float_blocks = (\<lambda>b. Inr 10), FAST_ENC_NONCE = [1]\<rparr>"

definition hd_env :: env where
  "hd_env = \<lparr>rsa_decrypt = (\<lambda>c k. Some c),
     gcm_keystream = (\<lambda>k n i. hd n),
     float_blocks = (\<lambda>b. Inr 0), FAST_ENC_NONCE = [1]\<rparr>"

text \<open>
  Two files for the nonce sequence. The key blob holds a 32-byte key and a 16-byte nonce
  between its markers. \<open>chunk_file\<close> has a plaintext region of 300 bytes and a chunk
  descriptor: chunks of \<open>0.00001\<close> blocks with \<open>0.00001\<close> blocks between them, and an
  encrypted size of 50 bytes. \<open>small_file\<close> has a plaintext region of 1,536,000 bytes and
  no chunk descriptor.
\<close>

definition chunk_blob :: bytes where
  "chunk_blob =
     KEYDATA_MARKER1 @ replicate 32 7 @ KEYDATA_MARKER2 @ (replicate 12 9 @ [1, 2, 3, 4]) @
     KEYDATA_MARKER3"

definition chunk_descriptor :: bytes where
  "chunk_descriptor =
     CHUNK_INFO_MARKER1 @ ascii ''0.00001'' @ CHUNK_INFO_MARKER2 @ ascii ''0.00001'' @
     CHUNK_INFO_MARKER3 @ ENC_SIZE_MARKER @ ascii ''50''"

definition chunk_file :: bytes where
  "chunk_file = replicate 300 0 @ METADATA_MARKER @ chunk_blob @ chunk_descriptor"

definition small_file :: bytes where
  "small_file = replicate 1536000 0 @ METADATA_MARKER @ chunk_blob"























text \<open>
  A container in scattered-chunk mode whose end block ends inside the payload: one chunk of
  100 bytes is announced, and the 48-byte end block holds 8 bytes after the table, which
  are also the file name field. The stored checksum is that of these 8 bytes.
\<close>

definition cut_payload_endblock :: bytes where
  "cut_payload_endblock =
     [0, 0, 0, 0, 0x01, 0, 0, 0, 0x0F, 0xBC, 0x77, 0xAF, 0x01, 0, 0, 0,
      0x64, 0, 0, 0, 0x36, 0xCA, 0x08, 0xE8, 0x2C, 0, 0, 0, 0, 0, 0, 0,
      0, 0, 0, 0, 0, 0, 0, 0, 0xAA, 0xBB, 0xCC, 0xDD, 0x61, 0, 0, 0]"

definition cut_payload_enc_endblock :: bytes where
  "cut_payload_enc_endblock =
     [0, 0, 0, 0, 0x01, 0, 0, 0, 0x0F, 0xBC, 0x77, 0xAF, 0x01, 0, 0, 0,
      0x64, 0, 0, 0, 0x37, 0xCA, 0x08, 0xE8, 0x23, 0xBC, 0x77, 0xAF, 0x01, 0, 0, 0,
      0x64, 0, 0, 0, 0x37, 0xCA, 0x08, 0xE8, 0x89, 0x07, 0xBB, 0x72, 0x60, 0, 0, 0]"

definition cut_payload_metadata :: bytes where
  "cut_payload_metadata = replicate 168 0 @ [0xE2, 0, 0, 0] @ replicate 6 0"

definition cut_payload_file :: bytes where
  "cut_payload_file =
     [1, 2, 3, 4, 5, 6, 7, 8, 9, 10, 11, 12] @ cut_payload_enc_endblock @ cut_payload_metadata"

definition cut_payload_footer :: footer where
  "cut_payload_footer = \<lparr>ft_metadata = cut_payload_metadata, ft_aes_key = replicate 32 0,
     ft_footer_size = 226, ft_enc_endblock_data = cut_payload_enc_endblock\<rparr>"

definition cut_payload_header :: header where
  "cut_payload_header = \<lparr>hd_aes_iv = replicate 16 0, hd_padding_size = 0,
     hd_endblock_data = cut_payload_endblock, hd_enc_mode = 1, hd_orig_filename = [0x61]\<rparr>"

section \<open>Properties\<close>

declare find_key.simps [simp del]
declare cbc_blocks.simps [simp del]
declare find_terminator.simps [simp del]
declare decrypt_stream.simps [simp del]

subsection \<open>The CRC detects a change of one byte\<close>

lemma bit31_drop: "\<not> bit (drop_bit 1 (c :: 32 word)) 31"
  by (auto simp add: bit_drop_bit_eq dest: bit_imp_le_length)

lemma crc_bit_top: "bit (crc_bit c) 31 = bit c 0"
  using bit31_drop [of c] by (simp add: crc_bit_def bit_xor_iff)

lemma word_xor_cancel: "(a::'a::len word) XOR c = b XOR c \<Longrightarrow> a = b"
proof -
  assume h: "a XOR c = b XOR c"
  have "a = (a XOR c) XOR c" by (simp add: xor.assoc)
  also have "\<dots> = (b XOR c) XOR c" by (simp add: h)
  also have "\<dots> = b" by (simp add: xor.assoc)
  finally show "a = b" .
qed

lemma word_xor_cancel_left: "(c::'a::len word) XOR a = c XOR b \<Longrightarrow> a = b"
  using word_xor_cancel [of a c b] by (simp add: xor.commute)

lemma crc_bit_inj: "crc_bit a = crc_bit b \<Longrightarrow> a = b"
proof -
  assume eq: "crc_bit a = crc_bit b"
  have b0: "bit a 0 = bit b 0"
    using crc_bit_top [of a] crc_bit_top [of b] eq by simp
  have d: "drop_bit 1 a = drop_bit 1 b"
    using eq b0 by (auto simp add: crc_bit_def split: if_splits dest: word_xor_cancel)
  show "a = b"
  proof (rule bit_word_eqI)
    fix n assume "n < LENGTH(32)"
    show "bit a n = bit b n"
    proof (cases n)
      case 0 then show ?thesis using b0 by simp
    next
      case (Suc m)
      have "bit a (Suc m) = bit (drop_bit 1 a) m" by (simp add: bit_drop_bit_eq)
      also have "\<dots> = bit (drop_bit 1 b) m" by (simp only: d)
      also have "\<dots> = bit b (Suc m)" by (simp add: bit_drop_bit_eq)
      finally show ?thesis using Suc by simp
    qed
  qed
qed

lemma crc_bit_pow_inj: "(crc_bit ^^ k) a = (crc_bit ^^ k) b \<Longrightarrow> a = b"
  by (induction k arbitrary: a b) (auto dest: crc_bit_inj)

lemma crc_byte_inj_state: "crc_byte a x = crc_byte b x \<Longrightarrow> a = b"
  by (auto simp: crc_byte_def dest!: crc_bit_pow_inj word_xor_cancel)

lemma ucast_byte_inj: "(ucast (x::byte) :: 32 word) = ucast y \<Longrightarrow> x = y"
proof -
  assume h: "(ucast x :: 32 word) = ucast y"
  show "x = y"
  proof (rule bit_word_eqI)
    fix n assume n: "n < LENGTH(8)"
    have "bit x n = bit (ucast x :: 32 word) n" using n by (simp add: bit_ucast_iff)
    also have "\<dots> = bit (ucast y :: 32 word) n" by (simp only: h)
    also have "\<dots> = bit y n" using n by (simp add: bit_ucast_iff)
    finally show "bit x n = bit y n" .
  qed
qed

lemma crc_byte_inj_byte: "crc_byte c x = crc_byte c y \<Longrightarrow> x = y"
  by (auto simp: crc_byte_def dest!: crc_bit_pow_inj word_xor_cancel_left ucast_byte_inj)

lemma foldl_crc_inj: "foldl crc_byte a bs = foldl crc_byte b bs \<Longrightarrow> a = b"
  by (induction bs arbitrary: a b) (auto dest: crc_byte_inj_state)

lemma crc32_single_byte:
  assumes "i < length bs" and "x \<noteq> bs ! i"
  shows "crc32 (bs[i := x]) \<noteq> crc32 bs"
proof -
  have bs: "bs = take i bs @ (bs ! i) # drop (Suc i) bs"
    using assms(1) by (simp add: id_take_nth_drop)
  have upd: "bs[i := x] = take i bs @ x # drop (Suc i) bs"
    using assms(1) by (simp add: upd_conv_take_nth_drop)
  let ?s = "foldl crc_byte 0xFFFFFFFF (take i bs)"
  have "foldl crc_byte 0xFFFFFFFF (bs[i := x]) \<noteq> foldl crc_byte 0xFFFFFFFF bs"
  proof
    assume "foldl crc_byte 0xFFFFFFFF (bs[i := x]) = foldl crc_byte 0xFFFFFFFF bs"
    then have "foldl crc_byte (crc_byte ?s x) (drop (Suc i) bs) =
               foldl crc_byte (crc_byte ?s (bs ! i)) (drop (Suc i) bs)"
      by (subst (asm) (2) bs, subst (asm) upd) simp
    then have "crc_byte ?s x = crc_byte ?s (bs ! i)" by (rule foldl_crc_inj)
    then show False using assms(2) by (auto dest: crc_byte_inj_byte)
  qed
  then show ?thesis
    by (auto simp add: crc32_def word_unat_eq_iff [symmetric] dest: word_xor_cancel)
qed

lemma crc32_Nil: "crc32 [] = 0"
  by (simp add: crc32_def)

subsection \<open>Key lookup\<close>

lemma find_key_from_None:
  "find_key e kd (j0 * KEY_ENTRY_SIZE) = None \<longleftrightarrow>
     (\<forall>j\<ge>j0. j * KEY_ENTRY_SIZE < length kd \<longrightarrow> e \<noteq> entry_wrapped_key kd j)"
proof (induction "length kd - j0 * KEY_ENTRY_SIZE" arbitrary: j0 rule: less_induct)
  case less
  show ?case
  proof (cases "length kd \<le> j0 * KEY_ENTRY_SIZE")
    case True
    have "\<And>j. j0 \<le> j \<Longrightarrow> \<not> j * KEY_ENTRY_SIZE < length kd"
    proof -
      fix j assume "j0 \<le> j"
      then have "j0 * KEY_ENTRY_SIZE \<le> j * KEY_ENTRY_SIZE" by simp
      with True show "\<not> j * KEY_ENTRY_SIZE < length kd" by linarith
    qed
    with True show ?thesis by (subst find_key.simps) simp
  next
    case False
    show ?thesis
    proof (cases "e = entry_wrapped_key kd j0")
      case True
      with False show ?thesis
        by (subst find_key.simps) (auto simp: entry_wrapped_key_def)
    next
      case ne: False
      have step: "find_key e kd (j0 * KEY_ENTRY_SIZE) = find_key e kd (Suc j0 * KEY_ENTRY_SIZE)"
        using False ne by (subst find_key.simps) (simp add: entry_wrapped_key_def add.commute)
      have "length kd - Suc j0 * KEY_ENTRY_SIZE < length kd - j0 * KEY_ENTRY_SIZE"
        using False by (simp add: KEY_ENTRY_SIZE_def RSA_KEY_SIZE_def AES_KEY_SIZE_def)
      from less [OF this] have ih: "find_key e kd (Suc j0 * KEY_ENTRY_SIZE) = None \<longleftrightarrow>
         (\<forall>j\<ge>Suc j0. j * KEY_ENTRY_SIZE < length kd \<longrightarrow> e \<noteq> entry_wrapped_key kd j)" .
      have "(\<forall>j\<ge>j0. j * KEY_ENTRY_SIZE < length kd \<longrightarrow> e \<noteq> entry_wrapped_key kd j) \<longleftrightarrow>
            (\<forall>j\<ge>Suc j0. j * KEY_ENTRY_SIZE < length kd \<longrightarrow> e \<noteq> entry_wrapped_key kd j)"
        using ne by (metis Suc_leD Suc_leI le_neq_implies_less)
      with step ih show ?thesis by simp
    qed
  qed
qed

lemma find_key_from_first:
  assumes "j0 \<le> j" and "j * KEY_ENTRY_SIZE < length kd" and "e = entry_wrapped_key kd j"
    and "\<forall>j'. j0 \<le> j' \<and> j' < j \<longrightarrow> e \<noteq> entry_wrapped_key kd j'"
  shows "find_key e kd (j0 * KEY_ENTRY_SIZE) = Some (entry_symmetric_key kd j)"
  using assms
proof (induction "j - j0" arbitrary: j0)
  case 0
  then have "j0 = j" by simp
  with 0 show ?case
    by (subst find_key.simps) (simp add: entry_wrapped_key_def entry_symmetric_key_def)
next
  case (Suc d)
  then have lt: "j0 < j" by simp
  then have "j0 * KEY_ENTRY_SIZE \<le> j * KEY_ENTRY_SIZE" by simp
  with Suc.prems have inb: "\<not> length kd \<le> j0 * KEY_ENTRY_SIZE" by linarith
  have ne: "e \<noteq> entry_wrapped_key kd j0" using Suc.prems lt by blast
  have step: "find_key e kd (j0 * KEY_ENTRY_SIZE) = find_key e kd (Suc j0 * KEY_ENTRY_SIZE)"
    using inb ne by (subst find_key.simps) (simp add: entry_wrapped_key_def add.commute)
  have "find_key e kd (Suc j0 * KEY_ENTRY_SIZE) = Some (entry_symmetric_key kd j)"
  proof (rule Suc.hyps(1))
    show "d = j - Suc j0" using Suc.hyps(2) by simp
    show "Suc j0 \<le> j" using lt by simp
    show "j * KEY_ENTRY_SIZE < length kd" by (rule Suc.prems(2))
    show "e = entry_wrapped_key kd j" by (rule Suc.prems(3))
    show "\<forall>j'. Suc j0 \<le> j' \<and> j' < j \<longrightarrow> e \<noteq> entry_wrapped_key kd j'"
      using Suc.prems(4) by auto
  qed
  with step show ?case by simp
qed

lemma entry_symmetric_key_length:
  "Suc j * KEY_ENTRY_SIZE \<le> length kd \<Longrightarrow> length (entry_symmetric_key kd j) = AES_KEY_SIZE"
  by (simp add: entry_symmetric_key_def slice_def KEY_ENTRY_SIZE_def)

lemma decrypt_file2_no_key:
  "find_key (container_wrapped_key file) key_data 0 = None \<Longrightarrow>
   decrypt_file2 D FS file key_data = (Return False, None)"
  by (simp add: decrypt_file2_def read_footer_def container_wrapped_key_def Let_def)

text \<open>
  C7. The key lookup of \<open>decrypt_file2\<close> scans the keystore at stride 160 and returns the
  symmetric-key field of the first entry whose wrapped-key field equals the container's
  wrapped key, whatever later entries hold; it fails (and \<open>decrypt_file2\<close> returns
  \<open>False\<close> without creating a file) when no entry matches. The key has 32 bytes when the
  entry is complete; a last entry cut short by the end of the keystore yields the bytes
  that are there.
\<close>

theorem find_key_first_match:
  "(find_key enc key_data 0 = None \<longleftrightarrow>
      (\<forall>j. j * KEY_ENTRY_SIZE < length key_data \<longrightarrow> enc \<noteq> entry_wrapped_key key_data j)) \<and>
   (\<forall>j. j * KEY_ENTRY_SIZE < length key_data \<and> enc = entry_wrapped_key key_data j \<and>
        (\<forall>j'<j. enc \<noteq> entry_wrapped_key key_data j') \<longrightarrow>
        find_key enc key_data 0 = Some (entry_symmetric_key key_data j)) \<and>
   (\<forall>j. Suc j * KEY_ENTRY_SIZE \<le> length key_data \<longrightarrow>
        length (entry_symmetric_key key_data j) = 32) \<and>
   (find_key (container_wrapped_key file) key_data 0 = None \<longrightarrow>
      decrypt_file2 D FS file key_data = (Return False, None))"
proof (intro conjI allI impI)
  show "find_key enc key_data 0 = None \<longleftrightarrow>
      (\<forall>j. j * KEY_ENTRY_SIZE < length key_data \<longrightarrow> enc \<noteq> entry_wrapped_key key_data j)"
    using find_key_from_None [of enc key_data 0] by simp
next
  fix j
  assume "j * KEY_ENTRY_SIZE < length key_data \<and> enc = entry_wrapped_key key_data j \<and>
        (\<forall>j'<j. enc \<noteq> entry_wrapped_key key_data j')"
  then have "find_key enc key_data (0 * KEY_ENTRY_SIZE) = Some (entry_symmetric_key key_data j)"
    by (intro find_key_from_first) auto
  then show "find_key enc key_data 0 = Some (entry_symmetric_key key_data j)" by simp
next
  fix j
  assume "Suc j * KEY_ENTRY_SIZE \<le> length key_data"
  then show "length (entry_symmetric_key key_data j) = 32"
    by (simp add: entry_symmetric_key_length AES_KEY_SIZE_def)
next
  assume "find_key (container_wrapped_key file) key_data 0 = None"
  then show "decrypt_file2 D FS file key_data = (Return False, None)"
    by (rule decrypt_file2_no_key)
qed

text \<open>
  Two entries with the same wrapped key and different symmetric keys: the first one's key
  is returned, and it has 32 bytes. An empty keystore matches nothing.
\<close>

theorem find_key_first_match_witness:
  "find_key (replicate 128 1)
     (replicate 128 1 @ replicate 32 2 @ replicate 128 1 @ replicate 32 3) 0
     = Some (replicate 32 2) \<and>
   length (entry_symmetric_key
     (replicate 128 1 @ replicate 32 2 @ replicate 128 1 @ replicate 32 3) 0) = 32 \<and>
   find_key (replicate 128 1) [] 0 = None \<and>
   decrypt_file2 (\<lambda>k b. b) plain_fs (replicate 178 0) [] = (Return False, None)"
proof -
  let ?kd = "replicate 128 1 @ replicate 32 2 @ replicate 128 1 @ replicate 32 (3::byte)"
  note T = find_key_first_match [where enc = "replicate 128 1" and key_data = ?kd
             and D = "\<lambda>k b. b" and FS = plain_fs, of "replicate 178 0"]
  note E = find_key_first_match [where enc = "container_wrapped_key (replicate 178 0)"
             and key_data = "[]" and D = "\<lambda>k b. b" and FS = plain_fs, of "replicate 178 0"]
  have w: "entry_wrapped_key ?kd 0 = replicate 128 1"
    by (simp add: entry_wrapped_key_def slice_def RSA_KEY_SIZE_def)
  have k: "entry_symmetric_key ?kd 0 = replicate 32 2"
    by (simp add: entry_symmetric_key_def slice_def RSA_KEY_SIZE_def AES_KEY_SIZE_def)
  have 1: "find_key (replicate 128 1) ?kd 0 = Some (entry_symmetric_key ?kd 0)"
    by (rule T [THEN conjunct2, THEN conjunct1, rule_format, of 0]) (simp add: w)
  have 2: "length (entry_symmetric_key ?kd 0) = 32"
    by (rule T [THEN conjunct2, THEN conjunct2, THEN conjunct1, rule_format, of 0])
       (simp add: KEY_ENTRY_SIZE_def RSA_KEY_SIZE_def AES_KEY_SIZE_def)
  have 3: "find_key (replicate 128 1) [] 0 = None"
    using find_key_first_match [where enc = "replicate 128 1" and key_data = "[]"
            and D = "\<lambda>k b. b" and FS = plain_fs, of "[]"] by simp
  have n: "find_key (container_wrapped_key (replicate 178 0)) [] 0 = None"
    using E by simp
  have 4: "decrypt_file2 (\<lambda>k b. b) plain_fs (replicate 178 0) [] = (Return False, None)"
    by (rule E [THEN conjunct2, THEN conjunct2, THEN conjunct2, rule_format]) (rule n)
  show ?thesis using 1 2 3 4 k by simp
qed

text \<open>
  A keystore that ends 3 bytes into the symmetric-key field of its only entry: the
  wrapped key matches and the key returned has 3 bytes, not 32.
\<close>

theorem find_key_short_key_counterexample:
  "find_key (replicate 128 7) (replicate 128 7 @ [1, 2, 3]) 0 = Some [1, 2, 3] \<and>
   length [1, 2, 3 :: byte] \<noteq> 32"
  by (simp add: find_key.simps slice_def RSA_KEY_SIZE_def AES_KEY_SIZE_def)

subsection \<open>The keystore loader\<close>

lemma load_keys_short: "length keys < 8 \<Longrightarrow> load_keys keys = Inl (Traceback StructError)"
  by (simp add: load_keys_def unpack_2L_def)

lemma load_keys_long:
  "8 \<le> length keys \<Longrightarrow>
   load_keys keys = (if keys_crc keys \<noteq> crc32 (keys_payload keys) then Inl (Exit 1)
                     else Inr (keys_payload keys))"
  by (simp add: load_keys_def unpack_2L_def keys_crc_def keys_payload_def keys_count_def Let_def)

lemma load_keys_Inr_iff:
  "load_keys keys = Inr key_data \<longleftrightarrow>
     8 \<le> length keys \<and> keys_crc keys = crc32 (keys_payload keys) \<and> key_data = keys_payload keys"
proof (cases "8 \<le> length keys")
  case True
  then show ?thesis by (auto simp: load_keys_long)
next
  case False
  then show ?thesis by (simp add: load_keys_short)
qed

lemma main_rejects:
  "load_keys keys = Inl p \<Longrightarrow> main D FS keys file = (p, None)"
  by (simp add: main_def)

lemma keys_header_update:
  assumes "8 \<le> i"
  shows "keys_count (keys[i := x]) = keys_count keys" and "keys_crc (keys[i := x]) = keys_crc keys"
  using assms by (simp_all add: keys_count_def keys_crc_def slice_def drop_update_swap)

lemma keys_payload_update:
  assumes "8 \<le> i"
  shows "keys_payload (keys[i := x]) = (keys_payload keys)[i - 8 := x]"
  using assms
  by (simp add: keys_payload_def keys_header_update slice_def drop_update_swap take_update_swap)

lemma keys_payload_nth:
  assumes "8 \<le> i" and "i < 8 + length (keys_payload keys)"
  shows "keys_payload keys ! (i - 8) = keys ! i"
proof -
  have "i - 8 < length (keys_payload keys)" using assms by simp
  then have lt: "i - 8 < length keys - 8" and lt2: "i - 8 < keys_count keys * KEY_ENTRY_SIZE"
    by (simp_all add: keys_payload_def slice_def)
  have "drop 8 keys ! (i - 8) = keys ! (8 + (i - 8))"
    using lt by (intro nth_drop) simp
  then have "drop 8 keys ! (i - 8) = keys ! i" using assms(1) by simp
  then show ?thesis using lt2 by (simp add: keys_payload_def slice_def)
qed

lemma load_keys_flip:
  assumes "load_keys keys = Inr key_data" and "8 \<le> i" and "i < 8 + length key_data"
    and "x \<noteq> keys ! i"
  shows "load_keys (keys[i := x]) = Inl (Exit 1)"
proof -
  from assms(1) have len: "8 \<le> length keys" and crc: "keys_crc keys = crc32 (keys_payload keys)"
    and kd: "key_data = keys_payload keys"
    by (simp_all add: load_keys_Inr_iff)
  have i: "i - 8 < length (keys_payload keys)" using assms(2,3) kd by simp
  have "x \<noteq> keys_payload keys ! (i - 8)"
    using assms(2,3,4) kd by (simp add: keys_payload_nth)
  with i have "crc32 ((keys_payload keys)[i - 8 := x]) \<noteq> crc32 (keys_payload keys)"
    by (rule crc32_single_byte)
  then have "keys_crc (keys[i := x]) \<noteq> crc32 (keys_payload (keys[i := x]))"
    using assms(2) crc by (simp add: keys_header_update keys_payload_update)
  moreover have "8 \<le> length (keys[i := x])" using len by simp
  ultimately show ?thesis by (simp add: load_keys_long)
qed

lemma keys_payload_length:
  "8 + keys_count keys * KEY_ENTRY_SIZE \<le> length keys \<Longrightarrow>
   length (keys_payload keys) = keys_count keys * KEY_ENTRY_SIZE"
  by (simp add: keys_payload_def slice_def)

lemma keys_payload_length_min:
  "length (keys_payload keys) = min (keys_count keys * 160) (length keys - 8)"
  by (simp add: keys_payload_def slice_def KEY_ENTRY_SIZE_def RSA_KEY_SIZE_def AES_KEY_SIZE_def)

lemma main_accepts:
  "load_keys keys = Inr key_data \<Longrightarrow>
   main D FS keys file =
     (case decrypt_file2 D FS file key_data of
        (Return True, out) \<Rightarrow> (Exit 0, out)
      | (Return False, out) \<Rightarrow> (Exit 1, out)
      | (Raise e, out) \<Rightarrow> (Traceback e, out))"
  by (simp add: main_def)

text \<open>
  C8. The loader xor-decodes the little-endian pair (count, crc) of the header with
  \<open>KEY_DATA_XOR\<close> and goes on to the decryption exactly when the decoded crc is the CRC-32
  of the payload, the bytes that follow the 8-byte header up to \<open>count \<times> 160\<close> of them:
  exactly that many when the file holds them, and those that are there when it ends
  earlier. The decryption then runs with this payload as its key data. In every other case
  the process ends with status 1 and no file is written; a header shorter than 8 bytes
  ends it through the uncaught \<open>struct.error\<close>. Changing any one payload byte of an
  accepted keystore makes the loader reject it with status 1.
\<close>

theorem load_keys_crc_check:
  "(load_keys keys = Inr key_data \<longleftrightarrow>
      8 \<le> length keys \<and> keys_crc keys = crc32 (keys_payload keys) \<and>
      key_data = keys_payload keys) \<and>
   (8 + keys_count keys * KEY_ENTRY_SIZE \<le> length keys \<longrightarrow>
      length (keys_payload keys) = keys_count keys * 160) \<and>
   (load_keys keys \<noteq> Inr (keys_payload keys) \<longrightarrow>
      exit_status (fst (main D FS keys file)) = 1 \<and> snd (main D FS keys file) = None) \<and>
   (8 \<le> length keys \<and> keys_crc keys \<noteq> crc32 (keys_payload keys) \<longrightarrow>
      main D FS keys file = (Exit 1, None)) \<and>
   (load_keys keys = Inr key_data \<and> 8 \<le> i \<and> i < 8 + length key_data \<and> x \<noteq> keys ! i \<longrightarrow>
      main D FS (keys[i := x]) file = (Exit 1, None)) \<and>
   length (keys_payload keys) = min (keys_count keys * 160) (length keys - 8) \<and>
   (8 \<le> length keys \<and> keys_crc keys = crc32 (keys_payload keys) \<longrightarrow>
      main D FS keys file =
        (case decrypt_file2 D FS file (keys_payload keys) of
           (Return True, out) \<Rightarrow> (Exit 0, out)
         | (Return False, out) \<Rightarrow> (Exit 1, out)
         | (Raise e, out) \<Rightarrow> (Traceback e, out)))"
proof -
  have c1: "load_keys keys = Inr key_data \<longleftrightarrow>
      8 \<le> length keys \<and> keys_crc keys = crc32 (keys_payload keys) \<and>
      key_data = keys_payload keys"
    by (rule load_keys_Inr_iff)
  have c2: "8 + keys_count keys * KEY_ENTRY_SIZE \<le> length keys \<longrightarrow>
      length (keys_payload keys) = keys_count keys * 160"
    by (simp add: keys_payload_length) (simp add: KEY_ENTRY_SIZE_def RSA_KEY_SIZE_def AES_KEY_SIZE_def)
  have c3: "load_keys keys \<noteq> Inr (keys_payload keys) \<longrightarrow>
      exit_status (fst (main D FS keys file)) = 1 \<and> snd (main D FS keys file) = None"
  proof
    assume a: "load_keys keys \<noteq> Inr (keys_payload keys)"
    show "exit_status (fst (main D FS keys file)) = 1 \<and> snd (main D FS keys file) = None"
    proof (cases "8 \<le> length keys")
      case True
      with a have "load_keys keys = Inl (Exit 1)" by (simp add: load_keys_long split: if_splits)
      then show ?thesis by (simp add: main_rejects exit_status_def)
    next
      case False
      then have "load_keys keys = Inl (Traceback StructError)" by (simp add: load_keys_short)
      then show ?thesis by (simp add: main_rejects exit_status_def)
    qed
  qed
  have c4: "8 \<le> length keys \<and> keys_crc keys \<noteq> crc32 (keys_payload keys) \<longrightarrow>
      main D FS keys file = (Exit 1, None)"
  proof
    assume "8 \<le> length keys \<and> keys_crc keys \<noteq> crc32 (keys_payload keys)"
    then have "load_keys keys = Inl (Exit 1)" by (simp add: load_keys_long)
    then show "main D FS keys file = (Exit 1, None)" by (rule main_rejects)
  qed
  have c5: "load_keys keys = Inr key_data \<and> 8 \<le> i \<and> i < 8 + length key_data \<and> x \<noteq> keys ! i \<longrightarrow>
      main D FS (keys[i := x]) file = (Exit 1, None)"
  proof
    assume "load_keys keys = Inr key_data \<and> 8 \<le> i \<and> i < 8 + length key_data \<and> x \<noteq> keys ! i"
    then have "load_keys (keys[i := x]) = Inl (Exit 1)" by (intro load_keys_flip) auto
    then show "main D FS (keys[i := x]) file = (Exit 1, None)" by (rule main_rejects)
  qed
  have c6: "length (keys_payload keys) = min (keys_count keys * 160) (length keys - 8)"
    by (rule keys_payload_length_min)
  have c7: "8 \<le> length keys \<and> keys_crc keys = crc32 (keys_payload keys) \<longrightarrow>
      main D FS keys file =
        (case decrypt_file2 D FS file (keys_payload keys) of
           (Return True, out) \<Rightarrow> (Exit 0, out)
         | (Return False, out) \<Rightarrow> (Exit 1, out)
         | (Raise e, out) \<Rightarrow> (Traceback e, out))"
  proof
    assume "8 \<le> length keys \<and> keys_crc keys = crc32 (keys_payload keys)"
    then have "load_keys keys = Inr (keys_payload keys)" by (simp add: load_keys_Inr_iff)
    then show "main D FS keys file =
        (case decrypt_file2 D FS file (keys_payload keys) of
           (Return True, out) \<Rightarrow> (Exit 0, out)
         | (Return False, out) \<Rightarrow> (Exit 1, out)
         | (Raise e, out) \<Rightarrow> (Traceback e, out))"
      by (rule main_accepts)
  qed
  from c1 c2 c3 c4 c5 c6 c7 show ?thesis by (intro conjI)
qed

lemma crc_byte_unfold:
  "crc_byte c b =
     crc_bit (crc_bit (crc_bit (crc_bit (crc_bit (crc_bit (crc_bit (crc_bit (c XOR ucast b))))))))"
  by (simp add: crc_byte_def eval_nat_numeral)

lemma replicate_160: "replicate 160 x = replicate 16 x @ replicate 16 x @ replicate 16 x @
    replicate 16 x @ replicate 16 x @ replicate 16 x @ replicate 16 x @ replicate 16 x @
    replicate 16 x @ replicate 16 x"
  by (simp add: replicate_add [symmetric])

lemma replicate_16: "replicate 16 x = [x, x, x, x, x, x, x, x, x, x, x, x, x, x, x, x]"
  by (simp add: eval_nat_numeral)

lemma crc32_zeros_160: "crc32 (replicate 160 0) = 2852606819"
proof -
  have "foldl crc_byte 0xFFFFFFFF (replicate 160 0) = 1442360476"
    by (simp add: replicate_160 replicate_16 crc_byte_unfold crc_bit_def)
  then show ?thesis by (simp add: crc32_def)
qed

text \<open>
  The keystore of one zero entry is accepted and \<open>main\<close> goes on to \<open>decrypt_file2\<close>,
  which finds the empty input too short; with its first payload byte changed, with an empty
  file and with a zero header it is rejected.
\<close>

theorem load_keys_crc_check_witness:
  "load_keys keystore_one_entry = Inr (replicate 160 0) \<and>
   length (keys_payload keystore_one_entry) = 160 \<and>
   main (\<lambda>k b. b) plain_fs (keystore_one_entry[8 := 1]) [] = (Exit 1, None) \<and>
   exit_status (fst (main (\<lambda>k b. b) plain_fs [] [])) = 1 \<and>
   main (\<lambda>k b. b) plain_fs [0, 0, 0, 0, 0, 0, 0, 0] [] = (Exit 1, None) \<and>
   main (\<lambda>k b. b) plain_fs keystore_one_entry [] = (Exit 1, None)"
proof -
  let ?ks = keystore_one_entry
  note T = load_keys_crc_check [where keys = ?ks and key_data = "replicate 160 0"
             and D = "\<lambda>k b. b" and FS = plain_fs and i = 8 and x = 1, of "[]"]
  note N = load_keys_crc_check [where keys = "[]" and D = "\<lambda>k b. b" and FS = plain_fs
             and i = 0 and x = 0, of _ "[]"]
  have len: "length ?ks = 168" by (simp add: keystore_one_entry_def)
  have cnt: "keys_count ?ks = 1"
    by (simp add: keystore_one_entry_def keys_count_def slice_def KEY_DATA_XOR_def)
  have crc: "keys_crc ?ks = 2852606819"
    by (simp add: keystore_one_entry_def keys_crc_def slice_def KEY_DATA_XOR_def)
  have pl: "keys_payload ?ks = replicate 160 0"
    by (simp add: keys_payload_def cnt slice_def KEY_ENTRY_SIZE_def RSA_KEY_SIZE_def AES_KEY_SIZE_def)
       (simp add: keystore_one_entry_def)
  have 1: "load_keys ?ks = Inr (replicate 160 0)"
    using T [THEN conjunct1] by (simp add: len crc pl crc32_zeros_160)
  have 2: "length (keys_payload ?ks) = 160"
    using T [THEN conjunct2, THEN conjunct1]
    by (simp add: len cnt KEY_ENTRY_SIZE_def RSA_KEY_SIZE_def AES_KEY_SIZE_def)
  have 3: "main (\<lambda>k b. b) plain_fs (?ks[8 := 1]) [] = (Exit 1, None)"
    by (rule T [THEN conjunct2, THEN conjunct2, THEN conjunct2, THEN conjunct2, THEN conjunct1,
          rule_format])
       (simp add: 1, simp add: keystore_one_entry_def)
  have 4: "exit_status (fst (main (\<lambda>k b. b) plain_fs [] [])) = 1"
    using N [where key_data = "[]", THEN conjunct2, THEN conjunct2, THEN conjunct1]
      N [where key_data = "keys_payload []", THEN conjunct1]
    by simp
  have 5: "main (\<lambda>k b. b) plain_fs [0, 0, 0, 0, 0, 0, 0, 0] [] = (Exit 1, None)"
    by (rule load_keys_crc_check [THEN conjunct2, THEN conjunct2, THEN conjunct2, THEN conjunct1, rule_format])
       (simp add: keys_crc_def keys_payload_def slice_def crc32_Nil KEY_DATA_XOR_def)
  have d: "decrypt_file2 (\<lambda>k b. b) plain_fs [] (replicate 160 0) = (Return False, None)"
    by (simp add: decrypt_file2_def read_footer_def METADATA_SIZE_def)
  have 6: "main (\<lambda>k b. b) plain_fs ?ks [] = (Exit 1, None)"
    using T [THEN conjunct2, THEN conjunct2, THEN conjunct2, THEN conjunct2, THEN conjunct2,
             THEN conjunct2]
    by (simp add: len crc pl crc32_zeros_160 d)
  show ?thesis using 1 2 3 4 5 6 by simp
qed

text \<open>
  A keystore whose header announces two entries and whose file holds one: the stored crc
  is that of the 160 bytes present, and the loader accepts them, where the payload of two
  entries has 320 bytes.
\<close>

theorem load_keys_truncated_counterexample:
  "load_keys truncated_keystore = Inr (replicate 160 0) \<and>
   keys_count truncated_keystore = 2 \<and>
   length truncated_keystore = 8 + 160"
proof -
  let ?ks = truncated_keystore
  have len: "length ?ks = 168" by (simp add: truncated_keystore_def)
  have cnt: "keys_count ?ks = 2"
    by (simp add: truncated_keystore_def keys_count_def slice_def KEY_DATA_XOR_def)
  have crc: "keys_crc ?ks = 2852606819"
    by (simp add: truncated_keystore_def keys_crc_def slice_def KEY_DATA_XOR_def)
  have pl: "keys_payload ?ks = replicate 160 0"
    by (simp add: keys_payload_def cnt slice_def KEY_ENTRY_SIZE_def RSA_KEY_SIZE_def AES_KEY_SIZE_def)
       (simp add: truncated_keystore_def)
  have "load_keys ?ks = Inr (replicate 160 0)"
    by (simp add: load_keys_Inr_iff len crc pl crc32_zeros_160)
  then show ?thesis using cnt len by simp
qed

subsection \<open>Scattered chunks: placement\<close>

lemma slice_write_at_same: "slice (write_at f p d) p (p + length d) = d"
proof (cases "d = []")
  case True
  then show ?thesis by (simp add: slice_def write_at_def)
next
  case False
  have "length (take p f @ replicate (p - length f) 0) = p" by simp
  then have "drop p ((take p f @ replicate (p - length f) 0) @ d @ drop (p + length d) f)
             = d @ drop (p + length d) f"
    by (metis append_eq_conv_conj)
  then show ?thesis using False by (simp add: slice_def write_at_def)
qed

lemma slice_write_at_other:
  assumes "slice f a (a + length c) = c" and "disjoint_ranges a (length c) p (length d)"
  shows "slice (write_at f p d) a (a + length c) = c"
proof (cases "c = [] \<or> d = []")
  case True
  then show ?thesis using assms(1) by (auto simp: slice_def write_at_def)
next
  case False
  then have c: "c \<noteq> []" and d: "d \<noteq> []" by simp_all
  have "length (take (length c) (drop a f)) = length c"
    using assms(1) by (simp add: slice_def)
  then have "min (length c) (length f - a) = length c" by simp
  moreover have "0 < length c" using c by simp
  ultimately have inside: "a + length c \<le> length f" by arith
  from assms(2) consider "a + length c \<le> p" | "p + length d \<le> a"
    by (auto simp: disjoint_ranges_def)
  then show ?thesis
  proof cases
    case 1
    have "take (length c) (drop a (take p f @ replicate (p - length f) 0 @ d @ drop (p + length d) f))
          = take (length c) (drop a f)"
      using 1 inside by (simp add: min_def drop_take)
    then show ?thesis using d assms(1) by (simp add: slice_def write_at_def)
  next
    case 2
    have p: "p \<le> length f" using 2 inside c by (cases c) auto
    have "drop a (take p f @ d @ drop (p + length d) f) = drop a f"
      using 2 p by (simp add: min_def)
    then show ?thesis using d assms(1) p by (simp add: slice_def write_at_def)
  qed
qed

lemma unpack_Q_chunk_pos:
  "unpack_Q eb (0x20 + i * 8) = Inr p \<Longrightarrow> p = chunk_pos eb i"
  by (auto simp: unpack_Q_def chunk_pos_def split: if_splits)

lemma write_chunks_Cons_None:
  assumes "write_chunks mx eb cd cs (i # is) f = (None, f')"
  shows "write_chunks mx eb cd cs is (write_at f (chunk_pos eb i) (chunk_slice cd cs i)) = (None, f')"
proof (cases "unpack_Q eb (0x20 + i * 8)")
  case (Inl e)
  with assms show ?thesis by simp
next
  case (Inr p)
  then have "p = chunk_pos eb i" by (rule unpack_Q_chunk_pos)
  with assms Inr show ?thesis by (simp add: chunk_slice_def Let_def split: if_splits)
qed

lemma write_chunks_preserves:
  assumes "write_chunks mx eb cd cs is f = (None, f')"
    and "slice f a (a + length c) = c"
    and "\<forall>j\<in>set is. disjoint_ranges a (length c) (chunk_pos eb j) (length (chunk_slice cd cs j))"
  shows "slice f' a (a + length c) = c"
  using assms
proof (induction "is" arbitrary: f)
  case Nil
  then show ?case by simp
next
  case (Cons i "is")
  let ?f1 = "write_at f (chunk_pos eb i) (chunk_slice cd cs i)"
  have run: "write_chunks mx eb cd cs is ?f1 = (None, f')"
    using Cons.prems(1) by (rule write_chunks_Cons_None)
  have "slice ?f1 a (a + length c) = c"
    using Cons.prems(2,3) by (intro slice_write_at_other) auto
  with run show ?case using Cons.prems(3) by (intro Cons.IH [of ?f1]) auto
qed

lemma write_chunks_places:
  assumes "write_chunks mx eb cd cs is f = (None, f')" and "distinct is"
    and "\<forall>i\<in>set is. \<forall>j\<in>set is. i \<noteq> j \<longrightarrow>
           disjoint_ranges (chunk_pos eb i) (length (chunk_slice cd cs i))
             (chunk_pos eb j) (length (chunk_slice cd cs j))"
  shows "\<forall>i\<in>set is. slice f' (chunk_pos eb i) (chunk_pos eb i + length (chunk_slice cd cs i))
           = chunk_slice cd cs i"
  using assms
proof (induction "is" arbitrary: f)
  case Nil
  then show ?case by simp
next
  case (Cons i "is")
  let ?f1 = "write_at f (chunk_pos eb i) (chunk_slice cd cs i)"
  have run: "write_chunks mx eb cd cs is ?f1 = (None, f')"
    using Cons.prems(1) by (rule write_chunks_Cons_None)
  have here: "slice ?f1 (chunk_pos eb i) (chunk_pos eb i + length (chunk_slice cd cs i))
        = chunk_slice cd cs i"
    by (rule slice_write_at_same)
  have first: "slice f' (chunk_pos eb i) (chunk_pos eb i + length (chunk_slice cd cs i))
        = chunk_slice cd cs i"
    using run here
  proof (rule write_chunks_preserves)
    show "\<forall>j\<in>set is. disjoint_ranges (chunk_pos eb i) (length (chunk_slice cd cs i))
            (chunk_pos eb j) (length (chunk_slice cd cs j))"
      using Cons.prems(2,3) by auto
  qed
  have rest: "\<forall>j\<in>set is. slice f' (chunk_pos eb j) (chunk_pos eb j + length (chunk_slice cd cs j))
        = chunk_slice cd cs j"
    using run Cons.prems(2,3) by (intro Cons.IH [of ?f1]) auto
  from first rest show ?case by simp
qed

lemma chunk_slice_length:
  assumes "i < n" and "n * cs \<le> length cd"
  shows "length (chunk_slice cd cs i) = cs"
proof -
  have "Suc i * cs \<le> n * cs" using assms(1) by (intro mult_le_mono1) simp
  then have "i * cs + cs \<le> length cd" using assms(2) by simp
  then show ?thesis by (simp add: chunk_slice_def slice_def)
qed

lemma write_chunks_runs:
  assumes "\<forall>i\<in>set is. 0x20 + i * 8 + 8 \<le> length eb \<and> chunk_pos eb i < 2 ^ 63 \<and>
             chunk_pos eb i + length (chunk_slice cd cs i) \<le> mx"
  shows "fst (write_chunks mx eb cd cs is f) = None"
  using assms
proof (induction "is" arbitrary: f)
  case Nil
  show ?case by simp
next
  case (Cons i "is")
  then have len: "0x20 + i * 8 + 8 \<le> length eb" and lt: "chunk_pos eb i < 2 ^ 63"
    and fit: "chunk_pos eb i + length (chunk_slice cd cs i) \<le> mx"
    by simp_all
  have u: "unpack_Q eb (0x20 + i * 8) = Inr (chunk_pos eb i)"
    using len by (simp add: unpack_Q_def chunk_pos_def)
  have seek: "\<not> mx < chunk_pos eb i" using fit by simp
  have "fst (write_chunks mx eb cd cs is
               (write_at f (chunk_pos eb i) (chunk_slice cd cs i))) = None"
    using Cons.prems by (intro Cons.IH) simp
  then have rest: "fst (write_chunks mx eb cd cs is
               (write_at f (chunk_pos eb i) (slice cd (i * cs) ((i + 1) * cs)))) = None"
    by (simp add: chunk_slice_def)
  have fit': "\<not> mx < chunk_pos eb i + length (slice cd (i * cs) ((i + 1) * cs))"
    using fit by (simp add: chunk_slice_def)
  have step: "write_chunks mx eb cd cs (i # is) f =
      write_chunks mx eb cd cs is (write_at f (chunk_pos eb i) (slice cd (i * cs) ((i + 1) * cs)))"
    using lt seek fit' by (simp add: u Let_def)
  show ?case by (simp only: step rest)
qed

lemma decrypt_file2_chunks:
  assumes "read_footer file key_data = Inr ft" and "read_header D ft = Inr h"
    and "hd_enc_mode h = 1"
  shows "decrypt_file2 D FS file key_data = decrypt_chunks FS file ft h"
  using assms by (simp add: decrypt_file2_def)

lemma decrypt_chunks_True:
  assumes "decrypt_chunks FS file ft h = (Return True, out)"
    and "unpack_3L (hd_endblock_data h) 0x0C = Inr (n, cs, crc)"
  shows "write_chunks (fs_max_size FS) (hd_endblock_data h)
           (chunk_payload (hd_endblock_data h) n cs) cs [0..<n] file
         = (None, after_write_loop FS (hd_endblock_data h) n cs file) \<and>
         out = Some (hd_orig_filename h,
                     take (length (after_write_loop FS (hd_endblock_data h) n cs file)
                             - ft_footer_size ft)
                       (after_write_loop FS (hd_endblock_data h) n cs file))"
  using assms
  by (auto simp: decrypt_chunks_def after_write_loop_def chunk_payload_def Let_def
        split: if_splits prod.splits option.splits)

lemma decrypt_chunks_runs:
  assumes "can_copy_to FS (hd_orig_filename h)"
    and "unpack_3L (hd_endblock_data h) 0x0C = Inr (n, cs, crc)"
    and "crc = crc32 (chunk_payload (hd_endblock_data h) n cs)"
    and "fst (write_chunks (fs_max_size FS) (hd_endblock_data h)
                (chunk_payload (hd_endblock_data h) n cs) cs [0..<n] file) = None"
  shows "decrypt_chunks FS file ft h =
           (Return True,
            Some (hd_orig_filename h,
                  take (length (after_write_loop FS (hd_endblock_data h) n cs file)
                          - ft_footer_size ft)
                    (after_write_loop FS (hd_endblock_data h) n cs file)))"
  using assms
  by (auto simp: decrypt_chunks_def after_write_loop_def chunk_payload_def Let_def
        split: prod.splits option.splits)

lemma slice_take_inside: "b \<le> m \<Longrightarrow> slice (take m xs) a b = slice xs a b"
  by (simp add: slice_def drop_take min_def)

text \<open>
  C4. When the write loop of the scattered-chunk mode has run over the indices
  \<open>0, \<dots>, num_chunks - 1\<close> and the destination ranges do not overlap, the output holds, for
  every \<open>i < num_chunks\<close>, the \<open>i\<close>-th slice of the decrypted payload at the offset the
  table gives for \<open>i\<close>, whatever the order of the offsets in the table. The slice has
  \<open>chunk_size\<close> bytes when the payload holds \<open>num_chunks \<times> chunk_size\<close> bytes.
  \<open>decrypt_file2\<close> runs this loop, in mode 1, on the copy of the input with the payload of
  the decrypted end block: when it returns \<open>True\<close>, the output is the file after the loop
  without its footer, the file after the loop holds every chunk at its offset, and so does
  the output for the chunks that lie before the footer. It returns \<open>True\<close> when the copy
  can be made, the stored checksum is that of the payload, the table lies inside the end
  block and no chunk passes the largest file offset.
\<close>

theorem write_chunks_placement:
  "(write_chunks max_size endblock_data chunk_data chunk_size [0..<num_chunks] f = (None, f') \<and>
    (\<forall>i<num_chunks. \<forall>j<num_chunks. i \<noteq> j \<longrightarrow>
        disjoint_ranges (chunk_pos endblock_data i) (length (chunk_slice chunk_data chunk_size i))
          (chunk_pos endblock_data j) (length (chunk_slice chunk_data chunk_size j))) \<longrightarrow>
    (\<forall>i<num_chunks.
        slice f' (chunk_pos endblock_data i)
          (chunk_pos endblock_data i + length (chunk_slice chunk_data chunk_size i))
        = chunk_slice chunk_data chunk_size i)) \<and>
   (num_chunks * chunk_size \<le> length chunk_data \<longrightarrow>
    (\<forall>i<num_chunks. length (chunk_slice chunk_data chunk_size i) = chunk_size)) \<and>
   (read_footer file key_data = Inr ft \<and> read_header D ft = Inr h \<and> hd_enc_mode h = 1 \<and>
    unpack_3L (hd_endblock_data h) 0x0C = Inr (n, cs, crc) \<and>
    decrypt_file2 D FS file key_data = (Return True, out) \<and>
    (\<forall>i<n. \<forall>j<n. i \<noteq> j \<longrightarrow>
        disjoint_ranges (chunk_pos (hd_endblock_data h) i)
          (length (chunk_slice (chunk_payload (hd_endblock_data h) n cs) cs i))
          (chunk_pos (hd_endblock_data h) j)
          (length (chunk_slice (chunk_payload (hd_endblock_data h) n cs) cs j))) \<longrightarrow>
    out = Some (hd_orig_filename h,
                take (length (after_write_loop FS (hd_endblock_data h) n cs file)
                        - ft_footer_size ft)
                  (after_write_loop FS (hd_endblock_data h) n cs file)) \<and>
    (\<forall>i<n.
        slice (after_write_loop FS (hd_endblock_data h) n cs file)
          (chunk_pos (hd_endblock_data h) i)
          (chunk_pos (hd_endblock_data h) i
             + length (chunk_slice (chunk_payload (hd_endblock_data h) n cs) cs i))
        = chunk_slice (chunk_payload (hd_endblock_data h) n cs) cs i) \<and>
    (\<forall>i<n.
        chunk_pos (hd_endblock_data h) i
          + length (chunk_slice (chunk_payload (hd_endblock_data h) n cs) cs i)
          \<le> length (after_write_loop FS (hd_endblock_data h) n cs file) - ft_footer_size ft \<longrightarrow>
        slice (take (length (after_write_loop FS (hd_endblock_data h) n cs file)
                       - ft_footer_size ft)
                 (after_write_loop FS (hd_endblock_data h) n cs file))
          (chunk_pos (hd_endblock_data h) i)
          (chunk_pos (hd_endblock_data h) i
             + length (chunk_slice (chunk_payload (hd_endblock_data h) n cs) cs i))
        = chunk_slice (chunk_payload (hd_endblock_data h) n cs) cs i)) \<and>
   (read_footer file key_data = Inr ft \<and> read_header D ft = Inr h \<and> hd_enc_mode h = 1 \<and>
    can_copy_to FS (hd_orig_filename h) \<and>
    unpack_3L (hd_endblock_data h) 0x0C = Inr (n, cs, crc) \<and>
    crc = crc32 (chunk_payload (hd_endblock_data h) n cs) \<and>
    (\<forall>i<n. 0x20 + i * 8 + 8 \<le> length (hd_endblock_data h) \<and>
            chunk_pos (hd_endblock_data h) i < 2 ^ 63 \<and>
            chunk_pos (hd_endblock_data h) i
              + length (chunk_slice (chunk_payload (hd_endblock_data h) n cs) cs i)
              \<le> fs_max_size FS) \<longrightarrow>
    decrypt_file2 D FS file key_data =
      (Return True,
       Some (hd_orig_filename h,
             take (length (after_write_loop FS (hd_endblock_data h) n cs file)
                     - ft_footer_size ft)
               (after_write_loop FS (hd_endblock_data h) n cs file))))"
proof -
  let ?eb = "hd_endblock_data h"
  let ?cd = "chunk_payload ?eb n cs"
  let ?F = "after_write_loop FS ?eb n cs file"
  have c1: "write_chunks max_size endblock_data chunk_data chunk_size [0..<num_chunks] f = (None, f') \<and>
    (\<forall>i<num_chunks. \<forall>j<num_chunks. i \<noteq> j \<longrightarrow>
        disjoint_ranges (chunk_pos endblock_data i) (length (chunk_slice chunk_data chunk_size i))
          (chunk_pos endblock_data j) (length (chunk_slice chunk_data chunk_size j))) \<longrightarrow>
    (\<forall>i<num_chunks.
        slice f' (chunk_pos endblock_data i)
          (chunk_pos endblock_data i + length (chunk_slice chunk_data chunk_size i))
        = chunk_slice chunk_data chunk_size i)"
  proof (intro impI allI)
    fix i
    assume a: "write_chunks max_size endblock_data chunk_data chunk_size [0..<num_chunks] f = (None, f') \<and>
      (\<forall>i<num_chunks. \<forall>j<num_chunks. i \<noteq> j \<longrightarrow>
        disjoint_ranges (chunk_pos endblock_data i) (length (chunk_slice chunk_data chunk_size i))
          (chunk_pos endblock_data j) (length (chunk_slice chunk_data chunk_size j)))"
      and i: "i < num_chunks"
    have "\<forall>i\<in>set [0..<num_chunks].
            slice f' (chunk_pos endblock_data i)
              (chunk_pos endblock_data i + length (chunk_slice chunk_data chunk_size i))
            = chunk_slice chunk_data chunk_size i"
      using a by (intro write_chunks_places [of max_size _ _ _ _ f]) auto
    with i show "slice f' (chunk_pos endblock_data i)
            (chunk_pos endblock_data i + length (chunk_slice chunk_data chunk_size i))
          = chunk_slice chunk_data chunk_size i" by simp
  qed
  have c2: "num_chunks * chunk_size \<le> length chunk_data \<longrightarrow>
    (\<forall>i<num_chunks. length (chunk_slice chunk_data chunk_size i) = chunk_size)"
    by (simp add: chunk_slice_length)
  have c3: "read_footer file key_data = Inr ft \<and> read_header D ft = Inr h \<and> hd_enc_mode h = 1 \<and>
    unpack_3L ?eb 0x0C = Inr (n, cs, crc) \<and>
    decrypt_file2 D FS file key_data = (Return True, out) \<and>
    (\<forall>i<n. \<forall>j<n. i \<noteq> j \<longrightarrow>
        disjoint_ranges (chunk_pos ?eb i) (length (chunk_slice ?cd cs i))
          (chunk_pos ?eb j) (length (chunk_slice ?cd cs j))) \<longrightarrow>
    out = Some (hd_orig_filename h, take (length ?F - ft_footer_size ft) ?F) \<and>
    (\<forall>i<n. slice ?F (chunk_pos ?eb i) (chunk_pos ?eb i + length (chunk_slice ?cd cs i))
        = chunk_slice ?cd cs i) \<and>
    (\<forall>i<n. chunk_pos ?eb i + length (chunk_slice ?cd cs i) \<le> length ?F - ft_footer_size ft \<longrightarrow>
        slice (take (length ?F - ft_footer_size ft) ?F)
          (chunk_pos ?eb i) (chunk_pos ?eb i + length (chunk_slice ?cd cs i))
        = chunk_slice ?cd cs i)"
  proof
    assume a: "read_footer file key_data = Inr ft \<and> read_header D ft = Inr h \<and> hd_enc_mode h = 1 \<and>
      unpack_3L ?eb 0x0C = Inr (n, cs, crc) \<and>
      decrypt_file2 D FS file key_data = (Return True, out) \<and>
      (\<forall>i<n. \<forall>j<n. i \<noteq> j \<longrightarrow>
        disjoint_ranges (chunk_pos ?eb i) (length (chunk_slice ?cd cs i))
          (chunk_pos ?eb j) (length (chunk_slice ?cd cs j)))"
    then have rf: "read_footer file key_data = Inr ft" and rh: "read_header D ft = Inr h"
      and m: "hd_enc_mode h = 1"
      and r: "decrypt_file2 D FS file key_data = (Return True, out)"
      by simp_all
    have dc: "decrypt_chunks FS file ft h = (Return True, out)"
      using r by (simp only: decrypt_file2_chunks [OF rf rh m])
    from a have u: "unpack_3L ?eb 0x0C = Inr (n, cs, crc)" by simp
    note R = decrypt_chunks_True [OF dc u]
    have run: "write_chunks (fs_max_size FS) ?eb ?cd cs [0..<n] file = (None, ?F)"
      using R by simp
    have out: "out = Some (hd_orig_filename h, take (length ?F - ft_footer_size ft) ?F)"
      using R by simp
    have "\<forall>i\<in>set [0..<n]. slice ?F (chunk_pos ?eb i)
            (chunk_pos ?eb i + length (chunk_slice ?cd cs i)) = chunk_slice ?cd cs i"
      using run a by (intro write_chunks_places [of "fs_max_size FS" _ _ _ _ "file"]) auto
    then have pl: "\<forall>i<n. slice ?F (chunk_pos ?eb i)
            (chunk_pos ?eb i + length (chunk_slice ?cd cs i)) = chunk_slice ?cd cs i"
      by simp
    have cut: "\<forall>i<n. chunk_pos ?eb i + length (chunk_slice ?cd cs i)
                  \<le> length ?F - ft_footer_size ft \<longrightarrow>
        slice (take (length ?F - ft_footer_size ft) ?F)
          (chunk_pos ?eb i) (chunk_pos ?eb i + length (chunk_slice ?cd cs i))
        = chunk_slice ?cd cs i"
      using pl by (simp add: slice_take_inside)
    from out pl cut
    show "out = Some (hd_orig_filename h, take (length ?F - ft_footer_size ft) ?F) \<and>
      (\<forall>i<n. slice ?F (chunk_pos ?eb i) (chunk_pos ?eb i + length (chunk_slice ?cd cs i))
          = chunk_slice ?cd cs i) \<and>
      (\<forall>i<n. chunk_pos ?eb i + length (chunk_slice ?cd cs i) \<le> length ?F - ft_footer_size ft \<longrightarrow>
          slice (take (length ?F - ft_footer_size ft) ?F)
            (chunk_pos ?eb i) (chunk_pos ?eb i + length (chunk_slice ?cd cs i))
          = chunk_slice ?cd cs i)"
      by (intro conjI)
  qed
  have c4: "read_footer file key_data = Inr ft \<and> read_header D ft = Inr h \<and> hd_enc_mode h = 1 \<and>
    can_copy_to FS (hd_orig_filename h) \<and>
    unpack_3L ?eb 0x0C = Inr (n, cs, crc) \<and> crc = crc32 ?cd \<and>
    (\<forall>i<n. 0x20 + i * 8 + 8 \<le> length ?eb \<and> chunk_pos ?eb i < 2 ^ 63 \<and>
            chunk_pos ?eb i + length (chunk_slice ?cd cs i) \<le> fs_max_size FS) \<longrightarrow>
    decrypt_file2 D FS file key_data =
      (Return True, Some (hd_orig_filename h, take (length ?F - ft_footer_size ft) ?F))"
  proof
    assume a: "read_footer file key_data = Inr ft \<and> read_header D ft = Inr h \<and> hd_enc_mode h = 1 \<and>
      can_copy_to FS (hd_orig_filename h) \<and>
      unpack_3L ?eb 0x0C = Inr (n, cs, crc) \<and> crc = crc32 ?cd \<and>
      (\<forall>i<n. 0x20 + i * 8 + 8 \<le> length ?eb \<and> chunk_pos ?eb i < 2 ^ 63 \<and>
              chunk_pos ?eb i + length (chunk_slice ?cd cs i) \<le> fs_max_size FS)"
    then have rf: "read_footer file key_data = Inr ft" and rh: "read_header D ft = Inr h"
      and m: "hd_enc_mode h = 1"
      by simp_all
    from a have "fst (write_chunks (fs_max_size FS) ?eb ?cd cs [0..<n] file) = None"
      by (intro write_chunks_runs) simp
    with a have "decrypt_chunks FS file ft h =
      (Return True, Some (hd_orig_filename h, take (length ?F - ft_footer_size ft) ?F))"
      by (intro decrypt_chunks_runs [where crc = crc]) simp_all
    then show "decrypt_file2 D FS file key_data =
      (Return True, Some (hd_orig_filename h, take (length ?F - ft_footer_size ft) ?F))"
      by (simp only: decrypt_file2_chunks [OF rf rh m])
  qed
  from c1 c2 c3 c4 show ?thesis by (intro conjI)
qed

lemma ex_pos0: "chunk_pos reversed_table_endblock 0 = 4"
  by (simp add: chunk_pos_def reversed_table_endblock_def slice_def)

lemma ex_pos1: "chunk_pos reversed_table_endblock (Suc 0) = 0"
  by (simp add: chunk_pos_def reversed_table_endblock_def slice_def)

lemma ex_chunk0: "chunk_slice [0xA, 0xB, 0xC, 0xD] 2 0 = [0xA, 0xB]"
  by (simp add: chunk_slice_def slice_def)

lemma ex_chunk1: "chunk_slice [0xA, 0xB, 0xC, 0xD] 2 (Suc 0) = [0xC, 0xD]"
  by (simp add: chunk_slice_def slice_def)

lemma ex_run:
  "write_chunks 9223372036854775807 reversed_table_endblock [0xA, 0xB, 0xC, 0xD] 2 [0..<2]
     [1, 2, 3, 4, 5, 6]
     = (None, [0xC, 0xD, 3, 4, 0xA, 0xB])"
  by (simp add: upt_rec unpack_Q_def reversed_table_endblock_def slice_def write_at_def Let_def)

lemma le_nat_zeros [simp]: "le_nat (replicate n 0) = 0"
  by (induction n) simp_all

lemma zero_key: "find_key (replicate 128 0) (replicate 160 0) 0 = Some (replicate 32 0)"
  by (simp add: find_key.simps slice_def RSA_KEY_SIZE_def AES_KEY_SIZE_def)

lemma len_placed_md: "length placed_metadata = 178" by (simp add: placed_metadata_def)

lemma placed_md_fields:
  "slice placed_metadata ENC_KEY_DATA_POS (ENC_KEY_DATA_POS + RSA_KEY_SIZE) = replicate 128 0"
  "unpack_L placed_metadata FOOTER_SIZE_POS = Inr 242"
  "slice placed_metadata AES_IV_POS (AES_IV_POS + AES_IV_SIZE) = replicate 16 0"
  "unpack_L placed_metadata PADDING_SIZE_POS = Inr 0"
  by (simp_all add: placed_metadata_def slice_def unpack_L_def ENC_KEY_DATA_POS_def
        RSA_KEY_SIZE_def FOOTER_SIZE_POS_def AES_IV_POS_def AES_IV_SIZE_def PADDING_SIZE_POS_def)

lemma zero_cipher:
  "aes_new_cbc (replicate 32 0) (replicate 16 0)
     = Inr \<lparr>cbc_key = replicate 32 0, cbc_iv = replicate 16 0\<rparr>"
  by (simp add: aes_new_cbc_def)

lemma len_placed_enc: "length placed_enc_endblock = 64" by (simp add: placed_enc_endblock_def)

lemma len_placed_file: "length placed_file = 248"
  by (simp add: placed_file_def len_placed_enc len_placed_md)

lemma placed_read_footer: "read_footer placed_file (replicate 160 0) = Inr placed_footer"
proof -
  have d: "drop 70 placed_file = placed_metadata"
    by (simp add: placed_file_def len_placed_enc)
  have e: "slice placed_file 6 70 = placed_enc_endblock"
    by (simp add: placed_file_def len_placed_enc slice_def)
  show ?thesis
    by (simp add: read_footer_def len_placed_file METADATA_SIZE_def Let_def d zero_key
          placed_md_fields e placed_footer_def)
qed

lemma placed_cbc:
  "cbc_blocks toy_block (replicate 32 0) (replicate 16 0) placed_enc_endblock = placed_endblock"
  by (simp add: placed_enc_endblock_def placed_endblock_def cbc_blocks.simps xor_bytes_def
        toy_block_def eval_nat_numeral)

lemma placed_read_header: "read_header toy_block placed_footer = Inr placed_header"
proof -
  have dec: "cbc_decrypt toy_block \<lparr>cbc_key = replicate 32 0, cbc_iv = replicate 16 0\<rparr>
               placed_enc_endblock
             = Inr (placed_endblock,
                    \<lparr>cbc_key = replicate 32 0, cbc_iv = drop 48 placed_enc_endblock\<rparr>)"
    by (simp add: cbc_decrypt_def len_placed_enc placed_cbc) (simp add: placed_enc_endblock_def)
  have mode: "unpack_2L placed_endblock ENC_MODE_POS = Inr (1, ENC_MODE1_MAGIC)"
    by (simp add: unpack_2L_def placed_endblock_def slice_def ENC_MODE_POS_def ENC_MODE1_MAGIC_def)
  have pos: "unpack_L placed_endblock ORIG_FILENAME_POS_POS = Inr 52"
    by (simp add: unpack_L_def placed_endblock_def slice_def ORIG_FILENAME_POS_POS_def)
  have tm: "find_terminator placed_endblock 52 = Inr 54"
    by (simp add: find_terminator.simps placed_endblock_def)
  have name: "decode_utf16 (slice placed_endblock 52 54) = Inr [0x61]"
    by (simp add: decode_utf16_def placed_endblock_def slice_def)
  show ?thesis
    by (simp add: read_header_def placed_footer_def placed_md_fields zero_cipher dec mode pos tm
          name placed_header_def after_last_backslash_def)
qed

lemma crc32_payload: "crc32 [0xA, 0xB, 0xC, 0xD] = 2426987304"
proof -
  have "foldl crc_byte 0xFFFFFFFF [0xA, 0xB, 0xC, 0xD] = 1867979991"
    by (simp add: crc_byte_unfold crc_bit_def)
  then show ?thesis by (simp add: crc32_def)
qed

lemma placed_fields:
  "unpack_3L placed_endblock 0x0C = Inr (2, 2, 2426987304)"
  "chunk_payload placed_endblock 2 2 = [0xA, 0xB, 0xC, 0xD]"
  "chunk_pos placed_endblock 0 = 4"
  "chunk_pos placed_endblock (Suc 0) = 0"
  "length placed_endblock = 64"
  by (simp_all add: unpack_3L_def chunk_payload_def chunk_pos_def placed_endblock_def slice_def)

lemma placed_after_loop:
  "after_write_loop plain_fs placed_endblock 2 2 placed_file
     = [0xC, 0xD, 3, 4, 0xA, 0xB] @ placed_enc_endblock @ placed_metadata"
  by (simp add: after_write_loop_def chunk_payload_def plain_fs_def upt_rec unpack_Q_def
        Let_def slice_def write_at_def placed_file_def placed_endblock_def)


text \<open>
  A table in descending order, first for the loop alone and then for \<open>decrypt_file2\<close> on
  the 248-byte container: chunk 0 arrives at offset 4, chunk 1 at offset 0, the bytes
  between them stay, and the footer is cut off.
\<close>

theorem write_chunks_placement_witness:
  "write_chunks 9223372036854775807 reversed_table_endblock [0xA, 0xB, 0xC, 0xD] 2 [0..<2]
     [1, 2, 3, 4, 5, 6]
     = (None, [0xC, 0xD, 3, 4, 0xA, 0xB]) \<and>
   chunk_pos reversed_table_endblock 0 = 4 \<and> chunk_pos reversed_table_endblock 1 = 0 \<and>
   slice [0xC, 0xD, 3, 4, 0xA, 0xB] 4 6 = chunk_slice [0xA, 0xB, 0xC, 0xD] 2 0 \<and>
   slice [0xC, 0xD, 3, 4, 0xA, 0xB] 0 2 = chunk_slice [0xA, 0xB, 0xC, 0xD] 2 1 \<and>
   length (chunk_slice [0xA, 0xB, 0xC, 0xD] 2 0) = 2 \<and>
   length (chunk_slice [0xA, 0xB, 0xC, 0xD] 2 1) = 2 \<and>
   decrypt_file2 toy_block plain_fs placed_file (replicate 160 0)
     = (Return True, Some ([0x61], [0xC, 0xD, 3, 4, 0xA, 0xB])) \<and>
   chunk_pos placed_endblock 0 = 4 \<and> chunk_pos placed_endblock 1 = 0 \<and>
   chunk_slice (chunk_payload placed_endblock 2 2) 2 0 = [0xA, 0xB] \<and>
   chunk_slice (chunk_payload placed_endblock 2 2) 2 1 = [0xC, 0xD] \<and>
   slice (after_write_loop plain_fs placed_endblock 2 2 placed_file) 4 6 = [0xA, 0xB] \<and>
   slice (after_write_loop plain_fs placed_endblock 2 2 placed_file) 0 2 = [0xC, 0xD] \<and>
   slice [0xC, 0xD, 3, 4, 0xA, 0xB] 4 6 = [0xA, 0xB] \<and>
   slice [0xC, 0xD, 3, 4, 0xA, 0xB :: byte] 0 2 = [0xC, 0xD]"
proof -
  note T = write_chunks_placement [where max_size = 9223372036854775807
             and endblock_data = reversed_table_endblock and chunk_data = "[0xA, 0xB, 0xC, 0xD]"
             and chunk_size = 2 and num_chunks = 2 and f = "[1, 2, 3, 4, 5, 6]"
             and f' = "[0xC, 0xD, 3, 4, 0xA, 0xB]"
             and key_data = "replicate 160 0" and ft = placed_footer
             and D = toy_block and h = placed_header and n = 2 and cs = 2
             and crc = 2426987304 and FS = plain_fs
             and out = "Some ([0x61], [0xC, 0xD, 3, 4, 0xA, 0xB])", of placed_file]
  have dis: "\<forall>i<2. \<forall>j<2. i \<noteq> j \<longrightarrow>
        disjoint_ranges (chunk_pos reversed_table_endblock i)
          (length (chunk_slice [0xA, 0xB, 0xC, 0xD] 2 i))
          (chunk_pos reversed_table_endblock j)
          (length (chunk_slice [0xA, 0xB, 0xC, 0xD :: byte] 2 j))"
    by (simp add: less_2_cases_iff ex_pos0 ex_pos1 ex_chunk0 ex_chunk1 disjoint_ranges_def)
  have all: "\<forall>i<2. slice [0xC, 0xD, 3, 4, 0xA, 0xB] (chunk_pos reversed_table_endblock i)
          (chunk_pos reversed_table_endblock i + length (chunk_slice [0xA, 0xB, 0xC, 0xD] 2 i))
        = chunk_slice [0xA, 0xB, 0xC, 0xD :: byte] 2 i"
    using T [THEN conjunct1] ex_run dis by blast
  have len: "\<forall>i<2. length (chunk_slice [0xA, 0xB, 0xC, 0xD :: byte] 2 i) = 2"
    using T [THEN conjunct2, THEN conjunct1] by simp
  from all have a0: "slice [0xC, 0xD, 3, 4, 0xA, 0xB] (chunk_pos reversed_table_endblock 0)
          (chunk_pos reversed_table_endblock 0 + length (chunk_slice [0xA, 0xB, 0xC, 0xD] 2 0))
        = chunk_slice [0xA, 0xB, 0xC, 0xD :: byte] 2 0" by simp
  from all have a1: "slice [0xC, 0xD, 3, 4, 0xA, 0xB] (chunk_pos reversed_table_endblock 1)
          (chunk_pos reversed_table_endblock 1 + length (chunk_slice [0xA, 0xB, 0xC, 0xD] 2 1))
        = chunk_slice [0xA, 0xB, 0xC, 0xD :: byte] 2 1" by simp
  have part1: "write_chunks 9223372036854775807 reversed_table_endblock [0xA, 0xB, 0xC, 0xD] 2
       [0..<2] [1, 2, 3, 4, 5, 6] = (None, [0xC, 0xD, 3, 4, 0xA, 0xB]) \<and>
     chunk_pos reversed_table_endblock 0 = 4 \<and> chunk_pos reversed_table_endblock 1 = 0 \<and>
     slice [0xC, 0xD, 3, 4, 0xA, 0xB] 4 6 = chunk_slice [0xA, 0xB, 0xC, 0xD] 2 0 \<and>
     slice [0xC, 0xD, 3, 4, 0xA, 0xB] 0 2 = chunk_slice [0xA, 0xB, 0xC, 0xD] 2 1 \<and>
     length (chunk_slice [0xA, 0xB, 0xC, 0xD] 2 0) = 2 \<and>
     length (chunk_slice [0xA, 0xB, 0xC, 0xD :: byte] 2 1) = 2"
    using a0 a1 len ex_run
    by (simp add: ex_pos0 ex_pos1 ex_chunk0 ex_chunk1 slice_def)
  have hf: "hd_endblock_data placed_header = placed_endblock"
    "hd_enc_mode placed_header = 1" "hd_orig_filename placed_header = [0x61]"
    "ft_footer_size placed_footer = 242"
    by (simp_all add: placed_header_def placed_footer_def)
  have copy: "can_copy_to plain_fs [0x61]"
    by (simp add: can_copy_to_def plain_fs_def)
  have ok: "\<forall>i<2. 0x20 + i * 8 + 8 \<le> length placed_endblock \<and>
            chunk_pos placed_endblock i < 2 ^ 63 \<and>
            chunk_pos placed_endblock i
              + length (chunk_slice (chunk_payload placed_endblock 2 2) 2 i)
              \<le> fs_max_size plain_fs"
    by (simp add: less_2_cases_iff placed_fields ex_chunk0 ex_chunk1 plain_fs_def)
  have run: "decrypt_file2 toy_block plain_fs placed_file (replicate 160 0)
     = (Return True, Some ([0x61], [0xC, 0xD, 3, 4, 0xA, 0xB]))"
    using T [THEN conjunct2, THEN conjunct2, THEN conjunct2] ok copy
    by (simp add: placed_read_footer placed_read_header hf placed_fields crc32_payload
          placed_after_loop len_placed_enc len_placed_md)
  have dis2: "\<forall>i<2. \<forall>j<2. i \<noteq> j \<longrightarrow>
        disjoint_ranges (chunk_pos placed_endblock i)
          (length (chunk_slice (chunk_payload placed_endblock 2 2) 2 i))
          (chunk_pos placed_endblock j)
          (length (chunk_slice (chunk_payload placed_endblock 2 2) 2 j))"
    by (simp add: less_2_cases_iff placed_fields ex_chunk0 ex_chunk1 disjoint_ranges_def)
  have pl: "\<forall>i<2.
        slice (after_write_loop plain_fs placed_endblock 2 2 placed_file)
          (chunk_pos placed_endblock i)
          (chunk_pos placed_endblock i
             + length (chunk_slice (chunk_payload placed_endblock 2 2) 2 i))
        = chunk_slice (chunk_payload placed_endblock 2 2) 2 i"
    using T [THEN conjunct2, THEN conjunct2, THEN conjunct1] run dis2
    by (simp add: placed_read_footer placed_read_header hf placed_fields)
  from pl have "slice (after_write_loop plain_fs placed_endblock 2 2 placed_file)
          (chunk_pos placed_endblock 0)
          (chunk_pos placed_endblock 0
             + length (chunk_slice (chunk_payload placed_endblock 2 2) 2 0))
        = chunk_slice (chunk_payload placed_endblock 2 2) 2 0" by simp
  then have p0: "slice (after_write_loop plain_fs placed_endblock 2 2 placed_file) 4 6
        = [0xA, 0xB]"
    by (simp add: placed_fields ex_chunk0)
  from pl have "slice (after_write_loop plain_fs placed_endblock 2 2 placed_file)
          (chunk_pos placed_endblock 1)
          (chunk_pos placed_endblock 1
             + length (chunk_slice (chunk_payload placed_endblock 2 2) 2 1))
        = chunk_slice (chunk_payload placed_endblock 2 2) 2 1" by simp
  then have p1: "slice (after_write_loop plain_fs placed_endblock 2 2 placed_file) 0 2
        = [0xC, 0xD]"
    by (simp add: placed_fields ex_chunk1 numeral_2_eq_2 [symmetric])
  have part2: "chunk_pos placed_endblock 0 = 4 \<and> chunk_pos placed_endblock 1 = 0 \<and>
     chunk_slice (chunk_payload placed_endblock 2 2) 2 0 = [0xA, 0xB] \<and>
     chunk_slice (chunk_payload placed_endblock 2 2) 2 1 = [0xC, 0xD] \<and>
     slice [0xC, 0xD, 3, 4, 0xA, 0xB] 4 6 = [0xA, 0xB] \<and>
     slice [0xC, 0xD, 3, 4, 0xA, 0xB :: byte] 0 2 = [0xC, 0xD]"
    by (simp add: placed_fields ex_chunk0 ex_chunk1 slice_def)
  from part1 run part2 p0 p1 show ?thesis by simp
qed

subsection \<open>Scattered chunks: the checksum comes first\<close>











subsection \<open>Single stream: the last block\<close>

lemma decrypt_stream_last_aligned:
  assumes "length fin < PHOBOS_ENC_BLOCK_SIZE" and "length fin mod 16 = 0"
  shows "decrypt_stream D cipher fin fout = Inr (fout @ fin)"
  using assms
  by (subst decrypt_stream.simps)
     (simp add: Let_def slice_to_def slice_from_def cbc_decrypt_def cbc_blocks.simps)

lemma decrypt_stream_last_unaligned:
  assumes "length fin < PHOBOS_ENC_BLOCK_SIZE" and "length fin mod 16 \<noteq> 0"
  shows "decrypt_stream D cipher fin fout =
           Inr (fout @ cbc_blocks D (cbc_key cipher) (cbc_iv cipher)
                         (take (length fin - length fin mod 16) fin)
                     @ drop (length fin - length fin mod 16) fin)"
proof -
  let ?e = "length fin mod 16"
  have e: "0 < ?e" "?e \<le> length fin" using assms(2) by (simp_all add: mod_le_divisor)
  have n: "nat (int (length fin) - int ?e) = length fin - ?e" by simp
  have al: "(length fin - ?e) mod 16 = 0" by (simp add: minus_mod_eq_mult_div)
  have len: "length (take (length fin - ?e) fin) = length fin - ?e" by simp
  show ?thesis
    using assms(1) e
    by (subst decrypt_stream.simps)
       (simp add: Let_def slice_to_def slice_from_def cbc_decrypt_def n al min_def)
qed

text \<open>
  C5, where the code departs from it. When the last read returns a whole number of cipher
  blocks, \<open>excess_size\<close> is 0, \<open>enc_data[:-excess_size]\<close> is \<open>enc_data[:0]\<close> and
  \<open>enc_data[-excess_size:]\<close> is all of \<open>enc_data\<close>: nothing of the last block is
  decrypted, the block is copied as it is. \<open>decrypt_stream_last_unaligned\<close> above is the
  case the claim describes.
\<close>

theorem decrypt_stream_aligned_tail_raw:
  "length fin < PHOBOS_ENC_BLOCK_SIZE \<and> length fin mod 16 = 0 \<longrightarrow>
     decrypt_stream D cipher fin fout = Inr (fout @ fin)"
  by (simp add: decrypt_stream_last_aligned)

lemma len_aligned_enc: "length aligned_enc_endblock = 48" by (simp add: aligned_enc_endblock_def)
lemma len_aligned_md: "length aligned_metadata = 178" by (simp add: aligned_metadata_def)
lemma len_aligned_file: "length aligned_file = 240"
  by (simp add: aligned_file_def aligned_data_def len_aligned_enc len_aligned_md)

lemma aligned_read_footer: "read_footer aligned_file (replicate 160 0) = Inr aligned_footer"
proof -
  have k: "find_key (replicate 128 0) (replicate 160 0) 0 = Some (replicate 32 0)"
    by (simp add: find_key.simps slice_def RSA_KEY_SIZE_def AES_KEY_SIZE_def)
  have w: "slice aligned_metadata ENC_KEY_DATA_POS (ENC_KEY_DATA_POS + RSA_KEY_SIZE) = replicate 128 0"
    by (simp add: aligned_metadata_def slice_def ENC_KEY_DATA_POS_def RSA_KEY_SIZE_def)
  have u: "unpack_L aligned_metadata FOOTER_SIZE_POS = Inr 226"
    by (simp add: unpack_L_def aligned_metadata_def slice_def FOOTER_SIZE_POS_def)
  have d: "drop 62 aligned_file = aligned_metadata"
    by (simp add: aligned_file_def aligned_data_def len_aligned_enc)
  have e: "slice aligned_file 14 62 = aligned_enc_endblock"
    by (simp add: aligned_file_def aligned_data_def len_aligned_enc slice_def)
  show ?thesis
    by (simp add: read_footer_def len_aligned_file METADATA_SIZE_def Let_def d k w u e
          aligned_footer_def)
qed

lemma aligned_cbc:
  "cbc_blocks toy_block (replicate 32 0) (replicate 16 0xFF) aligned_enc_endblock = aligned_endblock"
  by (simp add: aligned_enc_endblock_def aligned_endblock_def cbc_blocks.simps xor_bytes_def
        toy_block_def eval_nat_numeral)

lemma aligned_read_header: "read_header toy_block aligned_footer = Inr aligned_header"
proof -
  have iv: "slice aligned_metadata AES_IV_POS (AES_IV_POS + AES_IV_SIZE) = replicate 16 0xFF"
    by (simp add: aligned_metadata_def slice_def AES_IV_POS_def AES_IV_SIZE_def)
  have pad: "unpack_L aligned_metadata PADDING_SIZE_POS = Inr 0"
    by (simp add: unpack_L_def aligned_metadata_def slice_def PADDING_SIZE_POS_def)
  have new: "aes_new_cbc (replicate 32 0) (replicate 16 0xFF)
               = Inr \<lparr>cbc_key = replicate 32 0, cbc_iv = replicate 16 0xFF\<rparr>"
    by (simp add: aes_new_cbc_def)
  have dec: "cbc_decrypt toy_block \<lparr>cbc_key = replicate 32 0, cbc_iv = replicate 16 0xFF\<rparr>
               aligned_enc_endblock
             = Inr (aligned_endblock,
                    \<lparr>cbc_key = replicate 32 0, cbc_iv = drop 32 aligned_enc_endblock\<rparr>)"
    by (simp add: cbc_decrypt_def len_aligned_enc aligned_cbc) (simp add: aligned_enc_endblock_def)
  have mode: "unpack_2L aligned_endblock ENC_MODE_POS = Inr (2, ENC_MODE2_MAGIC)"
    by (simp add: unpack_2L_def aligned_endblock_def slice_def ENC_MODE_POS_def ENC_MODE2_MAGIC_def)
  have pos: "unpack_L aligned_endblock ORIG_FILENAME_POS_POS = Inr 32"
    by (simp add: unpack_L_def aligned_endblock_def slice_def ORIG_FILENAME_POS_POS_def)
  have tm: "find_terminator aligned_endblock 32 = Inr 34"
    by (simp add: find_terminator.simps aligned_endblock_def)
  have name: "decode_utf16 (slice aligned_endblock 32 34) = Inr [0x61]"
    by (simp add: decode_utf16_def aligned_endblock_def slice_def)
  show ?thesis
    by (simp add: read_header_def aligned_footer_def iv pad new dec mode pos tm name
          aligned_header_def after_last_backslash_def ENC_MODE2_MAGIC_def ENC_MODE1_MAGIC_def)
qed

text \<open>
  On the 240-byte container the stream loop returns the input unchanged, so
  \<open>decrypt_file2\<close> delivers the 14 data bytes as stored, where CBC decryption under the
  container's IV gives other bytes.
\<close>

theorem decrypt_stream_aligned_tail_raw_witness:
  "decrypt_stream toy_block \<lparr>cbc_key = replicate 32 0, cbc_iv = replicate 16 0xFF\<rparr>
     aligned_file [] = Inr aligned_file \<and>
   decrypt_file2 toy_block plain_fs aligned_file (replicate 160 0)
     = (Return True, Some ([0x61], aligned_data)) \<and>
   take 14 (cbc_blocks toy_block (replicate 32 0) (replicate 16 0xFF) aligned_file)
     = [0xFE, 0xFD, 0xFC, 0xFB, 0xFA, 0xF9, 0xF8, 0xF7, 0xF6, 0xF5, 0xF4, 0xF3, 0xF2, 0xF1]"
proof -
  have s: "decrypt_stream toy_block \<lparr>cbc_key = replicate 32 0, cbc_iv = replicate 16 0xFF\<rparr>
     aligned_file [] = Inr ([] @ aligned_file)"
    by (rule decrypt_stream_aligned_tail_raw [rule_format])
       (simp add: len_aligned_file PHOBOS_ENC_BLOCK_SIZE_def)
  have new: "aes_new_cbc (replicate 32 0) (replicate 16 0xFF)
               = Inr \<lparr>cbc_key = replicate 32 0, cbc_iv = replicate 16 0xFF\<rparr>"
    by (simp add: aes_new_cbc_def)
  have t: "take 14 aligned_file = aligned_data"
    by (simp add: aligned_file_def aligned_data_def)
  have f: "decrypt_file2 toy_block plain_fs aligned_file (replicate 160 0)
     = (Return True, Some ([0x61], aligned_data))"
    using s
    by (simp add: decrypt_file2_def aligned_read_footer aligned_read_header decrypt_single_def)
       (simp add: aligned_header_def aligned_footer_def new len_aligned_file t
          can_open_new_def plain_fs_def)
  have c: "take 14 (cbc_blocks toy_block (replicate 32 0) (replicate 16 0xFF) aligned_file)
     = [0xFE, 0xFD, 0xFC, 0xFB, 0xFA, 0xF9, 0xF8, 0xF7, 0xF6, 0xF5, 0xF4, 0xF3, 0xF2, 0xF1]"
    by (subst cbc_blocks.simps)
       (simp add: aligned_file_def aligned_data_def aligned_enc_endblock_def xor_bytes_def
          toy_block_def replicate_16)
  from s f c show ?thesis by simp
qed

subsection \<open>RCRU64: the end marker is removed before anything is checked\<close>

declare find_from.simps [simp del]

lemma len_marker2: "length METADATA_MARKER2 = 6"
  by (simp add: METADATA_MARKER2_def ascii_def)

lemma locate_metadata_marker2:
  assumes "ends_with_marker2 f0"
  shows "locate_metadata f0 =
     (if int (length (stripped f0)) < MIN_METADATA_SIZE then Inl (Return False, stripped f0)
      else case find_from (metadata_window (stripped f0)) METADATA_MARKER 0 of
             None \<Rightarrow> Inl (Return False, stripped f0)
           | Some pos \<Rightarrow>
               Inr (stripped f0,
                    int (length (stripped f0)) - (min (int (length (stripped f0))) MAX_METADATA_SIZE - int pos),
                    drop (pos + length METADATA_MARKER) (metadata_window (stripped f0))))"
proof -
  from assms have len: "\<not> int (length f0) < int (length METADATA_MARKER2)"
    and mk: "drop (length f0 - length METADATA_MARKER2) f0 = METADATA_MARKER2"
    by (simp_all add: ends_with_marker2_def)
  have l: "int (length f0) - int (length METADATA_MARKER2) = int (length (stripped f0))"
    using len by (simp add: stripped_def)
  have s: "take (length (stripped f0)) f0 = stripped f0"
    by (simp add: stripped_def)
  have m: "min (length f0) (length (stripped f0)) = length (stripped f0)"
    by (simp add: stripped_def)
  have len': "\<not> length f0 < length METADATA_MARKER2"
    using len by simp
  show ?thesis
    unfolding locate_metadata_def Let_def metadata_window_def
    by (simp add: len' mk l s m split: option.splits)
qed

lemma locate_metadata_no_marker2:
  assumes "\<not> ends_with_marker2 f0"
  shows "locate_metadata f0 =
     (if int (length f0) < int (length METADATA_MARKER2) then Inl (Return False, f0)
      else if int (length f0) < MIN_METADATA_SIZE then Inl (Return False, f0)
      else case find_from (metadata_window f0) METADATA_MARKER 0 of
             None \<Rightarrow> Inl (Return False, f0)
           | Some pos \<Rightarrow>
               Inr (f0, int (length f0) - (min (int (length f0)) MAX_METADATA_SIZE - int pos),
                    drop (pos + length METADATA_MARKER) (metadata_window f0)))"
  using assms
  by (auto simp add: locate_metadata_def Let_def metadata_window_def ends_with_marker2_def
        split: option.splits)

lemma stripped_shorter:
  assumes "ends_with_marker2 f0"
  shows "length (stripped f0) = length f0 - 6" and "stripped f0 \<noteq> f0"
proof -
  from assms have len: "6 \<le> length f0" by (simp add: ends_with_marker2_def len_marker2)
  show l: "length (stripped f0) = length f0 - 6" by (simp add: stripped_def len_marker2)
  show "stripped f0 \<noteq> f0"
  proof
    assume "stripped f0 = f0"
    then have "length (stripped f0) = length f0" by simp
    with l len show False by simp
  qed
qed

lemma locate_metadata_file:
  assumes "locate_metadata f0 = Inl (r, f) \<or> locate_metadata f0 = Inr (f, file_size, md)"
  shows "f = (if ends_with_marker2 f0 then stripped f0 else f0)"
proof (cases "ends_with_marker2 f0")
  case True
  show ?thesis
    using assms
    by (auto simp: locate_metadata_marker2 [OF True] True split: if_splits option.splits)
next
  case False
  show ?thesis
    using assms
    by (auto simp: locate_metadata_no_marker2 [OF False] False split: if_splits option.splits)
qed

lemma remove_footer_not_False: "remove_footer f n \<noteq> (Return False, f')"
  by (simp add: remove_footer_def split: sum.splits)

lemma decrypt_file_False:
  assumes "decrypt_file fuel E f0 priv_key_data = Some (Return False, f)"
  shows "f = (if ends_with_marker2 f0 then stripped f0 else f0)"
proof (cases "locate_metadata f0")
  case (Inl a)
  then obtain r where "locate_metadata f0 = Inl (r, f)"
    using assms by (cases a) (simp add: decrypt_file_def)
  then show ?thesis using locate_metadata_file by blast
next
  case (Inr b)
  then obtain f1 file_size md where l: "locate_metadata f0 = Inr (f1, file_size, md)"
    by (cases b) auto
  have "f = f1"
    using assms remove_footer_not_False
    by (auto simp: decrypt_file_def l split: sum.splits option.splits prod.splits)
  with l show ?thesis using locate_metadata_file by blast
qed

text \<open>
  C10. When the file ends with \<open>METADATA_MARKER2\<close>, \<open>decrypt_file\<close> cuts these 6 bytes
  off at once: every later step works on the file without the tag. Whenever it then
  returns \<open>False\<close>, for whatever reason, the file is left 6 bytes shorter than it was; so
  it is when the rest is shorter than \<open>MIN_METADATA_SIZE\<close> or holds no \<open>METADATA_MARKER\<close>
  in its trailing window, where \<open>False\<close> is returned. Without the tag a run that returns
  \<open>False\<close> leaves the file as it was.
\<close>

theorem end_marker_truncation_persists:
  "(ends_with_marker2 f0 \<and>
    (int (length (stripped f0)) < MIN_METADATA_SIZE \<or>
     find_from (metadata_window (stripped f0)) METADATA_MARKER 0 = None) \<longrightarrow>
      decrypt_file fuel E f0 priv_key_data = Some (Return False, stripped f0) \<and>
      length (stripped f0) = length f0 - 6 \<and> stripped f0 \<noteq> f0) \<and>
   (\<not> ends_with_marker2 f0 \<and>
    (int (length f0) < MIN_METADATA_SIZE \<or>
     find_from (metadata_window f0) METADATA_MARKER 0 = None) \<longrightarrow>
      decrypt_file fuel E f0 priv_key_data = Some (Return False, f0)) \<and>
   (ends_with_marker2 f0 \<and> decrypt_file fuel E f0 priv_key_data = Some (Return False, f) \<longrightarrow>
      f = stripped f0 \<and> length f = length f0 - 6 \<and> f \<noteq> f0) \<and>
   (\<not> ends_with_marker2 f0 \<and> decrypt_file fuel E f0 priv_key_data = Some (Return False, f) \<longrightarrow>
      f = f0) \<and>
   (ends_with_marker2 f0 \<and> locate_metadata f0 = Inr (f1, file_size, md) \<longrightarrow> f1 = stripped f0)"
proof (intro conjI impI)
  assume a: "ends_with_marker2 f0 \<and>
    (int (length (stripped f0)) < MIN_METADATA_SIZE \<or>
     find_from (metadata_window (stripped f0)) METADATA_MARKER 0 = None)"
  then have "locate_metadata f0 = Inl (Return False, stripped f0)"
    by (auto simp: locate_metadata_marker2)
  then show "decrypt_file fuel E f0 priv_key_data = Some (Return False, stripped f0)"
    by (simp add: decrypt_file_def)
  from a show "length (stripped f0) = length f0 - 6" by (simp add: stripped_shorter)
  from a show "stripped f0 \<noteq> f0" by (simp add: stripped_shorter)
next
  assume a: "\<not> ends_with_marker2 f0 \<and>
    (int (length f0) < MIN_METADATA_SIZE \<or>
     find_from (metadata_window f0) METADATA_MARKER 0 = None)"
  then have "locate_metadata f0 = Inl (Return False, f0)"
    by (auto simp: locate_metadata_no_marker2 MIN_METADATA_SIZE_def RCRU_RSA_KEY_SIZE_def len_marker2)
  then show "decrypt_file fuel E f0 priv_key_data = Some (Return False, f0)"
    by (simp add: decrypt_file_def)
next
  assume a: "ends_with_marker2 f0 \<and>
    decrypt_file fuel E f0 priv_key_data = Some (Return False, f)"
  then show f: "f = stripped f0" using decrypt_file_False [of fuel E f0 priv_key_data f] by simp
  from a show "length f = length f0 - 6" unfolding f by (simp add: stripped_shorter)
  from a show "f \<noteq> f0" unfolding f by (simp add: stripped_shorter)
next
  assume "\<not> ends_with_marker2 f0 \<and>
    decrypt_file fuel E f0 priv_key_data = Some (Return False, f)"
  then show "f = f0" using decrypt_file_False [of fuel E f0 priv_key_data f] by simp
next
  assume "ends_with_marker2 f0 \<and> locate_metadata f0 = Inr (f1, file_size, md)"
  then show "f1 = stripped f0" using locate_metadata_file [of f0 _ f1 file_size md] by simp
qed

lemma find_from_absent:
  assumes "sub \<noteq> []" and "hd sub \<notin> set b"
  shows "find_from b sub i = None"
  using assms
proof (induction b sub i rule: find_from.induct)
  case (1 b sub i)
  show ?case
  proof (cases "length b < i + length sub")
    case True
    then show ?thesis by (subst find_from.simps) simp
  next
    case False
    have ne: "take (length sub) (drop i b) \<noteq> sub"
    proof
      assume eq: "take (length sub) (drop i b) = sub"
      from False 1(2) have "i < length b" by (cases sub) auto
      then have "drop i b \<noteq> []" by simp
      then have "hd (take (length sub) (drop i b)) = hd (drop i b)"
        using 1(2) by (cases "drop i b"; cases sub) auto
      also have "\<dots> = b ! i" using \<open>i < length b\<close> by (simp add: hd_drop_conv_nth)
      finally have "hd sub = b ! i" using eq by simp
      with \<open>i < length b\<close> 1(3) show False by (metis nth_mem)
    qed
    with False 1 show ?thesis by (subst find_from.simps) simp
  qed
qed

lemma find_from_after_prefix:
  assumes "sub \<noteq> []" and "hd sub \<notin> set xs" and "take (length sub) ys = sub" and "i \<le> length xs"
  shows "find_from (xs @ ys) sub i = Some (length xs)"
  using assms
proof (induction "length xs - i" arbitrary: i)
  case 0
  then have i: "i = length xs" by simp
  have "length (take (length sub) ys) = length sub" using 0(4) by simp
  then have "length sub \<le> length ys" by simp
  then show ?case using 0 i by (subst find_from.simps) simp
next
  case (Suc d)
  then have lt: "i < length xs" by simp
  have "length (take (length sub) ys) = length sub" using Suc(5) by simp
  then have "length sub \<le> length ys" by simp
  then have ok: "\<not> length (xs @ ys) < i + length sub" using lt by simp
  have ne: "take (length sub) (drop i (xs @ ys)) \<noteq> sub"
  proof
    assume eq: "take (length sub) (drop i (xs @ ys)) = sub"
    have "drop i (xs @ ys) = (xs ! i) # drop (Suc i) (xs @ ys)"
      using lt by (simp add: Cons_nth_drop_Suc [symmetric] nth_append)
    then have "hd (take (length sub) (drop i (xs @ ys))) = xs ! i"
      using Suc(3) by (cases sub) auto
    with eq have "hd sub = xs ! i" by simp
    with lt Suc(4) show False by (metis nth_mem)
  qed
  have "find_from (xs @ ys) sub (i + 1) = Some (length xs)"
    using Suc by (intro Suc(1)) auto
  with ok ne show ?case by (subst find_from.simps) simp
qed

lemma marker_values:
  "METADATA_MARKER = [0x77, 0x65, 0x6E, 0x66, 0x3D]"
  "KEYDATA_MARKER1 = [0x64, 0x37, 0x6A, 0x33]"
  "KEYDATA_MARKER2 = [0x79, 0x39, 0x61, 0x30]"
  "KEYDATA_MARKER3 = [0x6D, 0x35, 0x68, 0x61]"
  "CHUNK_INFO_MARKER1 = [0x50, 0x37, 0x41, 0x31, 0x73]"
  "SMALL_FILE_END_MARKER1 = [0x6E, 0x71, 0x70, 0x73, 0x6F, 0x35, 0x39, 0x33, 0x38, 0x66, 0x68,
     0x37, 0x31, 0x6A, 0x66, 0x75]"
  "SMALL_FILE_END_MARKER2 = [0x71, 0x70, 0x73, 0x6F, 0x35, 0x39, 0x33, 0x38, 0x66, 0x68,
     0x37, 0x31, 0x6A, 0x66]"
  by (simp_all add: METADATA_MARKER_def KEYDATA_MARKER1_def KEYDATA_MARKER2_def
        KEYDATA_MARKER3_def CHUNK_INFO_MARKER1_def SMALL_FILE_END_MARKER1_def
        SMALL_FILE_END_MARKER2_def ascii_def)

lemma replicate_6: "replicate 6 x = [x, x, x, x, x, x]"
  by (simp add: eval_nat_numeral)

lemma len_bad_blob: "length bad_blob_file = 270"
  by (simp add: bad_blob_file_def len_marker2 marker_values)

lemma bad_blob_tag: "ends_with_marker2 bad_blob_file"
  by (simp add: ends_with_marker2_def bad_blob_file_def len_marker2 marker_values)

lemma bad_blob_stripped:
  "stripped bad_blob_file = replicate 256 0 @ METADATA_MARKER @ [1, 2, 3]"
  by (simp add: stripped_def bad_blob_file_def len_marker2 marker_values)

lemma bad_blob_locate:
  "locate_metadata bad_blob_file
     = Inr (replicate 256 0 @ METADATA_MARKER @ [1, 2, 3], 256, [1, 2, 3])"
proof -
  let ?s = "replicate 256 0 @ METADATA_MARKER @ [1, 2, 3]"
  have w: "metadata_window ?s = ?s"
    by (simp add: metadata_window_def MAX_METADATA_SIZE_def marker_values)
  have f: "find_from (replicate 256 0 @ METADATA_MARKER @ [1, 2, 3]) METADATA_MARKER 0
             = Some (length (replicate 256 (0::byte)))"
    by (rule find_from_after_prefix) (simp_all add: marker_values)
  show ?thesis
    by (simp add: locate_metadata_marker2 [OF bad_blob_tag] bad_blob_stripped w f
          MIN_METADATA_SIZE_def RCRU_RSA_KEY_SIZE_def MAX_METADATA_SIZE_def)
       (simp add: marker_values)
qed

lemma bad_blob_run:
  "decrypt_file 0 toy_env bad_blob_file []
     = Some (Return False, replicate 256 0 @ METADATA_MARKER @ [1, 2, 3])"
proof -
  have c: "chunk_info toy_env [1, 2, 3] = Inr (None, [1, 2, 3])"
  proof -
    have "find_from [1, 2, 3] CHUNK_INFO_MARKER1 0 = None"
      by (rule find_from_absent) (simp_all add: marker_values)
    then show ?thesis by (simp add: chunk_info_def)
  qed
  have k: "parse_keydata toy_env [1, 2, 3] [] = Inl (Return False)"
  proof -
    have "find_from [1, 2, 3] KEYDATA_MARKER1 0 = None"
      by (rule find_from_absent) (simp_all add: marker_values)
    then show ?thesis by (simp add: parse_keydata_def toy_env_def)
  qed
  show ?thesis by (simp add: decrypt_file_def bad_blob_locate c k)
qed

text \<open>
  The tag alone, 261 zero bytes with the tag (no metadata marker), the same bytes without
  the tag, and the 270-byte file whose metadata marker is found and whose key blob is
  rejected: every run returns \<open>False\<close>, and the tag is gone where there was one.
\<close>

theorem end_marker_truncation_persists_witness:
  "decrypt_file 0 toy_env METADATA_MARKER2 [] = Some (Return False, []) \<and>
   decrypt_file 0 toy_env zeros_then_marker2 [] = Some (Return False, replicate 261 0) \<and>
   length zeros_then_marker2 = 267 \<and>
   decrypt_file 0 toy_env (replicate 261 0) [] = Some (Return False, replicate 261 0) \<and>
   decrypt_file 0 toy_env bad_blob_file []
     = Some (Return False, replicate 256 0 @ METADATA_MARKER @ [1, 2, 3]) \<and>
   replicate 256 0 @ METADATA_MARKER @ [1, 2, 3] = stripped bad_blob_file \<and>
   length (replicate 256 0 @ METADATA_MARKER @ [1, 2, 3 :: byte]) = 264 \<and>
   length bad_blob_file = 270 \<and>
   locate_metadata bad_blob_file
     = Inr (stripped bad_blob_file, 256, [1, 2, 3])"
proof -
  have e1: "ends_with_marker2 METADATA_MARKER2" by (simp add: ends_with_marker2_def)
  have s1: "stripped METADATA_MARKER2 = []" by (simp add: stripped_def)
  have 1: "decrypt_file 0 toy_env METADATA_MARKER2 [] = Some (Return False, [])"
    using end_marker_truncation_persists [of METADATA_MARKER2 0 toy_env "[]", THEN conjunct1]
      e1 s1
    by (simp add: MIN_METADATA_SIZE_def RCRU_RSA_KEY_SIZE_def)
  have e2: "ends_with_marker2 zeros_then_marker2"
    by (simp add: ends_with_marker2_def zeros_then_marker2_def)
  have s2: "stripped zeros_then_marker2 = replicate 261 0"
    by (simp add: stripped_def zeros_then_marker2_def)
  have w2: "metadata_window (replicate 261 0) = replicate 261 0"
    by (simp add: metadata_window_def MAX_METADATA_SIZE_def)
  have n2: "find_from (replicate 261 0) METADATA_MARKER 0 = None"
    by (rule find_from_absent) (simp_all add: METADATA_MARKER_def ascii_def)
  have 2: "decrypt_file 0 toy_env zeros_then_marker2 [] = Some (Return False, replicate 261 0)"
    using end_marker_truncation_persists [of zeros_then_marker2 0 toy_env "[]", THEN conjunct1]
      e2 s2 w2 n2
    by simp
  have e3: "\<not> ends_with_marker2 (replicate 261 0)"
    by (simp add: ends_with_marker2_def len_marker2)
       (simp add: METADATA_MARKER2_def ascii_def replicate_6)
  have 3: "decrypt_file 0 toy_env (replicate 261 0) [] = Some (Return False, replicate 261 0)"
    using end_marker_truncation_persists [of "replicate 261 0" 0 toy_env "[]",
            THEN conjunct2, THEN conjunct1]
      e3 w2 n2
    by simp
  have 4: "length zeros_then_marker2 = 267"
    by (simp add: zeros_then_marker2_def len_marker2)
  note B = end_marker_truncation_persists [where ?f0.0 = bad_blob_file and fuel = 0
             and E = toy_env and priv_key_data = "[]"
             and f = "replicate 256 0 @ METADATA_MARKER @ [1, 2, 3]"
             and ?f1.0 = "replicate 256 0 @ METADATA_MARKER @ [1, 2, 3]"
             and file_size = 256 and md = "[1, 2, 3]"]
  note B3 = B [THEN conjunct2, THEN conjunct2, THEN conjunct1, rule_format,
               OF conjI [OF bad_blob_tag bad_blob_run]]
  have 5: "decrypt_file 0 toy_env bad_blob_file []
     = Some (Return False, replicate 256 0 @ METADATA_MARKER @ [1, 2, 3])"
    by (rule bad_blob_run)
  have 6: "replicate 256 0 @ METADATA_MARKER @ [1, 2, 3] = stripped bad_blob_file"
    by (rule B3 [THEN conjunct1])
  have 7: "length (replicate 256 0 @ METADATA_MARKER @ [1, 2, 3 :: byte]) = 264"
    using B3 [THEN conjunct2, THEN conjunct1] by (simp only: len_bad_blob)
  have 8: "length bad_blob_file = 270" by (rule len_bad_blob)
  have "replicate 256 0 @ METADATA_MARKER @ [1, 2, 3] = stripped bad_blob_file"
    by (rule B [THEN conjunct2, THEN conjunct2, THEN conjunct2, THEN conjunct2, rule_format,
                OF conjI [OF bad_blob_tag bad_blob_locate]])
  then have 9: "locate_metadata bad_blob_file = Inr (stripped bad_blob_file, 256, [1, 2, 3])"
    using bad_blob_locate by simp
  from 1 2 4 3 5 6 7 8 9 show ?thesis by (intro conjI)
qed

subsection \<open>RCRU64: the size tiers of full/fast encryption\<close>

lemma decrypt_file_full_fast:
  assumes "locate_metadata f0 = Inr (f, file_size, md)" and "chunk_info E md = Inr (None, ek)"
    and "parse_keydata E ek priv_key_data = Inr (key, nonce)"
  shows "decrypt_file fuel E f0 priv_key_data =
           (case full_fast E key nonce f file_size of
              Inl (e, f') \<Rightarrow> Some (Raise e, f')
            | Inr (f', file_size') \<Rightarrow> Some (remove_footer f' file_size'))"
  using assms by (simp add: decrypt_file_def)

text \<open>
  C6. Without a chunk descriptor, \<open>decrypt_file\<close> hands the adjusted size of the plaintext
  region to \<open>full_fast\<close>, which chooses by the two constants: at \<open>MIN_BIG_FILE_SIZE\<close>
  (\<open>0x1F4000\<close>) and above the fast big-file path, one byte below it the small-file path
  with some blocks, at \<open>ENC_BLOCK_SIZE\<close> (\<open>0x7D000\<close>) and below the single-block path,
  strictly between the two the path with some blocks.
\<close>

theorem mode_selection_tiers:
  "MIN_BIG_FILE_SIZE = 0x1F4000 \<and> ENC_BLOCK_SIZE = 0x7D000 \<and>
   full_fast E key nonce f MIN_BIG_FILE_SIZE = fast_path E key nonce f MIN_BIG_FILE_SIZE \<and>
   full_fast E key nonce f (MIN_BIG_FILE_SIZE - 1)
     = small_blocks_path E key nonce f (MIN_BIG_FILE_SIZE - 1) \<and>
   full_fast E key nonce f ENC_BLOCK_SIZE = single_block_path E key nonce f ENC_BLOCK_SIZE \<and>
   (\<forall>s. MIN_BIG_FILE_SIZE \<le> s \<longrightarrow> full_fast E key nonce f s = fast_path E key nonce f s) \<and>
   (\<forall>s. ENC_BLOCK_SIZE < s \<and> s < MIN_BIG_FILE_SIZE \<longrightarrow>
        full_fast E key nonce f s = small_blocks_path E key nonce f s) \<and>
   (\<forall>s. s \<le> ENC_BLOCK_SIZE \<longrightarrow> full_fast E key nonce f s = single_block_path E key nonce f s) \<and>
   (locate_metadata f0 = Inr (f, file_size, md) \<and> chunk_info E md = Inr (None, ek) \<and>
    parse_keydata E ek priv_key_data = Inr (key, nonce) \<longrightarrow>
      decrypt_file fuel E f0 priv_key_data =
        (case full_fast E key nonce f file_size of
           Inl (e, f') \<Rightarrow> Some (Raise e, f')
         | Inr (f', file_size') \<Rightarrow> Some (remove_footer f' file_size')))"
proof -
  have a: "\<forall>s. MIN_BIG_FILE_SIZE \<le> s \<longrightarrow> full_fast E key nonce f s = fast_path E key nonce f s"
    by (simp add: full_fast_def)
  have b: "\<forall>s. ENC_BLOCK_SIZE < s \<and> s < MIN_BIG_FILE_SIZE \<longrightarrow>
        full_fast E key nonce f s = small_blocks_path E key nonce f s"
    by (simp add: full_fast_def)
  have c: "\<forall>s. s \<le> ENC_BLOCK_SIZE \<longrightarrow> full_fast E key nonce f s = single_block_path E key nonce f s"
    by (simp add: full_fast_def MIN_BIG_FILE_SIZE_def ENC_BLOCK_SIZE_def)
  have d: "locate_metadata f0 = Inr (f, file_size, md) \<and> chunk_info E md = Inr (None, ek) \<and>
    parse_keydata E ek priv_key_data = Inr (key, nonce) \<longrightarrow>
      decrypt_file fuel E f0 priv_key_data =
        (case full_fast E key nonce f file_size of
           Inl (e, f') \<Rightarrow> Some (Raise e, f')
         | Inr (f', file_size') \<Rightarrow> Some (remove_footer f' file_size'))"
    by (simp add: decrypt_file_full_fast)
  have e: "full_fast E key nonce f MIN_BIG_FILE_SIZE = fast_path E key nonce f MIN_BIG_FILE_SIZE"
    using a by simp
  have g: "full_fast E key nonce f (MIN_BIG_FILE_SIZE - 1)
     = small_blocks_path E key nonce f (MIN_BIG_FILE_SIZE - 1)"
    using b by (simp add: MIN_BIG_FILE_SIZE_def ENC_BLOCK_SIZE_def)
  have h: "full_fast E key nonce f ENC_BLOCK_SIZE = single_block_path E key nonce f ENC_BLOCK_SIZE"
    using c by simp
  have i: "MIN_BIG_FILE_SIZE = 0x1F4000" "ENC_BLOCK_SIZE = 0x7D000"
    by (simp_all add: MIN_BIG_FILE_SIZE_def ENC_BLOCK_SIZE_def)
  from a b c d e g h i show ?thesis by (intro conjI)
qed

lemma gcm_xor_toy: "gcm_xor toy_env key nonce data = map (\<lambda>b. b XOR 0x5A) data"
  by (rule nth_equalityI) (simp_all add: gcm_xor_def toy_env_def)

lemma single_block_file_split:
  "single_block_file = replicate 250 0 @ METADATA_MARKER @ single_block_metadata"
  by (simp add: single_block_file_def single_block_metadata_def)

lemma len_single_block_metadata: "length single_block_metadata = 56"
  by (simp add: single_block_metadata_def marker_values)

lemma len_single_block_file: "length single_block_file = 311"
  by (simp add: single_block_file_split len_single_block_metadata marker_values)

lemma single_block_locate:
  "locate_metadata single_block_file = Inr (single_block_file, 250, single_block_metadata)"
proof -
  have e: "\<not> ends_with_marker2 single_block_file"
    by (simp add: ends_with_marker2_def len_marker2 len_single_block_file)
       (simp add: single_block_file_def marker_values METADATA_MARKER2_def ascii_def)
  have w: "metadata_window single_block_file
             = replicate 239 0 @ METADATA_MARKER @ single_block_metadata"
    by (simp add: metadata_window_def len_single_block_file MAX_METADATA_SIZE_def)
       (simp add: single_block_file_split)
  have f: "find_from (replicate 239 0 @ METADATA_MARKER @ single_block_metadata)
             METADATA_MARKER 0 = Some (length (replicate 239 (0::byte)))"
    by (rule find_from_after_prefix) (simp_all add: marker_values)
  show ?thesis
    by (simp add: locate_metadata_no_marker2 [OF e] w f len_single_block_file len_marker2
          MIN_METADATA_SIZE_def RCRU_RSA_KEY_SIZE_def MAX_METADATA_SIZE_def)
       (simp add: marker_values)
qed

lemma single_block_chunk_info:
  "chunk_info toy_env single_block_metadata = Inr (None, single_block_metadata)"
proof -
  have "find_from single_block_metadata CHUNK_INFO_MARKER1 0 = None"
    by (rule find_from_absent) (simp_all add: marker_values single_block_metadata_def)
  then show ?thesis by (simp add: chunk_info_def)
qed

lemma single_block_keydata:
  "parse_keydata toy_env single_block_metadata [] = Inr (replicate 32 7, replicate 12 9)"
proof -
  have 1: "find_from single_block_metadata KEYDATA_MARKER1 0 = Some 0"
    by (subst find_from.simps) (simp add: single_block_metadata_def marker_values)
  have 2: "find_from ((KEYDATA_MARKER1 @ replicate 32 7) @ KEYDATA_MARKER2 @ replicate 12 9 @
             KEYDATA_MARKER3) KEYDATA_MARKER2 4 = Some (length (KEYDATA_MARKER1 @ replicate 32 7))"
    by (rule find_from_after_prefix) (simp_all add: marker_values)
  have 3: "find_from ((KEYDATA_MARKER1 @ replicate 32 7 @ KEYDATA_MARKER2 @ replicate 12 9) @
             KEYDATA_MARKER3) KEYDATA_MARKER3 40
           = Some (length (KEYDATA_MARKER1 @ replicate 32 7 @ KEYDATA_MARKER2 @ replicate 12 9))"
    by (rule find_from_after_prefix) (simp_all add: marker_values)
  have k2: "find_from single_block_metadata KEYDATA_MARKER2 4 = Some 36"
    using 2 by (simp add: single_block_metadata_def marker_values)
  have k3: "find_from single_block_metadata KEYDATA_MARKER3 40 = Some 52"
    using 3 by (simp add: single_block_metadata_def marker_values)
  have k: "slice single_block_metadata 4 36 = replicate 32 7"
    by (simp add: slice_def single_block_metadata_def marker_values)
  have n: "slice single_block_metadata 40 52 = replicate 12 9"
    by (simp add: slice_def single_block_metadata_def marker_values)
  have l: "length KEYDATA_MARKER1 = 4" "length KEYDATA_MARKER2 = 4"
    by (simp_all add: marker_values)
  show ?thesis
    by (simp add: parse_keydata_def toy_env_def 1 l k2 k3 k n Let_def)
qed

lemma single_block_full_fast:
  "full_fast toy_env (replicate 32 7) (replicate 12 9) single_block_file 250
     = Inr (replicate 234 0x5A @ replicate 16 0 @ METADATA_MARKER @ single_block_metadata, 250)"
proof -
  let ?f' = "replicate 234 0x5A @ replicate 16 0 @ METADATA_MARKER @ single_block_metadata"
  have r: "read_at single_block_file 0 234 = Inr (replicate 234 0)"
    by (simp add: read_at_def single_block_file_split)
  have g: "gcm_decrypt toy_env (replicate 32 7) (replicate 12 9) (replicate 234 0)
             = Inr (replicate 234 0x5A)"
    by (simp add: gcm_decrypt_def gcm_xor_toy)
  have w: "write_at single_block_file 0 (replicate 234 0x5A) = ?f'"
    by (simp add: write_at_def single_block_file_split)
  have s: "full_small_single toy_env (replicate 32 7) (replicate 12 9) single_block_file 250
             = (None, ?f')"
    by (simp add: full_small_single_def AES_BLOCK_SIZE_def FULL_ENC_NONCE_SIZE2_def r g w)
  have l: "longest [SMALL_FILE_END_MARKER1, SMALL_FILE_END_MARKER2] = SMALL_FILE_END_MARKER1"
    by (simp add: marker_values)
  have len1: "length SMALL_FILE_END_MARKER1 = 16" by (simp add: marker_values)
  have len2: "length SMALL_FILE_END_MARKER2 = 14" by (simp add: marker_values)
  have t: "read_at ?f' 234 16 = Inr (replicate 16 0)"
    by (simp add: read_at_def)
  have n1: "find_from (replicate 16 0) SMALL_FILE_END_MARKER1 0 = None"
    by (rule find_from_absent) (simp_all add: marker_values)
  have n2: "find_from (replicate 16 0) SMALL_FILE_END_MARKER2 0 = None"
    by (rule find_from_absent) (simp_all add: marker_values)
  have m: "remove_end_marker ?f' 250 [SMALL_FILE_END_MARKER1, SMALL_FILE_END_MARKER2] = Inr 250"
    by (simp add: remove_end_marker_def Let_def len1 len2 t n1 n2)
  show ?thesis
    by (simp add: full_fast_def MIN_BIG_FILE_SIZE_def ENC_BLOCK_SIZE_def single_block_path_def s m)
qed

text \<open>
  The sizes at and next to the two constants, and a run of \<open>decrypt_file\<close> on the
  311-byte file through the single-block path.
\<close>

theorem mode_selection_tiers_witness:
  "full_fast toy_env [] [] [] 0x1F4000 = fast_path toy_env [] [] [] 0x1F4000 \<and>
   full_fast toy_env [] [] [] 0x1F3FFF = small_blocks_path toy_env [] [] [] 0x1F3FFF \<and>
   full_fast toy_env [] [] [] 0x7D001 = small_blocks_path toy_env [] [] [] 0x7D001 \<and>
   full_fast toy_env [] [] [] 0x7D000 = single_block_path toy_env [] [] [] 0x7D000 \<and>
   decrypt_file 0 toy_env single_block_file []
     = Some (Return True, replicate 234 0x5A @ replicate 15 0)"
proof -
  note T = mode_selection_tiers [of toy_env "[]" "[]" "[]"]
  have 1: "full_fast toy_env [] [] [] 0x1F4000 = fast_path toy_env [] [] [] 0x1F4000"
    using T [THEN conjunct2, THEN conjunct2, THEN conjunct1] by (simp add: MIN_BIG_FILE_SIZE_def)
  have 2: "full_fast toy_env [] [] [] 0x1F3FFF = small_blocks_path toy_env [] [] [] 0x1F3FFF"
    using T [THEN conjunct2, THEN conjunct2, THEN conjunct2, THEN conjunct1]
    by (simp add: MIN_BIG_FILE_SIZE_def)
  have 3: "full_fast toy_env [] [] [] 0x7D001 = small_blocks_path toy_env [] [] [] 0x7D001"
    by (rule T [THEN conjunct2, THEN conjunct2, THEN conjunct2, THEN conjunct2, THEN conjunct2,
                 THEN conjunct2, THEN conjunct1, rule_format])
       (simp add: MIN_BIG_FILE_SIZE_def ENC_BLOCK_SIZE_def)
  have 4: "full_fast toy_env [] [] [] 0x7D000 = single_block_path toy_env [] [] [] 0x7D000"
    using T [THEN conjunct2, THEN conjunct2, THEN conjunct2, THEN conjunct2, THEN conjunct1]
    by (simp add: ENC_BLOCK_SIZE_def)
  have "decrypt_file 0 toy_env single_block_file [] =
        (case full_fast toy_env (replicate 32 7) (replicate 12 9) single_block_file 250 of
           Inl (e, f') \<Rightarrow> Some (Raise e, f')
         | Inr (f', file_size') \<Rightarrow> Some (remove_footer f' file_size'))"
    by (rule mode_selection_tiers [where E = toy_env and f0 = single_block_file
               and f = single_block_file and md = single_block_metadata
               and ek = single_block_metadata and key = "replicate 32 7"
               and nonce = "replicate 12 9" and file_size = 250,
               THEN conjunct2, THEN conjunct2, THEN conjunct2,
               THEN conjunct2, THEN conjunct2, THEN conjunct2, THEN conjunct2, THEN conjunct2,
               rule_format])
       (simp add: single_block_locate single_block_chunk_info single_block_keydata)
  then have 5: "decrypt_file 0 toy_env single_block_file []
     = Some (Return True, replicate 234 0x5A @ replicate 15 0)"
    by (simp add: single_block_full_fast remove_footer_def truncate_to_def ADDITIONAL_DATA_SIZE_def)
  from 1 2 3 4 5 show ?thesis by simp
qed

subsection \<open>RCRU64: fast encryption touches two regions\<close>

lemma gcm_xor_length [simp]: "length (gcm_xor E key nonce data) = length data"
  by (simp add: gcm_xor_def)

lemma nonempty_of_length: "length xs = numeral k \<Longrightarrow> xs \<noteq> []"
  by auto

lemma gcm_decrypt_ok:
  assumes "length key = 16 \<or> length key = 24 \<or> length key = 32" and "nonce \<noteq> []"
  shows "gcm_decrypt E key nonce data = Inr (gcm_xor E key nonce data)"
  using assms by (auto simp: gcm_decrypt_def)

lemma fast_sizes:
  assumes "MIN_BIG_FILE_SIZE \<le> enc_size"
  shows "head_size enc_size = 184984" and "tail_size = 511984"
    and "tail_pos enc_size = nat enc_size - 512000" and "512000 \<le> nat enc_size"
    and "2048000 \<le> nat enc_size"
    and "min enc_size (FIRST_ENC_BLOCK_SIZE - AES_BLOCK_SIZE) = 184984"
    and "min enc_size (ENC_BLOCK_SIZE - AES_BLOCK_SIZE) = 511984"
    and "enc_size - ENC_BLOCK_SIZE = int (nat enc_size - 512000)"
  using assms
  by (simp_all add: head_size_def tail_size_def tail_pos_def MIN_BIG_FILE_SIZE_def
        FIRST_ENC_BLOCK_SIZE_def AES_BLOCK_SIZE_def ENC_BLOCK_SIZE_def)

lemma fast_big_file_result:
  assumes big: "MIN_BIG_FILE_SIZE \<le> enc_size" and len: "enc_size \<le> int (length f)"
    and key: "length key = 16 \<or> length key = 24 \<or> length key = 32"
    and nonce: "nonce \<noteq> []" and fnonce: "FAST_ENC_NONCE E \<noteq> []"
  shows "fast_big_file E key nonce f enc_size = (None, fast_result E key nonce f enc_size)"
proof -
  define n where "n = nat enc_size"
  have n: "2048000 \<le> n" "n \<le> length f" "enc_size = int n"
    using big len by (simp_all add: n_def MIN_BIG_FILE_SIZE_def)
  let ?H = "184984 :: nat" and ?T = "511984 :: nat"
  let ?pos = "n - 512000"
  let ?head = "gcm_xor E key (take FAST_ENC_NONCE_SIZE nonce) (take ?H f)"
  let ?tail = "gcm_xor E key (FAST_ENC_NONCE E) (slice f ?pos (?pos + ?T))"
  have sz: "head_size enc_size = ?H" "tail_size = ?T" "tail_pos enc_size = ?pos"
    using fast_sizes [OF big] by (simp_all add: n_def)
  have r1: "read_at f 0 (min enc_size (FIRST_ENC_BLOCK_SIZE - AES_BLOCK_SIZE)) = Inr (take ?H f)"
    by (simp add: read_at_def fast_sizes(6) [OF big])
  have n32: "take FAST_ENC_NONCE_SIZE nonce \<noteq> []"
    using nonce by (simp add: FAST_ENC_NONCE_SIZE_def)
  have g1: "gcm_decrypt E key (take FAST_ENC_NONCE_SIZE nonce) (take ?H f) = Inr ?head"
    using key n32 by (rule gcm_decrypt_ok)
  have lh: "length ?head = ?H" using n by simp
  have hne: "?head \<noteq> []" using lh by (rule nonempty_of_length)
  have w1: "write_at f 0 ?head = ?head @ drop ?H f"
    using hne lh by (simp add: write_at_def)
  have d: "drop ?pos (?head @ drop ?H f) = drop ?pos f"
    using lh n by (simp add: drop_append)
  have r2: "read_at (?head @ drop ?H f) (enc_size - ENC_BLOCK_SIZE)
              (min enc_size (ENC_BLOCK_SIZE - AES_BLOCK_SIZE)) = Inr (slice f ?pos (?pos + ?T))"
    using d by (simp add: read_at_def fast_sizes(7,8) [OF big] slice_def n_def)
  have g2: "gcm_decrypt E key (FAST_ENC_NONCE E) (slice f ?pos (?pos + ?T)) = Inr ?tail"
    using key fnonce by (rule gcm_decrypt_ok)
  have lt: "length ?tail = ?T" using n by (simp add: slice_def)
  have tne: "?tail \<noteq> []" using lt by (rule nonempty_of_length)
  have tk: "take ?pos (?head @ drop ?H f) = ?head @ slice f ?H ?pos"
    using lh n by (simp add: slice_def)
  have dr: "drop (?pos + ?T) (?head @ drop ?H f) = drop (?pos + ?T) f"
    using lh n by (simp add: drop_append)
  have ln: "?pos - length (?head @ drop ?H f) = 0" using lh n by simp
  have w2: "write_at (?head @ drop ?H f) ?pos ?tail
          = ?head @ slice f ?H ?pos @ ?tail @ drop (?pos + ?T) f"
    unfolding write_at_def using tne by (simp only: if_False tk dr ln lt replicate_0 append_Nil append_assoc)
  have p: "nat (enc_size - ENC_BLOCK_SIZE) = ?pos"
    using fast_sizes(8) [OF big] by (simp add: n_def)
  show ?thesis
    unfolding fast_big_file_def fast_result_def sz
    by (simp only: r1 g1 w1 Let_def r2 g2 p w2 sum.case)
qed

lemma fast_result_frame:
  assumes big: "MIN_BIG_FILE_SIZE \<le> enc_size" and len: "enc_size \<le> int (length f)"
  shows "length (fast_result E key nonce f enc_size) = length f"
    and "take (head_size enc_size) (fast_result E key nonce f enc_size)
           = gcm_xor E key (take FAST_ENC_NONCE_SIZE nonce) (take (head_size enc_size) f)"
    and "slice (fast_result E key nonce f enc_size) (tail_pos enc_size)
           (tail_pos enc_size + tail_size)
           = gcm_xor E key (FAST_ENC_NONCE E)
               (slice f (tail_pos enc_size) (tail_pos enc_size + tail_size))"
    and "\<forall>i. head_size enc_size \<le> i \<and> i < tail_pos enc_size \<longrightarrow>
           fast_result E key nonce f enc_size ! i = f ! i"
    and "\<forall>i. tail_pos enc_size + tail_size \<le> i \<and> i < length f \<longrightarrow>
           fast_result E key nonce f enc_size ! i = f ! i"
proof -
  define n where "n = nat enc_size"
  have n: "2048000 \<le> n" "n \<le> length f"
    using big len by (simp_all add: n_def MIN_BIG_FILE_SIZE_def)
  define H where "H = (184984 :: nat)"
  define T where "T = (511984 :: nat)"
  define pos where "pos = n - 512000"
  have sz: "head_size enc_size = H" "tail_size = T" "tail_pos enc_size = pos"
    using fast_sizes [OF big] by (simp_all add: n_def H_def T_def pos_def)
  have ord: "H \<le> pos" "pos + T \<le> length f" "H \<le> length f"
    using n by (simp_all add: H_def T_def pos_def)
  define A where "A = gcm_xor E key (take FAST_ENC_NONCE_SIZE nonce) (take H f)"
  define B where "B = slice f H pos"
  define C where "C = gcm_xor E key (FAST_ENC_NONCE E) (slice f pos (pos + T))"
  define D where "D = drop (pos + T) f"
  have fr: "fast_result E key nonce f enc_size = A @ B @ C @ D"
    by (simp add: fast_result_def sz A_def B_def C_def D_def)
  have lA: "length A = H" using ord by (simp add: A_def)
  have lB: "length B = pos - H" using ord by (simp add: B_def slice_def)
  have lC: "length C = T" using ord by (simp add: C_def slice_def)
  have lD: "length D = length f - (pos + T)" by (simp add: D_def)
  show "length (fast_result E key nonce f enc_size) = length f"
    using ord by (simp add: fr lA lB lC lD)
  show "take (head_size enc_size) (fast_result E key nonce f enc_size)
           = gcm_xor E key (take FAST_ENC_NONCE_SIZE nonce) (take (head_size enc_size) f)"
    by (simp add: fr sz lA) (simp add: A_def)
  have "drop pos (A @ B @ C @ D) = C @ D"
    using ord lA lB by simp
  then have "take T (drop pos (A @ B @ C @ D)) = C" using lC by simp
  then show "slice (fast_result E key nonce f enc_size) (tail_pos enc_size)
           (tail_pos enc_size + tail_size)
           = gcm_xor E key (FAST_ENC_NONCE E)
               (slice f (tail_pos enc_size) (tail_pos enc_size + tail_size))"
    by (simp add: fr sz slice_def) (simp add: C_def slice_def)
  show "\<forall>i. head_size enc_size \<le> i \<and> i < tail_pos enc_size \<longrightarrow>
           fast_result E key nonce f enc_size ! i = f ! i"
  proof (intro allI impI)
    fix i assume "head_size enc_size \<le> i \<and> i < tail_pos enc_size"
    then have i: "H \<le> i" "i < pos" by (simp_all add: sz)
    have "i - H < pos - H" using i by arith
    then have "(A @ B @ C @ D) ! i = B ! (i - H)"
      using i lA lB by (simp add: nth_append)
    also have "\<dots> = f ! i" using i ord by (simp add: B_def slice_def)
    finally show "fast_result E key nonce f enc_size ! i = f ! i" by (simp add: fr)
  qed
  show "\<forall>i. tail_pos enc_size + tail_size \<le> i \<and> i < length f \<longrightarrow>
           fast_result E key nonce f enc_size ! i = f ! i"
  proof (intro allI impI)
    fix i assume "tail_pos enc_size + tail_size \<le> i \<and> i < length f"
    then have i: "pos + T \<le> i" "i < length f" by (simp_all add: sz)
    have "(A @ B @ C @ D) ! i = ((A @ B @ C) @ D) ! i" by simp
    also have "\<dots> = D ! (i - length (A @ B @ C))"
      using i ord lA lB lC by (subst nth_append) simp
    also have "\<dots> = D ! (i - (pos + T))"
      using ord lA lB lC by simp
    finally have "(A @ B @ C @ D) ! i = D ! (i - (pos + T))" .
    also have "\<dots> = f ! i" using i by (simp add: D_def)
    finally show "fast_result E key nonce f enc_size ! i = f ! i" by (simp only: fr)
  qed
qed

lemma find_from_Some:
  "find_from b sub i = Some p \<Longrightarrow> i \<le> p \<and> p + length sub \<le> length b"
proof (induction b sub i rule: find_from.induct)
  case (1 b sub i)
  show ?case
  proof (cases "length b < i + length sub")
    case True
    with 1(2) show ?thesis by (subst (asm) find_from.simps) simp
  next
    case False
    show ?thesis
    proof (cases "take (length sub) (drop i b) = sub")
      case True
      with False 1(2) show ?thesis by (subst (asm) find_from.simps) simp
    next
      case ne: False
      with False 1(2) have "find_from b sub (i + 1) = Some p"
        by (subst (asm) find_from.simps) simp
      with 1(1) [OF False ne] show ?thesis by simp
    qed
  qed
qed

lemma locate_metadata_size:
  assumes "locate_metadata f0 = Inr (f, file_size, md)"
  shows "0 \<le> file_size \<and> file_size \<le> int (length f)"
proof (cases "ends_with_marker2 f0")
  case True
  from assms show ?thesis
    unfolding locate_metadata_marker2 [OF True]
    by (auto split: if_splits option.splits dest!: find_from_Some
          simp: metadata_window_def MAX_METADATA_SIZE_def)
next
  case False
  from assms show ?thesis
    unfolding locate_metadata_no_marker2 [OF False]
    by (auto split: if_splits option.splits dest!: find_from_Some
          simp: metadata_window_def MAX_METADATA_SIZE_def)
qed

lemma remove_footer_take:
  assumes "1 \<le> file_size" and "file_size \<le> int (length f)"
  shows "remove_footer f file_size = (Return True, take (nat (file_size - 1)) f)"
  using assms by (simp add: remove_footer_def truncate_to_def ADDITIONAL_DATA_SIZE_def)

lemma decrypt_file_fast:
  assumes loc: "locate_metadata f0 = Inr (f, file_size, md)"
    and ci: "chunk_info E md = Inr (None, ek)"
    and kd: "parse_keydata E ek priv_key_data = Inr (key, nonce)"
    and big: "MIN_BIG_FILE_SIZE \<le> file_size"
    and key: "length key = 16 \<or> length key = 24 \<or> length key = 32"
    and nonce: "nonce \<noteq> []" and fnonce: "FAST_ENC_NONCE E \<noteq> []"
  shows "decrypt_file fuel E f0 priv_key_data =
           Some (Return True, take (nat (file_size - 1)) (fast_result E key nonce f file_size))"
proof -
  have len: "file_size \<le> int (length f)" using locate_metadata_size [OF loc] by simp
  have fb: "fast_big_file E key nonce f file_size = (None, fast_result E key nonce f file_size)"
    using big len key nonce fnonce by (rule fast_big_file_result)
  have ff: "full_fast E key nonce f file_size = Inr (fast_result E key nonce f file_size, file_size)"
    using big by (simp add: full_fast_def fast_path_def fb)
  have lr: "file_size \<le> int (length (fast_result E key nonce f file_size))"
    using len by (simp add: fast_result_frame(1) [OF big len])
  have one: "1 \<le> file_size" using big by (simp add: MIN_BIG_FILE_SIZE_def)
  show ?thesis
    by (simp add: decrypt_file_full_fast [OF loc ci kd] ff remove_footer_take [OF one lr])
qed

text \<open>
  C2. When the adjusted size of the plaintext region is at least \<open>MIN_BIG_FILE_SIZE\<close>,
  \<open>fast_big_file\<close> decrypts two regions and nothing else: the first
  \<open>min(enc_size, 0x2D2A8 - 16)\<close> bytes under the first 32 bytes of the blob's nonce, and
  \<open>0x7D000 - 16\<close> bytes from \<open>enc_size - 0x7D000\<close> on under \<open>FAST_ENC_NONCE\<close>. Every byte
  between the end of the head and the start of the tail, and every byte after the tail, is
  the byte of the input. \<open>decrypt_file\<close> returns \<open>True\<close> with this file cut to
  \<open>file_size - 1\<close> bytes. The key has a length AES accepts and the two nonces are not empty:
  otherwise the cipher is not constructed.
\<close>

theorem fast_big_file_two_regions:
  "(MIN_BIG_FILE_SIZE \<le> enc_size \<and> enc_size \<le> int (length f) \<and>
    (length key = 16 \<or> length key = 24 \<or> length key = 32) \<and>
    nonce \<noteq> [] \<and> FAST_ENC_NONCE E \<noteq> [] \<longrightarrow>
      fast_big_file E key nonce f enc_size = (None, fast_result E key nonce f enc_size) \<and>
      head_size enc_size = nat (min enc_size (0x2D2A8 - 16)) \<and>
      tail_size = 0x7D000 - 16 \<and>
      tail_pos enc_size = nat (enc_size - 0x7D000) \<and>
      length (fast_result E key nonce f enc_size) = length f \<and>
      take (head_size enc_size) (fast_result E key nonce f enc_size)
        = gcm_xor E key (take 32 nonce) (take (head_size enc_size) f) \<and>
      slice (fast_result E key nonce f enc_size) (tail_pos enc_size)
          (tail_pos enc_size + tail_size)
        = gcm_xor E key (FAST_ENC_NONCE E)
            (slice f (tail_pos enc_size) (tail_pos enc_size + tail_size)) \<and>
      (\<forall>i. head_size enc_size \<le> i \<and> i < tail_pos enc_size \<longrightarrow>
           fast_result E key nonce f enc_size ! i = f ! i) \<and>
      (\<forall>i. tail_pos enc_size + tail_size \<le> i \<and> i < length f \<longrightarrow>
           fast_result E key nonce f enc_size ! i = f ! i)) \<and>
   (locate_metadata f0 = Inr (f, file_size, md) \<and> chunk_info E md = Inr (None, ek) \<and>
    parse_keydata E ek priv_key_data = Inr (key, nonce) \<and>
    MIN_BIG_FILE_SIZE \<le> file_size \<and>
    (length key = 16 \<or> length key = 24 \<or> length key = 32) \<and>
    nonce \<noteq> [] \<and> FAST_ENC_NONCE E \<noteq> [] \<longrightarrow>
      decrypt_file fuel E f0 priv_key_data =
        Some (Return True, take (nat (file_size - 1)) (fast_result E key nonce f file_size)))"
proof (intro conjI impI)
  assume a: "MIN_BIG_FILE_SIZE \<le> enc_size \<and> enc_size \<le> int (length f) \<and>
    (length key = 16 \<or> length key = 24 \<or> length key = 32) \<and>
    nonce \<noteq> [] \<and> FAST_ENC_NONCE E \<noteq> []"
  then have big: "MIN_BIG_FILE_SIZE \<le> enc_size" and len: "enc_size \<le> int (length f)"
    by simp_all
  from a show "fast_big_file E key nonce f enc_size = (None, fast_result E key nonce f enc_size)"
    by (intro fast_big_file_result) simp_all
  show "head_size enc_size = nat (min enc_size (0x2D2A8 - 16))"
    by (simp add: head_size_def FIRST_ENC_BLOCK_SIZE_def AES_BLOCK_SIZE_def)
  show "tail_size = 0x7D000 - 16"
    by (simp add: tail_size_def ENC_BLOCK_SIZE_def AES_BLOCK_SIZE_def)
  show "tail_pos enc_size = nat (enc_size - 0x7D000)"
    by (simp add: tail_pos_def ENC_BLOCK_SIZE_def)
  show "length (fast_result E key nonce f enc_size) = length f"
    by (rule fast_result_frame(1) [OF big len])
  show "take (head_size enc_size) (fast_result E key nonce f enc_size)
        = gcm_xor E key (take 32 nonce) (take (head_size enc_size) f)"
    using fast_result_frame(2) [OF big len, of E key nonce] by (simp add: FAST_ENC_NONCE_SIZE_def)
  show "slice (fast_result E key nonce f enc_size) (tail_pos enc_size)
          (tail_pos enc_size + tail_size)
        = gcm_xor E key (FAST_ENC_NONCE E)
            (slice f (tail_pos enc_size) (tail_pos enc_size + tail_size))"
    by (rule fast_result_frame(3) [OF big len])
  show "\<forall>i. head_size enc_size \<le> i \<and> i < tail_pos enc_size \<longrightarrow>
           fast_result E key nonce f enc_size ! i = f ! i"
    by (rule fast_result_frame(4) [OF big len])
  show "\<forall>i. tail_pos enc_size + tail_size \<le> i \<and> i < length f \<longrightarrow>
           fast_result E key nonce f enc_size ! i = f ! i"
    by (rule fast_result_frame(5) [OF big len])
next
  assume "locate_metadata f0 = Inr (f, file_size, md) \<and> chunk_info E md = Inr (None, ek) \<and>
    parse_keydata E ek priv_key_data = Inr (key, nonce) \<and>
    MIN_BIG_FILE_SIZE \<le> file_size \<and>
    (length key = 16 \<or> length key = 24 \<or> length key = 32) \<and>
    nonce \<noteq> [] \<and> FAST_ENC_NONCE E \<noteq> []"
  then show "decrypt_file fuel E f0 priv_key_data =
        Some (Return True, take (nat (file_size - 1)) (fast_result E key nonce f file_size))"
    by (intro decrypt_file_fast [where md = md and ek = ek]) simp_all
qed

lemma len_big_file: "length big_file = 2048061"
  by (simp add: big_file_def len_single_block_metadata marker_values)

lemma big_file_locate: "locate_metadata big_file = Inr (big_file, 2048000, single_block_metadata)"
proof -
  have e: "\<not> ends_with_marker2 big_file"
    by (simp add: ends_with_marker2_def len_marker2 len_big_file)
       (simp add: big_file_def single_block_metadata_def marker_values METADATA_MARKER2_def
          ascii_def)
  have w: "metadata_window big_file
             = replicate 239 0 @ METADATA_MARKER @ single_block_metadata"
    by (simp add: metadata_window_def len_big_file MAX_METADATA_SIZE_def)
       (simp add: big_file_def)
  have f: "find_from (replicate 239 0 @ METADATA_MARKER @ single_block_metadata)
             METADATA_MARKER 0 = Some (length (replicate 239 (0::byte)))"
    by (rule find_from_after_prefix) (simp_all add: marker_values)
  show ?thesis
    by (simp add: locate_metadata_no_marker2 [OF e] w f len_big_file len_marker2
          MIN_METADATA_SIZE_def RCRU_RSA_KEY_SIZE_def MAX_METADATA_SIZE_def)
       (simp add: marker_values)
qed

lemma toy_fast_nonce: "FAST_ENC_NONCE toy_env = [1]"
  by (simp add: toy_env_def)

lemma big_file_fast_result:
  "fast_result toy_env (replicate 32 7) (replicate 12 9) big_file 2048000
     = replicate 184984 0x5A @ replicate 1351016 0 @ replicate 511984 0x5A @ replicate 16 0 @
       METADATA_MARKER @ single_block_metadata"
proof -
  have sz: "head_size 2048000 = 184984" "tail_size = 511984" "tail_pos 2048000 = 1536000"
    by (simp_all add: head_size_def tail_size_def tail_pos_def FIRST_ENC_BLOCK_SIZE_def
          AES_BLOCK_SIZE_def ENC_BLOCK_SIZE_def)
  show ?thesis
    by (simp add: fast_result_def sz gcm_xor_toy slice_def big_file_def)
qed

text \<open>
  A file of 2048000 zero bytes and its metadata, with the constant key stream \<open>0x5A\<close>:
  the head and the tail come out as \<open>0x5A\<close>, the 1351016 bytes between them and the 16
  bytes after the tail stay zero.
\<close>

theorem fast_big_file_two_regions_witness:
  "fast_big_file toy_env (replicate 32 7) (replicate 12 9) big_file 2048000
     = (None, replicate 184984 0x5A @ replicate 1351016 0 @ replicate 511984 0x5A @
              replicate 16 0 @ METADATA_MARKER @ single_block_metadata) \<and>
   decrypt_file 0 toy_env big_file []
     = Some (Return True, replicate 184984 0x5A @ replicate 1351016 0 @
                          replicate 511984 0x5A @ replicate 15 0) \<and>
   length big_file = 2048061"
proof -
  have h: "MIN_BIG_FILE_SIZE \<le> 2048000 \<and> 2048000 \<le> int (length big_file) \<and>
    (length (replicate 32 (7::byte)) = 16 \<or> length (replicate 32 (7::byte)) = 24 \<or>
     length (replicate 32 (7::byte)) = 32) \<and>
    replicate 12 (9::byte) \<noteq> [] \<and> FAST_ENC_NONCE toy_env \<noteq> []"
    by (simp add: MIN_BIG_FILE_SIZE_def len_big_file toy_fast_nonce)
  have 1: "fast_big_file toy_env (replicate 32 7) (replicate 12 9) big_file 2048000
     = (None, fast_result toy_env (replicate 32 7) (replicate 12 9) big_file 2048000)"
    using fast_big_file_two_regions [where E = toy_env and key = "replicate 32 7"
        and nonce = "replicate 12 9" and f = big_file and enc_size = 2048000,
        THEN conjunct1] h
    by blast
  have "decrypt_file 0 toy_env big_file [] =
        Some (Return True, take (nat (2048000 - 1))
               (fast_result toy_env (replicate 32 7) (replicate 12 9) big_file 2048000))"
    by (rule fast_big_file_two_regions [where md = single_block_metadata
          and ek = single_block_metadata, THEN conjunct2, rule_format])
       (simp add: big_file_locate single_block_chunk_info single_block_keydata
          MIN_BIG_FILE_SIZE_def toy_fast_nonce)
  then have 2: "decrypt_file 0 toy_env big_file []
     = Some (Return True, replicate 184984 0x5A @ replicate 1351016 0 @
                          replicate 511984 0x5A @ replicate 15 0)"
    by (simp add: big_file_fast_result)
  from 1 2 show ?thesis by (simp add: big_file_fast_result len_big_file)
qed

subsection \<open>RCRU64: the nonce of every chunk\<close>

lemma length_rnd64data [simp]: "length (rnd64data st) = 8"
  by (simp add: rnd64data_def to_bytes8_big_def Let_def split: prod.splits)

lemma sequencer_output_Suc: "sequencer_output (Suc k) = rnd64data (sequencer_output k)"
  by (simp add: sequencer_output_def)

lemma sequencer_output_0: "sequencer_output 0 = RND64_INIT_STATE_DATA"
  by (simp add: sequencer_output_def)

lemma chunk_nonce_Suc:
  "chunk_nonce (Suc k) = sequencer_output (Suc k) @ drop 4 (sequencer_output (Suc k))"
  by (simp add: chunk_nonce_def sequencer_output_Suc)

lemma decrypt_next_chunks_spec:
  "decrypt_next_chunks fuel E key enc_size chunk_size chunk_step (int (Suc k) * chunk_step)
     (sequencer_output k) f
   = spec_next_chunks fuel E key enc_size chunk_size chunk_step (Suc k) f"
proof (induction fuel arbitrary: k f)
  case 0
  show ?case by simp
next
  case (Suc n)
  have nx: "int (Suc k) * chunk_step + chunk_step = int (Suc (Suc k)) * chunk_step"
    by (simp add: algebra_simps)
  show ?case
    by (simp add: Let_def chunk_nonce_Suc sequencer_output_Suc [symmetric] nx
          Suc.IH del: of_nat_Suc split: sum.split)
qed

lemma decrypt_next_blocks_fuel:
  "nat (enc_size - pos) < fuel \<Longrightarrow>
   decrypt_next_chunks fuel E key enc_size ENC_BLOCK_SIZE ENC_BLOCK_SIZE pos st f
     = Some (decrypt_next_blocks E key enc_size pos st f)"
proof (induction E key enc_size pos st f arbitrary: fuel rule: decrypt_next_blocks.induct)
  case (1 E key enc_size pos st f)
  from 1(2) obtain n where fuel: "fuel = Suc n" by (cases fuel) auto
  show ?case
  proof (cases "pos < enc_size")
    case False
    then show ?thesis by (simp add: fuel decrypt_next_blocks.simps)
  next
    case True
    have lt: "nat (enc_size - (pos + ENC_BLOCK_SIZE)) < n"
      using True 1(2) fuel by (simp add: ENC_BLOCK_SIZE_def)
    show ?thesis
    proof (cases "read_at f pos (min (enc_size - pos) ENC_BLOCK_SIZE)")
      case (Inl e)
      with True show ?thesis by (simp add: fuel decrypt_next_blocks.simps)
    next
      case (Inr enc_data)
      show ?thesis
      proof (cases "enc_data = []")
        case True
        with \<open>pos < enc_size\<close> Inr show ?thesis by (simp add: fuel decrypt_next_blocks.simps)
      next
        case ne: False
        let ?st = "rnd64data st"
        show ?thesis
        proof (cases "gcm_decrypt E key (?st @ drop 4 ?st) enc_data")
          case (Inl e)
          with \<open>pos < enc_size\<close> Inr ne show ?thesis
            by (simp add: fuel decrypt_next_blocks.simps Let_def)
        next
          case g: (Inr data)
          have "decrypt_next_chunks n E key enc_size ENC_BLOCK_SIZE ENC_BLOCK_SIZE
                  (pos + ENC_BLOCK_SIZE) ?st (write_at f (nat pos) data)
                = Some (decrypt_next_blocks E key enc_size (pos + ENC_BLOCK_SIZE) ?st
                          (write_at f (nat pos) data))"
            using True Inr ne g lt by (intro 1(1)) auto
          with \<open>pos < enc_size\<close> Inr ne g show ?thesis
            by (subst decrypt_next_blocks.simps) (simp add: fuel Let_def)
        qed
      qed
    qed
  qed
qed

lemma unat_byte_of: "unat (ucast (drop_bit n (v :: 64 word)) :: byte) = (unat v div 2 ^ n) mod 256"
proof -
  have "unat (ucast (drop_bit n v) :: byte) = take_bit 8 (unat (drop_bit n v))"
    by (simp only: unsigned_ucast_eq) simp
  also have "\<dots> = take_bit 8 (drop_bit n (unat v))"
    by (simp only: unat_drop_bit_eq)
  also have "\<dots> = (unat v div 2 ^ n) mod 256"
    by (simp add: take_bit_eq_mod drop_bit_eq_div)
  finally show ?thesis .
qed

lemma split_byte: "(n::nat) = n mod 256 + 256 * (n div 256)"
  by simp

lemma be_nat_to_bytes8_big: "be_nat (to_bytes8_big v) = unat v"
proof -
  define N where "N = unat v"
  have lt: "N < 2 ^ 64" unfolding N_def using unsigned_less [of v] by simp
  define n1 where "n1 = N div 256"
  define n2 where "n2 = n1 div 256"
  define n3 where "n3 = n2 div 256"
  define n4 where "n4 = n3 div 256"
  define n5 where "n5 = n4 div 256"
  define n6 where "n6 = n5 div 256"
  define n7 where "n7 = n6 div 256"
  have d: "N div 256 = n1" "N div 65536 = n2" "N div 16777216 = n3" "N div 4294967296 = n4"
    "N div 1099511627776 = n5" "N div 281474976710656 = n6" "N div 72057594037927936 = n7"
    by (simp_all add: n1_def n2_def n3_def n4_def n5_def n6_def n7_def div_mult2_eq [symmetric])
  have n7: "n7 < 256" using lt d(7) [symmetric] by (simp add: less_mult_imp_div_less)
  have b0: "unat (ucast v :: byte) = N mod 256"
    using unat_byte_of [of 0 v] by (simp add: N_def)
  have s: "N = N mod 256 + 256 * n1" "n1 = n1 mod 256 + 256 * n2" "n2 = n2 mod 256 + 256 * n3"
    "n3 = n3 mod 256 + 256 * n4" "n4 = n4 mod 256 + 256 * n5" "n5 = n5 mod 256 + 256 * n6"
    "n6 = n6 mod 256 + 256 * n7" "n7 mod 256 = n7"
    using n7 by (simp_all add: n1_def n2_def n3_def n4_def n5_def n6_def n7_def)
  have "be_nat (to_bytes8_big v) =
        N mod 256 + 256 * (n1 mod 256 + 256 * (n2 mod 256 + 256 * (n3 mod 256 + 256 *
          (n4 mod 256 + 256 * (n5 mod 256 + 256 * (n6 mod 256 + 256 * (n7 mod 256)))))))"
    by (simp add: be_nat_def to_bytes8_big_def unat_byte_of N_def [symmetric] d b0)
  also have "\<dots> = N"
    using s by presburger
  finally show ?thesis by (simp add: N_def)
qed

lemma chunk_encryption_spec:
  "chunk_encryption fuel E key nonce f enc_size chunk_size chunk_step =
     (case read_at f 0 (min enc_size chunk_size) of
        Inl e \<Rightarrow> Some (Some e, f)
      | Inr enc_data \<Rightarrow>
          (case gcm_decrypt E key (take 12 nonce) enc_data of
             Inl e \<Rightarrow> Some (Some e, f)
           | Inr data \<Rightarrow>
               spec_next_chunks fuel E key enc_size chunk_size chunk_step 1 (write_at f 0 data)))"
  using decrypt_next_chunks_spec [of fuel E key enc_size chunk_size chunk_step 0]
  by (simp add: chunk_encryption_def CHUNK_ENC_NONCE_SIZE_def sequencer_output_0
        split: sum.split)

lemma full_small_blocks_spec:
  assumes "nat (file_size - 2 - ENC_BLOCK_SIZE) < fuel"
  shows "Some (full_small_blocks E key nonce f file_size) =
     (case read_at f 0 (min (file_size - 2) ENC_BLOCK_SIZE) of
        Inl e \<Rightarrow> Some (Some e, f)
      | Inr enc_data \<Rightarrow>
          (case gcm_decrypt E key (take 12 nonce) enc_data of
             Inl e \<Rightarrow> Some (Some e, f)
           | Inr data \<Rightarrow>
               spec_next_chunks fuel E key (file_size - 2) ENC_BLOCK_SIZE ENC_BLOCK_SIZE 1
                 (write_at f 0 data)))"
proof -
  have "\<And>g. Some (decrypt_next_blocks E key (file_size - 2) ENC_BLOCK_SIZE
                    RND64_INIT_STATE_DATA g)
        = spec_next_chunks fuel E key (file_size - 2) ENC_BLOCK_SIZE ENC_BLOCK_SIZE 1 g"
    using decrypt_next_blocks_fuel [OF assms, of E key RND64_INIT_STATE_DATA]
      decrypt_next_chunks_spec [of fuel E key "file_size - 2" ENC_BLOCK_SIZE ENC_BLOCK_SIZE 0]
    by (simp add: sequencer_output_0)
  then show ?thesis
    by (simp add: full_small_blocks_def ADDITIONAL_DATA_SIZE_def FULL_ENC_NONCE_SIZE1_def
          Let_def split: sum.split)
qed

lemma parse_keydata_blob:
  assumes "parse_keydata E ek priv_key_data = Inr (key, nonce)"
  shows "\<exists>blob p1 p2 p3.
     rsa_decrypt E ek priv_key_data = Some blob \<and>
     find_from blob KEYDATA_MARKER1 0 = Some p1 \<and>
     find_from blob KEYDATA_MARKER2 (p1 + length KEYDATA_MARKER1) = Some p2 \<and>
     find_from blob KEYDATA_MARKER3 (p2 + length KEYDATA_MARKER2) = Some p3 \<and>
     key = slice blob (p1 + length KEYDATA_MARKER1) p2 \<and>
     nonce = slice blob (p2 + length KEYDATA_MARKER2) p3"
  using assms
  by (auto simp: parse_keydata_def Let_def split: option.splits)

lemma decrypt_file_chunks:
  assumes "locate_metadata f0 = Inr (f, file_size, md)"
    and "chunk_info E md = Inr (Some (chunk_size, chunk_step, enc_size), ek)"
    and "parse_keydata E ek priv_key_data = Inr (key, nonce)"
  shows "decrypt_file fuel E f0 priv_key_data =
           (case chunk_encryption fuel E key nonce f enc_size chunk_size chunk_step of
              None \<Rightarrow> None
            | Some (Some e, f') \<Rightarrow> Some (Raise e, f')
            | Some (None, f') \<Rightarrow> Some (remove_footer f' file_size))"
  using assms by (simp add: decrypt_file_def)

lemma decrypt_file_small_blocks:
  assumes "locate_metadata f0 = Inr (f, file_size, md)"
    and "chunk_info E md = Inr (None, ek)"
    and "parse_keydata E ek priv_key_data = Inr (key, nonce)"
    and "ENC_BLOCK_SIZE < file_size" and "file_size < MIN_BIG_FILE_SIZE"
  shows "decrypt_file fuel E f0 priv_key_data =
           (case full_small_blocks E key nonce f file_size of
              (Some e, f') \<Rightarrow> Some (Raise e, f')
            | (None, f') \<Rightarrow>
                (case remove_end_marker f' file_size [SMALL_FILE_END_MARKER1] of
                   Inl e \<Rightarrow> Some (Raise e, f')
                 | Inr file_size' \<Rightarrow> Some (remove_footer f' file_size')))"
  using assms
  by (simp add: decrypt_file_full_fast [OF assms(1,2,3)] full_fast_def small_blocks_path_def
        split: prod.splits option.splits sum.splits)

text \<open>
  C1. In chunk encryption and in the multi-block mode of small files the first chunk is
  decrypted under the first twelve bytes of the nonce of the unwrapped key blob, and chunk
  \<open>k \<ge> 1\<close>, at \<open>k\<close> times the step, under \<open>chunk_nonce k\<close>: the loops of the source are
  the loop \<open>spec_next_chunks\<close> started at chunk 1. The sequencer starts from \<open>sxuojgdg\<close>,
  every step is one application of \<open>rnd64data\<close> to the previous output, the nonce has
  twelve bytes, the output followed by its last four, and \<open>rnd64data\<close> reads its state
  little-endian and writes its result big-endian. \<open>decrypt_file\<close> runs
  \<open>chunk_encryption\<close> when the metadata holds a chunk descriptor, and
  \<open>full_small_blocks\<close> when it holds none and the plaintext region is larger than
  \<open>ENC_BLOCK_SIZE\<close> and smaller than \<open>MIN_BIG_FILE_SIZE\<close>, in both cases with the key and
  the nonce that \<open>parse_keydata\<close> takes from the unwrapped key blob: the bytes between the
  first and the second marker, and the bytes between the second and the third.
\<close>

theorem chunk_nonce_sequence:
  "chunk_encryption fuel E key nonce f enc_size chunk_size chunk_step =
     (case read_at f 0 (min enc_size chunk_size) of
        Inl e \<Rightarrow> Some (Some e, f)
      | Inr enc_data \<Rightarrow>
          (case gcm_decrypt E key (take 12 nonce) enc_data of
             Inl e \<Rightarrow> Some (Some e, f)
           | Inr data \<Rightarrow>
               spec_next_chunks fuel E key enc_size chunk_size chunk_step 1
                 (write_at f 0 data))) \<and>
   (nat (file_size - 2 - ENC_BLOCK_SIZE) < fuel \<longrightarrow>
    Some (full_small_blocks E key nonce f file_size) =
     (case read_at f 0 (min (file_size - 2) ENC_BLOCK_SIZE) of
        Inl e \<Rightarrow> Some (Some e, f)
      | Inr enc_data \<Rightarrow>
          (case gcm_decrypt E key (take 12 nonce) enc_data of
             Inl e \<Rightarrow> Some (Some e, f)
           | Inr data \<Rightarrow>
               spec_next_chunks fuel E key (file_size - 2) ENC_BLOCK_SIZE ENC_BLOCK_SIZE 1
                 (write_at f 0 data)))) \<and>
   sequencer_output 0 = ascii ''sxuojgdg'' \<and>
   sequencer_output (Suc k) = rnd64data (sequencer_output k) \<and>
   length (sequencer_output (Suc k)) = 8 \<and>
   length (chunk_nonce (Suc k)) = 12 \<and>
   take 8 (chunk_nonce (Suc k)) = sequencer_output (Suc k) \<and>
   drop 8 (chunk_nonce (Suc k)) = drop 4 (sequencer_output (Suc k)) \<and>
   be_nat (rnd64data st)
     = unat (fst (rnd64_seed (of_nat (le_nat (take 8 st))) RND64_A1 RND64_A2)) \<and>
   (locate_metadata f0 = Inr (f, file_size, md) \<and>
    chunk_info E md = Inr (Some (chunk_size, chunk_step, enc_size), ek) \<and>
    parse_keydata E ek priv_key_data = Inr (key, nonce) \<longrightarrow>
      decrypt_file fuel E f0 priv_key_data =
        (case chunk_encryption fuel E key nonce f enc_size chunk_size chunk_step of
           None \<Rightarrow> None
         | Some (Some e, f') \<Rightarrow> Some (Raise e, f')
         | Some (None, f') \<Rightarrow> Some (remove_footer f' file_size))) \<and>
   (locate_metadata f0 = Inr (f, file_size, md) \<and> chunk_info E md = Inr (None, ek) \<and>
    parse_keydata E ek priv_key_data = Inr (key, nonce) \<and>
    ENC_BLOCK_SIZE < file_size \<and> file_size < MIN_BIG_FILE_SIZE \<longrightarrow>
      decrypt_file fuel E f0 priv_key_data =
        (case full_small_blocks E key nonce f file_size of
           (Some e, f') \<Rightarrow> Some (Raise e, f')
         | (None, f') \<Rightarrow>
             (case remove_end_marker f' file_size [SMALL_FILE_END_MARKER1] of
                Inl e \<Rightarrow> Some (Raise e, f')
              | Inr file_size' \<Rightarrow> Some (remove_footer f' file_size')))) \<and>
   (parse_keydata E ek priv_key_data = Inr (key, nonce) \<longrightarrow>
      (\<exists>blob p1 p2 p3.
         rsa_decrypt E ek priv_key_data = Some blob \<and>
         find_from blob KEYDATA_MARKER1 0 = Some p1 \<and>
         find_from blob KEYDATA_MARKER2 (p1 + length KEYDATA_MARKER1) = Some p2 \<and>
         find_from blob KEYDATA_MARKER3 (p2 + length KEYDATA_MARKER2) = Some p3 \<and>
         key = slice blob (p1 + length KEYDATA_MARKER1) p2 \<and>
         nonce = slice blob (p2 + length KEYDATA_MARKER2) p3))"
proof -
  have l: "length (sequencer_output (Suc k)) = 8" by (simp add: sequencer_output_Suc)
  have b: "be_nat (rnd64data st)
     = unat (fst (rnd64_seed (of_nat (le_nat (take 8 st))) RND64_A1 RND64_A2))"
    by (simp add: rnd64data_def Let_def be_nat_to_bytes8_big split: prod.splits)
  have loops: "chunk_encryption fuel E key nonce f enc_size chunk_size chunk_step =
     (case read_at f 0 (min enc_size chunk_size) of
        Inl e \<Rightarrow> Some (Some e, f)
      | Inr enc_data \<Rightarrow>
          (case gcm_decrypt E key (take 12 nonce) enc_data of
             Inl e \<Rightarrow> Some (Some e, f)
           | Inr data \<Rightarrow>
               spec_next_chunks fuel E key enc_size chunk_size chunk_step 1
                 (write_at f 0 data))) \<and>
   (nat (file_size - 2 - ENC_BLOCK_SIZE) < fuel \<longrightarrow>
    Some (full_small_blocks E key nonce f file_size) =
     (case read_at f 0 (min (file_size - 2) ENC_BLOCK_SIZE) of
        Inl e \<Rightarrow> Some (Some e, f)
      | Inr enc_data \<Rightarrow>
          (case gcm_decrypt E key (take 12 nonce) enc_data of
             Inl e \<Rightarrow> Some (Some e, f)
           | Inr data \<Rightarrow>
               spec_next_chunks fuel E key (file_size - 2) ENC_BLOCK_SIZE ENC_BLOCK_SIZE 1
                 (write_at f 0 data)))) \<and>
   sequencer_output 0 = ascii ''sxuojgdg'' \<and>
   sequencer_output (Suc k) = rnd64data (sequencer_output k) \<and>
   length (sequencer_output (Suc k)) = 8 \<and>
   length (chunk_nonce (Suc k)) = 12 \<and>
   take 8 (chunk_nonce (Suc k)) = sequencer_output (Suc k) \<and>
   drop 8 (chunk_nonce (Suc k)) = drop 4 (sequencer_output (Suc k)) \<and>
   be_nat (rnd64data st)
     = unat (fst (rnd64_seed (of_nat (le_nat (take 8 st))) RND64_A1 RND64_A2))"
    using full_small_blocks_spec [of file_size fuel E key nonce f] b
    by (simp add: chunk_encryption_spec sequencer_output_0 RND64_INIT_STATE_DATA_def
          sequencer_output_Suc [symmetric] chunk_nonce_Suc l del: of_nat_Suc)
  have chunks: "locate_metadata f0 = Inr (f, file_size, md) \<and>
    chunk_info E md = Inr (Some (chunk_size, chunk_step, enc_size), ek) \<and>
    parse_keydata E ek priv_key_data = Inr (key, nonce) \<longrightarrow>
      decrypt_file fuel E f0 priv_key_data =
        (case chunk_encryption fuel E key nonce f enc_size chunk_size chunk_step of
           None \<Rightarrow> None
         | Some (Some e, f') \<Rightarrow> Some (Raise e, f')
         | Some (None, f') \<Rightarrow> Some (remove_footer f' file_size))"
    using decrypt_file_chunks [of f0 f file_size md E chunk_size chunk_step enc_size ek
            priv_key_data key nonce fuel]
    by blast
  have blocks: "locate_metadata f0 = Inr (f, file_size, md) \<and> chunk_info E md = Inr (None, ek) \<and>
    parse_keydata E ek priv_key_data = Inr (key, nonce) \<and>
    ENC_BLOCK_SIZE < file_size \<and> file_size < MIN_BIG_FILE_SIZE \<longrightarrow>
      decrypt_file fuel E f0 priv_key_data =
        (case full_small_blocks E key nonce f file_size of
           (Some e, f') \<Rightarrow> Some (Raise e, f')
         | (None, f') \<Rightarrow>
             (case remove_end_marker f' file_size [SMALL_FILE_END_MARKER1] of
                Inl e \<Rightarrow> Some (Raise e, f')
              | Inr file_size' \<Rightarrow> Some (remove_footer f' file_size')))"
    using decrypt_file_small_blocks [of f0 f file_size md E ek priv_key_data key nonce fuel]
    by blast
  have blob: "parse_keydata E ek priv_key_data = Inr (key, nonce) \<longrightarrow>
      (\<exists>blob p1 p2 p3.
         rsa_decrypt E ek priv_key_data = Some blob \<and>
         find_from blob KEYDATA_MARKER1 0 = Some p1 \<and>
         find_from blob KEYDATA_MARKER2 (p1 + length KEYDATA_MARKER1) = Some p2 \<and>
         find_from blob KEYDATA_MARKER3 (p2 + length KEYDATA_MARKER2) = Some p3 \<and>
         key = slice blob (p1 + length KEYDATA_MARKER1) p2 \<and>
         nonce = slice blob (p2 + length KEYDATA_MARKER2) p3)"
    using parse_keydata_blob [of E ek priv_key_data key nonce] by blast
  from loops chunks blocks blob show ?thesis
    by (elim conjE, intro conjI) assumption+
qed

text \<open>The first two outputs of the sequencer, and a run of each loop over three chunks.\<close>

lemma init_state: "RND64_INIT_STATE_DATA = [0x73, 0x78, 0x75, 0x6F, 0x6A, 0x67, 0x64, 0x67]"
  by (simp add: RND64_INIT_STATE_DATA_def ascii_def)

lemma sequencer_output_1: "sequencer_output (Suc 0) = [4, 241, 246, 112, 18, 98, 127, 129]"
proof -
  have "fst (rnd64_seed 7450193390411806835 4815 4815) = 356336806744194945"
    by (simp add: rnd64_seed_def Let_def rol64_def ror64_def cong: let_weak_cong)
  then have "rnd64data RND64_INIT_STATE_DATA = to_bytes8_big 356336806744194945"
    by (simp add: rnd64data_def init_state RND64_A1_def RND64_A2_def Let_def split_beta)
  then show ?thesis
    by (simp add: sequencer_output_def to_bytes8_big_def)
qed

lemma sequencer_output_2:
  "sequencer_output (Suc (Suc 0)) = [22, 136, 129, 255, 201, 8, 217, 99]"
proof -
  have "fst (rnd64_seed 9331284784279122180 4815 4815) = 1623690601256507747"
    by (simp add: rnd64_seed_def Let_def rol64_def ror64_def cong: let_weak_cong)
  then have "rnd64data [4, 241, 246, 112, 18, 98, 127, 129] = to_bytes8_big 1623690601256507747"
    by (simp add: rnd64data_def RND64_A1_def RND64_A2_def Let_def split_beta)
  then show ?thesis
    by (simp add: sequencer_output_Suc [of "Suc 0"] sequencer_output_1 to_bytes8_big_def)
qed

lemma spec_next_chunks_unfold:
  assumes "0 < fuel"
  shows "spec_next_chunks fuel E key enc_size chunk_size chunk_step k f =
     (if int k * chunk_step < enc_size then
        (case read_at f (int k * chunk_step) (min (enc_size - int k * chunk_step) chunk_size) of
           Inl e \<Rightarrow> Some (Some e, f)
         | Inr enc_data \<Rightarrow>
             if enc_data = [] then Some (None, f)
             else (case gcm_decrypt E key (chunk_nonce k) enc_data of
                     Inl e \<Rightarrow> Some (Some e, f)
                   | Inr data \<Rightarrow>
                       spec_next_chunks (fuel - 1) E key enc_size chunk_size chunk_step (Suc k)
                         (write_at f (nat (int k * chunk_step)) data)))
      else Some (None, f))"
proof -
  obtain n where f: "fuel = Suc n" using assms by (cases fuel) auto
  show ?thesis unfolding f diff_Suc_1 spec_next_chunks.simps Let_def ..
qed

lemma chunk_nonce_1:
  "chunk_nonce (Suc 0) = [4, 241, 246, 112, 18, 98, 127, 129, 18, 98, 127, 129]"
  by (simp add: chunk_nonce_Suc sequencer_output_1)

lemma chunk_nonce_2:
  "chunk_nonce (Suc (Suc 0)) = [22, 136, 129, 255, 201, 8, 217, 99, 201, 8, 217, 99]"
  by (simp add: chunk_nonce_Suc sequencer_output_2)

lemma gcm_decrypt_echo_10:
  assumes "length n = 12"
  shows "gcm_decrypt echo_env (replicate 32 7) n (replicate 10 0) = Inr (take 10 n)"
proof -
  have "gcm_xor echo_env (replicate 32 7) n (replicate 10 0) = take 10 n"
    using assms
    by (intro nth_equalityI) (simp_all add: gcm_xor_def echo_env_def)
  moreover have "n \<noteq> []" using assms by auto
  ultimately show ?thesis by (simp add: gcm_decrypt_def)
qed

lemma gcm_decrypt_hd:
  assumes "n \<noteq> []"
  shows "gcm_decrypt hd_env (replicate 32 7) n (replicate m 0) = Inr (replicate m (hd n))"
proof -
  have "gcm_xor hd_env (replicate 32 7) n (replicate m 0) = replicate m (hd n)"
    by (intro nth_equalityI) (simp_all add: gcm_xor_def hd_env_def)
  then show ?thesis using assms by (simp add: gcm_decrypt_def)
qed

lemma chunk_example:
  "spec_next_chunks 3 echo_env (replicate 32 7) 30 10 10 (Suc 0) (replicate 10 9 @ replicate 20 0)
     = Some (None, replicate 10 9 @ [4, 241, 246, 112, 18, 98, 127, 129, 18, 98] @
                   [22, 136, 129, 255, 201, 8, 217, 99, 201, 8])"
proof -
  have g1: "gcm_decrypt echo_env (replicate 32 7) (chunk_nonce (Suc 0)) (replicate 10 0)
              = Inr [4, 241, 246, 112, 18, 98, 127, 129, 18, 98]"
    by (simp add: gcm_decrypt_echo_10 chunk_nonce_1)
  have g2: "gcm_decrypt echo_env (replicate 32 7) (chunk_nonce (Suc (Suc 0))) (replicate 10 0)
              = Inr [22, 136, 129, 255, 201, 8, 217, 99, 201, 8]"
    by (simp add: gcm_decrypt_echo_10 chunk_nonce_2)
  show ?thesis
    by (simp add: spec_next_chunks_unfold read_at_def write_at_def g1 g2
          del: replicate_eq_replicate)
qed

lemma small_example:
  "spec_next_chunks 1023999 hd_env (replicate 32 7) 1535998 512000 512000 (Suc 0)
     (replicate 512000 9 @ replicate 1024000 0)
     = Some (None, replicate 512000 9 @ replicate 512000 4 @ replicate 511998 22 @ replicate 2 0)"
proof -
  have g1: "gcm_decrypt hd_env (replicate 32 7) (chunk_nonce (Suc 0)) (replicate m 0)
              = Inr (replicate m 4)" for m
    by (simp add: gcm_decrypt_hd chunk_nonce_1)
  have g2: "gcm_decrypt hd_env (replicate 32 7) (chunk_nonce (Suc (Suc 0))) (replicate m 0)
              = Inr (replicate m 22)" for m
    by (simp add: gcm_decrypt_hd chunk_nonce_2)
  have s: "replicate 1024000 (0::byte) = replicate 512000 0 @ replicate 511998 0 @ replicate 2 0"
    by (simp add: replicate_add [symmetric])
  show ?thesis
    unfolding s
    by (simp add: spec_next_chunks_unfold read_at_def write_at_def g1 g2
          del: replicate_eq_replicate)
qed

lemma blob_values:
  "ENC_SIZE_MARKER = [0x46, 0x73, 0x31, 0x7A, 0x33]"
  "CHUNK_INFO_MARKER2 = [0x3A]"
  "CHUNK_INFO_MARKER3 = [0x24, 0x66, 0x31, 0x3B]"
  "ascii ''0.00001'' = [0x30, 0x2E, 0x30, 0x30, 0x30, 0x30, 0x31]"
  "ascii ''50'' = [0x35, 0x30]"
  by (simp_all add: ENC_SIZE_MARKER_def CHUNK_INFO_MARKER2_def CHUNK_INFO_MARKER3_def ascii_def)

lemma len_chunk_blob: "length chunk_blob = 60"
  by (simp add: chunk_blob_def marker_values)

lemma len_chunk_descriptor: "length chunk_descriptor = 31"
  by (simp add: chunk_descriptor_def marker_values blob_values)

lemma chunk_blob_keydata:
  assumes "rsa_decrypt E chunk_blob pk = Some chunk_blob"
  shows "parse_keydata E chunk_blob pk = Inr (replicate 32 7, replicate 12 9 @ [1, 2, 3, 4])"
proof -
  have 1: "find_from chunk_blob KEYDATA_MARKER1 0 = Some 0"
    by (subst find_from.simps) (simp add: chunk_blob_def marker_values)
  have 2: "find_from ((KEYDATA_MARKER1 @ replicate 32 7) @ KEYDATA_MARKER2 @
             (replicate 12 9 @ [1, 2, 3, 4]) @ KEYDATA_MARKER3) KEYDATA_MARKER2 4
             = Some (length (KEYDATA_MARKER1 @ replicate 32 7))"
    by (rule find_from_after_prefix) (simp_all add: marker_values)
  have 3: "find_from ((KEYDATA_MARKER1 @ replicate 32 7 @ KEYDATA_MARKER2 @
             (replicate 12 9 @ [1, 2, 3, 4])) @ KEYDATA_MARKER3) KEYDATA_MARKER3 40
           = Some (length (KEYDATA_MARKER1 @ replicate 32 7 @ KEYDATA_MARKER2 @
                     (replicate 12 9 @ [1, 2, 3, 4])))"
    by (rule find_from_after_prefix) (simp_all add: marker_values)
  have k2: "find_from chunk_blob KEYDATA_MARKER2 4 = Some 36"
    using 2 by (simp add: chunk_blob_def marker_values)
  have k3: "find_from chunk_blob KEYDATA_MARKER3 40 = Some 56"
    using 3 by (simp add: chunk_blob_def marker_values)
  have k: "slice chunk_blob 4 36 = replicate 32 7"
    by (simp add: slice_def chunk_blob_def marker_values)
  have n: "slice chunk_blob 40 56 = replicate 12 9 @ [1, 2, 3, 4]"
    by (simp add: slice_def chunk_blob_def marker_values)
  have l: "length KEYDATA_MARKER1 = 4" "length KEYDATA_MARKER2 = 4"
    by (simp_all add: marker_values)
  show ?thesis
    by (simp add: parse_keydata_def assms 1 l k2 k3 k n Let_def)
qed

lemma chunk_blob_set:
  "set chunk_blob = {0x64, 0x37, 0x6A, 0x33, 7, 0x79, 0x39, 0x61, 0x30, 9, 1, 2, 3, 4, 0x6D, 0x35, 0x68}"
  by (auto simp: chunk_blob_def marker_values)

lemma chunk_file_info:
  "chunk_info echo_env (chunk_blob @ chunk_descriptor) = Inr (Some (10, 20, 50), chunk_blob)"
proof -
  let ?md = "chunk_blob @ chunk_descriptor"
  have 1: "find_from (chunk_blob @ chunk_descriptor) CHUNK_INFO_MARKER1 0
             = Some (length chunk_blob)"
    by (rule find_from_after_prefix)
       (simp_all add: marker_values chunk_blob_set chunk_descriptor_def)
  have 2: "find_from ((chunk_blob @ CHUNK_INFO_MARKER1 @ ascii ''0.00001'') @
              CHUNK_INFO_MARKER2 @ ascii ''0.00001'' @ CHUNK_INFO_MARKER3 @ ENC_SIZE_MARKER @
              ascii ''50'') CHUNK_INFO_MARKER2 65
             = Some (length (chunk_blob @ CHUNK_INFO_MARKER1 @ ascii ''0.00001''))"
    by (rule find_from_after_prefix)
       (simp_all add: marker_values blob_values chunk_blob_set len_chunk_blob)
  have 3: "find_from ((chunk_blob @ CHUNK_INFO_MARKER1 @ ascii ''0.00001'' @
              CHUNK_INFO_MARKER2 @ ascii ''0.00001'') @ CHUNK_INFO_MARKER3 @ ENC_SIZE_MARKER @
              ascii ''50'') CHUNK_INFO_MARKER3 73
             = Some (length (chunk_blob @ CHUNK_INFO_MARKER1 @ ascii ''0.00001'' @
                       CHUNK_INFO_MARKER2 @ ascii ''0.00001''))"
    by (rule find_from_after_prefix)
       (simp_all add: marker_values blob_values chunk_blob_set len_chunk_blob)
  have 4: "find_from ((chunk_blob @ CHUNK_INFO_MARKER1 @ ascii ''0.00001'' @
              CHUNK_INFO_MARKER2 @ ascii ''0.00001'' @ CHUNK_INFO_MARKER3) @ ENC_SIZE_MARKER @
              ascii ''50'') ENC_SIZE_MARKER 84
             = Some (length (chunk_blob @ CHUNK_INFO_MARKER1 @ ascii ''0.00001'' @
                       CHUNK_INFO_MARKER2 @ ascii ''0.00001'' @ CHUNK_INFO_MARKER3))"
    by (rule find_from_after_prefix)
       (simp_all add: marker_values blob_values chunk_blob_set len_chunk_blob)
  have p1: "find_from ?md CHUNK_INFO_MARKER1 0 = Some 60"
    using 1 by (simp add: len_chunk_blob)
  have p2: "find_from ?md CHUNK_INFO_MARKER2 65 = Some 72"
    using 2 by (simp add: chunk_descriptor_def len_chunk_blob marker_values blob_values)
  have p3: "find_from ?md CHUNK_INFO_MARKER3 73 = Some 80"
    using 3 by (simp add: chunk_descriptor_def len_chunk_blob marker_values blob_values)
  have p4: "find_from ?md ENC_SIZE_MARKER 84 = Some 84"
    using 4 by (simp add: chunk_descriptor_def len_chunk_blob marker_values blob_values)
  have l: "length CHUNK_INFO_MARKER1 = 5" "length CHUNK_INFO_MARKER2 = 1"
    "length CHUNK_INFO_MARKER3 = 4" "length ENC_SIZE_MARKER = 5"
    by (simp_all add: marker_values blob_values)
  have t: "drop 89 ?md = [0x35, 0x30]"
    by (simp add: chunk_descriptor_def len_chunk_blob marker_values blob_values)
  have i: "py_int [0x35, 0x30] = Inr 50"
    by (simp add: py_int_def is_space_def is_digit_def Let_def)
  have b: "take 60 ?md = chunk_blob" by (simp add: len_chunk_blob)
  show ?thesis
    by (simp add: chunk_info_def p1 l p2 p3 p4 t i b Let_def echo_env_def
          del: drop_append take_append)
qed

lemma len_chunk_file: "length chunk_file = 396"
  by (simp add: chunk_file_def len_chunk_blob len_chunk_descriptor marker_values)

lemma chunk_file_locate:
  "locate_metadata chunk_file = Inr (chunk_file, 300, chunk_blob @ chunk_descriptor)"
proof -
  have e: "\<not> ends_with_marker2 chunk_file"
    by (simp add: ends_with_marker2_def len_marker2 len_chunk_file)
       (simp add: chunk_file_def chunk_descriptor_def len_chunk_blob marker_values blob_values
          METADATA_MARKER2_def ascii_def)
  have w: "metadata_window chunk_file
             = replicate 204 0 @ METADATA_MARKER @ chunk_blob @ chunk_descriptor"
    by (simp add: metadata_window_def len_chunk_file MAX_METADATA_SIZE_def)
       (simp add: chunk_file_def)
  have f: "find_from (replicate 204 0 @ METADATA_MARKER @ chunk_blob @ chunk_descriptor)
             METADATA_MARKER 0 = Some (length (replicate 204 (0::byte)))"
    by (rule find_from_after_prefix) (simp_all add: marker_values)
  show ?thesis
    by (simp add: locate_metadata_no_marker2 [OF e] w f len_chunk_file len_marker2
          MIN_METADATA_SIZE_def RCRU_RSA_KEY_SIZE_def MAX_METADATA_SIZE_def)
       (simp add: marker_values)
qed

lemma chunk_file_example:
  "spec_next_chunks 3 echo_env (replicate 32 7) 50 10 20 (Suc 0)
     (replicate 10 9 @ replicate 290 0 @ METADATA_MARKER @ chunk_blob @ chunk_descriptor)
     = Some (None, replicate 10 9 @ replicate 10 0 @
                   [4, 241, 246, 112, 18, 98, 127, 129, 18, 98] @ replicate 10 0 @
                   [22, 136, 129, 255, 201, 8, 217, 99, 201, 8] @ replicate 250 0 @
                   METADATA_MARKER @ chunk_blob @ chunk_descriptor)"
proof -
  have g1: "gcm_decrypt echo_env (replicate 32 7) (chunk_nonce (Suc 0)) (replicate 10 0)
              = Inr [4, 241, 246, 112, 18, 98, 127, 129, 18, 98]"
    by (simp add: gcm_decrypt_echo_10 chunk_nonce_1)
  have g2: "gcm_decrypt echo_env (replicate 32 7) (chunk_nonce (Suc (Suc 0))) (replicate 10 0)
              = Inr [22, 136, 129, 255, 201, 8, 217, 99, 201, 8]"
    by (simp add: gcm_decrypt_echo_10 chunk_nonce_2)
  have s: "replicate 290 (0::byte) = replicate 10 0 @ replicate 10 0 @ replicate 10 0 @
             replicate 10 0 @ replicate 250 0"
    by (simp add: replicate_add [symmetric])
  show ?thesis
    unfolding s
    by (simp add: spec_next_chunks_unfold read_at_def write_at_def g1 g2
          del: replicate_eq_replicate)
qed

lemma chunk_file_run:
  "chunk_encryption 3 echo_env (replicate 32 7) (replicate 12 9 @ [1, 2, 3, 4]) chunk_file
      50 10 20
     = Some (None, replicate 10 9 @ replicate 10 0 @
                   [4, 241, 246, 112, 18, 98, 127, 129, 18, 98] @ replicate 10 0 @
                   [22, 136, 129, 255, 201, 8, 217, 99, 201, 8] @ replicate 250 0 @
                   METADATA_MARKER @ chunk_blob @ chunk_descriptor)"
proof -
  have g0: "gcm_decrypt echo_env (replicate 32 7) (replicate 12 9) (replicate 10 0)
              = Inr (replicate 10 9)"
    by (simp add: gcm_decrypt_echo_10)
  have s: "replicate 300 (0::byte) = replicate 10 0 @ replicate 290 0"
    by (simp add: replicate_add [symmetric])
  have r: "read_at chunk_file 0 10 = Inr (replicate 10 0)"
    by (simp add: read_at_def chunk_file_def)
  have w: "write_at chunk_file 0 (replicate 10 9)
             = replicate 10 9 @ replicate 290 0 @ METADATA_MARKER @ chunk_blob @ chunk_descriptor"
    by (simp add: write_at_def chunk_file_def s)
  show ?thesis
    using chunk_file_example
    by (simp add: chunk_encryption_spec r g0 w del: replicate_eq_replicate)
qed

lemma len_small_file: "length small_file = 1536065"
  by (simp add: small_file_def len_chunk_blob marker_values)

lemma small_file_locate:
  "locate_metadata small_file = Inr (small_file, 1536000, chunk_blob)"
proof -
  have e: "\<not> ends_with_marker2 small_file"
    by (simp add: ends_with_marker2_def len_marker2 len_small_file)
       (simp add: small_file_def chunk_blob_def marker_values METADATA_MARKER2_def ascii_def)
  have w: "metadata_window small_file = replicate 235 0 @ METADATA_MARKER @ chunk_blob"
    by (simp add: metadata_window_def len_small_file MAX_METADATA_SIZE_def)
       (simp add: small_file_def)
  have f: "find_from (replicate 235 0 @ METADATA_MARKER @ chunk_blob)
             METADATA_MARKER 0 = Some (length (replicate 235 (0::byte)))"
    by (rule find_from_after_prefix) (simp_all add: marker_values)
  show ?thesis
    by (simp add: locate_metadata_no_marker2 [OF e] w f len_small_file len_marker2
          MIN_METADATA_SIZE_def RCRU_RSA_KEY_SIZE_def MAX_METADATA_SIZE_def)
       (simp add: marker_values)
qed

lemma small_file_info: "chunk_info hd_env chunk_blob = Inr (None, chunk_blob)"
proof -
  have "find_from chunk_blob CHUNK_INFO_MARKER1 0 = None"
    by (rule find_from_absent) (simp_all add: marker_values chunk_blob_set)
  then show ?thesis by (simp add: chunk_info_def)
qed

lemma small_file_example:
  "spec_next_chunks 1023999 hd_env (replicate 32 7) 1535998 512000 512000 (Suc 0)
     (replicate 512000 9 @ replicate 1024000 0 @ METADATA_MARKER @ chunk_blob)
     = Some (None, replicate 512000 9 @ replicate 512000 4 @ replicate 511998 22 @
                   replicate 2 0 @ METADATA_MARKER @ chunk_blob)"
proof -
  have g1: "gcm_decrypt hd_env (replicate 32 7) (chunk_nonce (Suc 0)) (replicate m 0)
              = Inr (replicate m 4)" for m
    by (simp add: gcm_decrypt_hd chunk_nonce_1)
  have g2: "gcm_decrypt hd_env (replicate 32 7) (chunk_nonce (Suc (Suc 0))) (replicate m 0)
              = Inr (replicate m 22)" for m
    by (simp add: gcm_decrypt_hd chunk_nonce_2)
  have s: "replicate 1024000 (0::byte) = replicate 512000 0 @ replicate 511998 0 @ replicate 2 0"
    by (simp add: replicate_add [symmetric])
  show ?thesis
    unfolding s
    by (simp add: spec_next_chunks_unfold read_at_def write_at_def g1 g2
          del: replicate_eq_replicate)
qed

lemma small_file_blocks:
  "full_small_blocks hd_env (replicate 32 7) (replicate 12 9 @ [1, 2, 3, 4]) small_file 1536000
     = (None, replicate 512000 9 @ replicate 512000 4 @ replicate 511998 22 @
              replicate 2 0 @ METADATA_MARKER @ chunk_blob)"
proof -
  have h: "nat (1536000 - 2 - ENC_BLOCK_SIZE) < 1023999"
    by (simp add: ENC_BLOCK_SIZE_def)
  have s: "replicate 1536000 (0::byte) = replicate 512000 0 @ replicate 1024000 0"
    by (simp add: replicate_add [symmetric])
  have r0: "read_at small_file 0 512000 = Inr (replicate 512000 0)"
    by (simp add: read_at_def small_file_def)
  have w0: "write_at small_file 0 (replicate 512000 9)
              = replicate 512000 9 @ replicate 1024000 0 @ METADATA_MARKER @ chunk_blob"
    by (simp add: write_at_def small_file_def s)
  have "Some (full_small_blocks hd_env (replicate 32 7) (replicate 12 9 @ [1, 2, 3, 4])
                small_file 1536000)
     = Some (None, replicate 512000 9 @ replicate 512000 4 @ replicate 511998 22 @
              replicate 2 0 @ METADATA_MARKER @ chunk_blob)"
    using small_file_example
    by (simp add: full_small_blocks_spec [OF h] ENC_BLOCK_SIZE_def r0 w0 gcm_decrypt_hd
          del: replicate_eq_replicate)
  then show ?thesis by simp
qed

lemma small_file_end_marker:
  "remove_end_marker
     (replicate 512000 9 @ replicate 512000 4 @ replicate 511998 22 @ replicate 2 0 @
      METADATA_MARKER @ chunk_blob) 1536000 [SMALL_FILE_END_MARKER1] = Inr 1536000"
proof -
  have len1: "length SMALL_FILE_END_MARKER1 = 16" by (simp add: marker_values)
  have s: "replicate 511998 (22::byte) = replicate 511984 22 @ replicate 14 22"
    by (simp add: replicate_add [symmetric])
  have t: "read_at (replicate 512000 9 @ replicate 512000 4 @ replicate 511998 22 @
             replicate 2 0 @ METADATA_MARKER @ chunk_blob) 1535984 16
           = Inr (replicate 14 22 @ replicate 2 0)"
    unfolding s by (simp add: read_at_def)
  have n1: "find_from (replicate 14 22 @ replicate 2 0) SMALL_FILE_END_MARKER1 0 = None"
    by (rule find_from_absent) (simp_all add: marker_values)
  show ?thesis
    by (simp add: remove_end_marker_def Let_def len1 t n1)
qed

lemma small_file_run:
  "decrypt_file 0 hd_env small_file []
     = Some (Return True,
             replicate 512000 9 @ replicate 512000 4 @ replicate 511998 22 @ [0])"
proof -
  have k: "parse_keydata hd_env chunk_blob [] = Inr (replicate 32 7, replicate 12 9 @ [1, 2, 3, 4])"
    by (rule chunk_blob_keydata) (simp add: hd_env_def)
  have r: "remove_footer
     (replicate 512000 9 @ replicate 512000 4 @ replicate 511998 22 @ replicate 2 0 @
      METADATA_MARKER @ chunk_blob) 1536000
     = (Return True, replicate 512000 9 @ replicate 512000 4 @ replicate 511998 22 @ [0])"
    by (simp add: remove_footer_def truncate_to_def ADDITIONAL_DATA_SIZE_def)
  show ?thesis
    by (simp add: decrypt_file_small_blocks [OF small_file_locate small_file_info k]
          ENC_BLOCK_SIZE_def MIN_BIG_FILE_SIZE_def small_file_blocks small_file_end_marker r)
qed

lemma chunk_file_decrypt:
  "decrypt_file 3 echo_env chunk_file []
     = Some (Return True,
             replicate 10 9 @ replicate 10 0 @
             [4, 241, 246, 112, 18, 98, 127, 129, 18, 98] @ replicate 10 0 @
             [22, 136, 129, 255, 201, 8, 217, 99, 201, 8] @ replicate 249 0)"
proof -
  have k: "parse_keydata echo_env chunk_blob [] = Inr (replicate 32 7, replicate 12 9 @ [1, 2, 3, 4])"
    by (rule chunk_blob_keydata) (simp add: echo_env_def)
  have r: "remove_footer
     (replicate 10 9 @ replicate 10 0 @
      [4, 241, 246, 112, 18, 98, 127, 129, 18, 98] @ replicate 10 0 @
      [22, 136, 129, 255, 201, 8, 217, 99, 201, 8] @ replicate 250 0 @
      METADATA_MARKER @ chunk_blob @ chunk_descriptor) 300
     = (Return True, replicate 10 9 @ replicate 10 0 @
             [4, 241, 246, 112, 18, 98, 127, 129, 18, 98] @ replicate 10 0 @
             [22, 136, 129, 255, 201, 8, 217, 99, 201, 8] @ replicate 249 0)"
    by (simp add: remove_footer_def truncate_to_def ADDITIONAL_DATA_SIZE_def)
  show ?thesis
    by (simp only: decrypt_file_chunks [OF chunk_file_locate chunk_file_info k]
          chunk_file_run option.case prod.case r)
qed

text \<open>
  Three chunks of ten bytes under the echoing key stream show the three nonces, for the
  loop alone and for \<open>decrypt_file\<close> on the 396-byte file with a chunk descriptor, where
  the chunks lie 20 bytes apart; a small file of 1,536,000 bytes is decrypted in three
  blocks, the first byte of each nonce filling its block.
\<close>

theorem chunk_nonce_sequence_witness:
  "chunk_encryption 3 echo_env (replicate 32 7) (replicate 12 9 @ [1, 2, 3, 4]) (replicate 30 0)
      30 10 10
     = Some (None, replicate 10 9 @ [4, 241, 246, 112, 18, 98, 127, 129, 18, 98] @
                   [22, 136, 129, 255, 201, 8, 217, 99, 201, 8]) \<and>
   nat (1536000 - 2 - ENC_BLOCK_SIZE) < 1023999 \<and>
   full_small_blocks hd_env (replicate 32 7) (replicate 12 9 @ [1, 2, 3, 4])
      (replicate 1536000 0) 1536000
     = (None, replicate 512000 9 @ replicate 512000 4 @ replicate 511998 22 @ replicate 2 0) \<and>
   sequencer_output 0 = [0x73, 0x78, 0x75, 0x6F, 0x6A, 0x67, 0x64, 0x67] \<and>
   sequencer_output (Suc 0) = [4, 241, 246, 112, 18, 98, 127, 129] \<and>
   chunk_nonce (Suc 0) = [4, 241, 246, 112, 18, 98, 127, 129, 18, 98, 127, 129] \<and>
   locate_metadata chunk_file = Inr (chunk_file, 300, chunk_blob @ chunk_descriptor) \<and>
   chunk_info echo_env (chunk_blob @ chunk_descriptor) = Inr (Some (10, 20, 50), chunk_blob) \<and>
   parse_keydata echo_env chunk_blob []
     = Inr (replicate 32 7, replicate 12 9 @ [1, 2, 3, 4]) \<and>
   decrypt_file 3 echo_env chunk_file []
     = Some (Return True,
             replicate 10 9 @ replicate 10 0 @
             [4, 241, 246, 112, 18, 98, 127, 129, 18, 98] @ replicate 10 0 @
             [22, 136, 129, 255, 201, 8, 217, 99, 201, 8] @ replicate 249 0) \<and>
   locate_metadata small_file = Inr (small_file, 1536000, chunk_blob) \<and>
   decrypt_file 0 hd_env small_file []
     = Some (Return True,
             replicate 512000 9 @ replicate 512000 4 @ replicate 511998 22 @ [0]) \<and>
   (\<exists>blob p1 p2 p3.
       rsa_decrypt echo_env chunk_blob [] = Some blob \<and>
       find_from blob KEYDATA_MARKER1 0 = Some p1 \<and>
       find_from blob KEYDATA_MARKER2 (p1 + length KEYDATA_MARKER1) = Some p2 \<and>
       find_from blob KEYDATA_MARKER3 (p2 + length KEYDATA_MARKER2) = Some p3 \<and>
       replicate 32 7 = slice blob (p1 + length KEYDATA_MARKER1) p2 \<and>
       replicate 12 9 @ [1, 2, 3, 4] = slice blob (p2 + length KEYDATA_MARKER2) p3)"
proof -
  note T1 = chunk_nonce_sequence [where fuel = 3 and E = echo_env and key = "replicate 32 7"
      and nonce = "replicate 12 9 @ [1, 2, 3, 4]" and f = "replicate 30 0" and enc_size = 30
      and chunk_size = 10 and chunk_step = 10 and k = 0]
  note T2 = chunk_nonce_sequence [where fuel = 1023999 and E = hd_env and key = "replicate 32 7"
      and nonce = "replicate 12 9 @ [1, 2, 3, 4]" and f = "replicate 1536000 0"
      and file_size = 1536000]
  note T3 = chunk_nonce_sequence [where fuel = 3 and E = echo_env and key = "replicate 32 7"
      and nonce = "replicate 12 9 @ [1, 2, 3, 4]" and f = chunk_file and enc_size = 50
      and chunk_size = 10 and chunk_step = 20 and ?f0.0 = chunk_file and file_size = 300
      and md = "chunk_blob @ chunk_descriptor" and ek = chunk_blob and priv_key_data = "[]"]
  note T4 = chunk_nonce_sequence [where fuel = 0 and E = hd_env and key = "replicate 32 7"
      and nonce = "replicate 12 9 @ [1, 2, 3, 4]" and f = small_file
      and ?f0.0 = small_file and file_size = 1536000
      and md = chunk_blob and ek = chunk_blob and priv_key_data = "[]"]
  have g0: "gcm_decrypt echo_env (replicate 32 7) (replicate 12 9) (replicate 10 0)
              = Inr (replicate 10 9)"
    by (simp add: gcm_decrypt_echo_10)
  have c1: "chunk_encryption 3 echo_env (replicate 32 7) (replicate 12 9 @ [1, 2, 3, 4])
      (replicate 30 0) 30 10 10
     = Some (None, replicate 10 9 @ [4, 241, 246, 112, 18, 98, 127, 129, 18, 98] @
                   [22, 136, 129, 255, 201, 8, 217, 99, 201, 8])"
    using chunk_example
    by (simp add: T1 [THEN conjunct1] read_at_def write_at_def g0 del: replicate_eq_replicate)
  have h: "nat (1536000 - 2 - ENC_BLOCK_SIZE) < 1023999"
    by (simp add: ENC_BLOCK_SIZE_def)
  have s: "replicate 1536000 (0::byte) = replicate 512000 0 @ replicate 1024000 0"
    by (simp add: replicate_add [symmetric])
  have r0: "read_at (replicate 1536000 0) 0 512000 = Inr (replicate 512000 0)"
    by (simp add: read_at_def)
  have w0: "write_at (replicate 1536000 0) 0 (replicate 512000 9)
              = replicate 512000 9 @ replicate 1024000 0"
    by (simp add: write_at_def)
  have "Some (full_small_blocks hd_env (replicate 32 7) (replicate 12 9 @ [1, 2, 3, 4])
      (replicate 1536000 0) 1536000)
     = Some (None, replicate 512000 9 @ replicate 512000 4 @ replicate 511998 22 @ replicate 2 0)"
    using small_example
    by (simp add: T2 [THEN conjunct2, THEN conjunct1, rule_format, OF h] ENC_BLOCK_SIZE_def
          r0 w0 gcm_decrypt_hd del: replicate_eq_replicate)
  then have c2: "full_small_blocks hd_env (replicate 32 7) (replicate 12 9 @ [1, 2, 3, 4])
      (replicate 1536000 0) 1536000
     = (None, replicate 512000 9 @ replicate 512000 4 @ replicate 511998 22 @ replicate 2 0)"
    by simp
  have c3: "sequencer_output 0 = [0x73, 0x78, 0x75, 0x6F, 0x6A, 0x67, 0x64, 0x67]"
    using T1 [THEN conjunct2, THEN conjunct2, THEN conjunct1] by (simp add: ascii_def)
  have c4: "sequencer_output (Suc 0) = [4, 241, 246, 112, 18, 98, 127, 129]"
    by (rule sequencer_output_1)
  have c5: "chunk_nonce (Suc 0) = [4, 241, 246, 112, 18, 98, 127, 129, 18, 98, 127, 129]"
    by (rule chunk_nonce_1)
  have ke: "parse_keydata echo_env chunk_blob []
              = Inr (replicate 32 7, replicate 12 9 @ [1, 2, 3, 4])"
    by (rule chunk_blob_keydata) (simp add: echo_env_def)
  have kh: "parse_keydata hd_env chunk_blob []
              = Inr (replicate 32 7, replicate 12 9 @ [1, 2, 3, 4])"
    by (rule chunk_blob_keydata) (simp add: hd_env_def)
  note rest = conjunct2 [OF conjunct2 [OF conjunct2 [OF conjunct2 [OF conjunct2 [OF conjunct2
                [OF conjunct2 [OF conjunct2 [OF conjunct2]]]]]]]]
  have d1: "decrypt_file 3 echo_env chunk_file [] =
        (case chunk_encryption 3 echo_env (replicate 32 7) (replicate 12 9 @ [1, 2, 3, 4])
                chunk_file 50 10 20 of
           None \<Rightarrow> None
         | Some (Some e, f') \<Rightarrow> Some (Raise e, f')
         | Some (None, f') \<Rightarrow> Some (remove_footer f' 300))"
    by (rule T3 [THEN rest, THEN conjunct1, rule_format,
                 OF conjI [OF chunk_file_locate conjI [OF chunk_file_info ke]]])
  have c6: "decrypt_file 3 echo_env chunk_file []
     = Some (Return True,
             replicate 10 9 @ replicate 10 0 @
             [4, 241, 246, 112, 18, 98, 127, 129, 18, 98] @ replicate 10 0 @
             [22, 136, 129, 255, 201, 8, 217, 99, 201, 8] @ replicate 249 0)"
    unfolding d1 by (rule chunk_file_decrypt [unfolded
        decrypt_file_chunks [OF chunk_file_locate chunk_file_info ke]])
  have sz: "ENC_BLOCK_SIZE < 1536000 \<and> 1536000 < MIN_BIG_FILE_SIZE"
    by (simp add: ENC_BLOCK_SIZE_def MIN_BIG_FILE_SIZE_def)
  have d2: "decrypt_file 0 hd_env small_file [] =
        (case full_small_blocks hd_env (replicate 32 7) (replicate 12 9 @ [1, 2, 3, 4])
                small_file 1536000 of
           (Some e, f') \<Rightarrow> Some (Raise e, f')
         | (None, f') \<Rightarrow>
             (case remove_end_marker f' 1536000 [SMALL_FILE_END_MARKER1] of
                Inl e \<Rightarrow> Some (Raise e, f')
              | Inr file_size' \<Rightarrow> Some (remove_footer f' file_size')))"
    by (rule T4 [THEN rest, THEN conjunct2, THEN conjunct1, rule_format,
                 OF conjI [OF small_file_locate conjI [OF small_file_info conjI [OF kh sz]]]])
  have c7: "decrypt_file 0 hd_env small_file []
     = Some (Return True,
             replicate 512000 9 @ replicate 512000 4 @ replicate 511998 22 @ [0])"
    by (rule small_file_run)
  have c8: "\<exists>blob p1 p2 p3.
       rsa_decrypt echo_env chunk_blob [] = Some blob \<and>
       find_from blob KEYDATA_MARKER1 0 = Some p1 \<and>
       find_from blob KEYDATA_MARKER2 (p1 + length KEYDATA_MARKER1) = Some p2 \<and>
       find_from blob KEYDATA_MARKER3 (p2 + length KEYDATA_MARKER2) = Some p3 \<and>
       replicate 32 7 = slice blob (p1 + length KEYDATA_MARKER1) p2 \<and>
       replicate 12 9 @ [1, 2, 3, 4] = slice blob (p2 + length KEYDATA_MARKER2) p3"
    by (rule T3 [THEN rest, THEN conjunct2, THEN conjunct2, rule_format, OF ke])
  show ?thesis
    using c1 h c2 c3 c4 c5 chunk_file_locate chunk_file_info ke c6 small_file_locate c7 c8
    by (intro conjI)
qed

subsection \<open>Failures that are returned and failures that are raised\<close>





































lemma len_cut_md: "length cut_payload_metadata = 178" by (simp add: cut_payload_metadata_def)

lemma len_cut_enc: "length cut_payload_enc_endblock = 48"
  by (simp add: cut_payload_enc_endblock_def)

lemma len_cut_file: "length cut_payload_file = 238"
  by (simp add: cut_payload_file_def len_cut_enc len_cut_md)

lemma cut_md_fields:
  "slice cut_payload_metadata ENC_KEY_DATA_POS (ENC_KEY_DATA_POS + RSA_KEY_SIZE) = replicate 128 0"
  "unpack_L cut_payload_metadata FOOTER_SIZE_POS = Inr 226"
  "slice cut_payload_metadata AES_IV_POS (AES_IV_POS + AES_IV_SIZE) = replicate 16 0"
  "unpack_L cut_payload_metadata PADDING_SIZE_POS = Inr 0"
  by (simp_all add: cut_payload_metadata_def slice_def unpack_L_def ENC_KEY_DATA_POS_def
        RSA_KEY_SIZE_def FOOTER_SIZE_POS_def AES_IV_POS_def AES_IV_SIZE_def PADDING_SIZE_POS_def)

lemma cut_read_footer: "read_footer cut_payload_file (replicate 160 0) = Inr cut_payload_footer"
proof -
  have d: "drop 60 cut_payload_file = cut_payload_metadata"
    by (simp add: cut_payload_file_def len_cut_enc)
  have e: "slice cut_payload_file 12 60 = cut_payload_enc_endblock"
    by (simp add: cut_payload_file_def len_cut_enc slice_def)
  show ?thesis
    by (simp add: read_footer_def len_cut_file METADATA_SIZE_def Let_def d zero_key
          cut_md_fields e cut_payload_footer_def)
qed

lemma cut_cbc:
  "cbc_blocks toy_block (replicate 32 0) (replicate 16 0) cut_payload_enc_endblock
     = cut_payload_endblock"
  by (simp add: cut_payload_enc_endblock_def cut_payload_endblock_def cbc_blocks.simps
        xor_bytes_def toy_block_def eval_nat_numeral)

lemma cut_read_header: "read_header toy_block cut_payload_footer = Inr cut_payload_header"
proof -
  have dec: "cbc_decrypt toy_block \<lparr>cbc_key = replicate 32 0, cbc_iv = replicate 16 0\<rparr>
               cut_payload_enc_endblock
             = Inr (cut_payload_endblock,
                    \<lparr>cbc_key = replicate 32 0, cbc_iv = drop 32 cut_payload_enc_endblock\<rparr>)"
    by (simp add: cbc_decrypt_def len_cut_enc cut_cbc) (simp add: cut_payload_enc_endblock_def)
  have mode: "unpack_2L cut_payload_endblock ENC_MODE_POS = Inr (1, ENC_MODE1_MAGIC)"
    by (simp add: unpack_2L_def cut_payload_endblock_def slice_def ENC_MODE_POS_def
          ENC_MODE1_MAGIC_def)
  have pos: "unpack_L cut_payload_endblock ORIG_FILENAME_POS_POS = Inr 44"
    by (simp add: unpack_L_def cut_payload_endblock_def slice_def ORIG_FILENAME_POS_POS_def)
  have tm: "find_terminator cut_payload_endblock 44 = Inr 46"
    by (simp add: find_terminator.simps cut_payload_endblock_def)
  have name: "decode_utf16 (slice cut_payload_endblock 44 46) = Inr [0x61]"
    by (simp add: decode_utf16_def cut_payload_endblock_def slice_def)
  show ?thesis
    by (simp add: read_header_def cut_payload_footer_def cut_md_fields zero_cipher dec mode pos
          tm name cut_payload_header_def after_last_backslash_def)
qed

lemma crc32_cut_payload: "crc32 [0xAA, 0xBB, 0xCC, 0xDD, 0x61, 0, 0, 0] = 3892890166"
proof -
  have "foldl crc_byte 0xFFFFFFFF [0xAA, 0xBB, 0xCC, 0xDD, 0x61, 0, 0, 0] = 402077129"
    by (simp add: crc_byte_unfold crc_bit_def)
  then show ?thesis by (simp add: crc32_def)
qed

lemma cut_fields:
  "unpack_3L cut_payload_endblock 0x0C = Inr (Suc 0, 100, 3892890166)"
  "chunk_payload cut_payload_endblock (Suc 0) 100 = [0xAA, 0xBB, 0xCC, 0xDD, 0x61, 0, 0, 0]"
  "chunk_pos cut_payload_endblock 0 = 0"
  "length cut_payload_endblock = 48"
  by (simp_all add: unpack_3L_def chunk_payload_def chunk_pos_def cut_payload_endblock_def
        slice_def)

lemma cut_chunk0:
  "chunk_slice [0xAA, 0xBB, 0xCC, 0xDD, 0x61, 0, 0, 0] 100 0 = [0xAA, 0xBB, 0xCC, 0xDD, 0x61, 0, 0, 0]"
  by (simp add: chunk_slice_def slice_def)

lemma cut_after_loop:
  "after_write_loop plain_fs cut_payload_endblock (Suc 0) 100 cut_payload_file
     = [0xAA, 0xBB, 0xCC, 0xDD, 0x61, 0, 0, 0, 9, 10, 11, 12] @ cut_payload_enc_endblock @
       cut_payload_metadata"
  by (simp add: after_write_loop_def chunk_payload_def plain_fs_def unpack_Q_def
        Let_def slice_def write_at_def cut_payload_file_def cut_payload_endblock_def)

lemma cut_run:
  "decrypt_file2 toy_block plain_fs cut_payload_file (replicate 160 0)
     = (Return True, Some ([0x61], [0xAA, 0xBB, 0xCC, 0xDD, 0x61, 0, 0, 0, 9, 10, 11, 12]))"
proof -
  have hf: "hd_endblock_data cut_payload_header = cut_payload_endblock"
    "hd_enc_mode cut_payload_header = 1" "hd_orig_filename cut_payload_header = [0x61]"
    "ft_footer_size cut_payload_footer = 226"
    by (simp_all add: cut_payload_header_def cut_payload_footer_def)
  have copy: "can_copy_to plain_fs [0x61]"
    by (simp add: can_copy_to_def plain_fs_def)
  have w: "fst (write_chunks (fs_max_size plain_fs) cut_payload_endblock
                  [0xAA, 0xBB, 0xCC, 0xDD, 0x61, 0, 0, 0] 100 [0..<Suc 0] cut_payload_file) = None"
    by (intro write_chunks_runs) (auto simp: cut_fields cut_chunk0 plain_fs_def)
  have "decrypt_chunks plain_fs cut_payload_file cut_payload_footer cut_payload_header =
          (Return True,
           Some (hd_orig_filename cut_payload_header,
                 take (length (after_write_loop plain_fs (hd_endblock_data cut_payload_header)
                                 (Suc 0) 100 cut_payload_file) - ft_footer_size cut_payload_footer)
                   (after_write_loop plain_fs (hd_endblock_data cut_payload_header) (Suc 0) 100
                      cut_payload_file)))"
    by (rule decrypt_chunks_runs [where crc = 3892890166])
       (simp_all only: hf copy cut_fields crc32_cut_payload w)
  then show ?thesis
    by (simp add: decrypt_file2_chunks [OF cut_read_footer cut_read_header] hf
          cut_after_loop len_cut_enc len_cut_md)
qed

text \<open>
  On the 238-byte container \<open>decrypt_file2\<close> returns \<open>True\<close>, and chunk 0, announced with
  100 bytes, has the 8 bytes that the end block holds: the 100 bytes of the output at its
  offset are these 8 bytes followed by bytes of the input.
\<close>

theorem write_chunks_cut_payload_counterexample:
  "decrypt_file2 toy_block plain_fs cut_payload_file (replicate 160 0)
     = (Return True, Some ([0x61], [0xAA, 0xBB, 0xCC, 0xDD, 0x61, 0, 0, 0, 9, 10, 11, 12])) \<and>
   unpack_3L cut_payload_endblock 0x0C = Inr (1, 100, 3892890166) \<and>
   chunk_pos cut_payload_endblock 0 = 0 \<and>
   chunk_slice (chunk_payload cut_payload_endblock 1 100) 100 0
     = [0xAA, 0xBB, 0xCC, 0xDD, 0x61, 0, 0, 0] \<and>
   length (slice (after_write_loop plain_fs cut_payload_endblock 1 100 cut_payload_file) 0 100)
     = 100 \<and>
   slice (after_write_loop plain_fs cut_payload_endblock 1 100 cut_payload_file) 0 100
     \<noteq> chunk_slice (chunk_payload cut_payload_endblock 1 100) 100 0"
proof -
  have l: "length (slice (after_write_loop plain_fs cut_payload_endblock (Suc 0) 100
             cut_payload_file) 0 100) = 100"
    by (simp add: cut_after_loop slice_def len_cut_enc len_cut_md)
  have c: "chunk_slice (chunk_payload cut_payload_endblock (Suc 0) 100) 100 0
     = [0xAA, 0xBB, 0xCC, 0xDD, 0x61, 0, 0, 0]"
    by (simp add: cut_fields cut_chunk0)
  have n: "slice (after_write_loop plain_fs cut_payload_endblock (Suc 0) 100 cut_payload_file)
             0 100
     \<noteq> chunk_slice (chunk_payload cut_payload_endblock (Suc 0) 100) 100 0"
  proof
    assume "slice (after_write_loop plain_fs cut_payload_endblock (Suc 0) 100 cut_payload_file)
              0 100
      = chunk_slice (chunk_payload cut_payload_endblock (Suc 0) 100) 100 0"
    then have "length (slice (after_write_loop plain_fs cut_payload_endblock (Suc 0) 100
                 cut_payload_file) 0 100)
      = length (chunk_slice (chunk_payload cut_payload_endblock (Suc 0) 100) 100 0)"
      by simp
    then show False unfolding l c by simp
  qed
  from cut_run cut_fields(1) cut_fields(3) c l n show ?thesis by simp
qed


end
